(* ===== verification/MR_Prelude.thy ===== *)
theory MR_Prelude
  imports Main "HOL-Library.Code_Target_Nat"
begin

text \<open>
  Shared vocabulary of the MatrixRaft development: the fixed-width arithmetic of the Rust
  source, its error type, and the shape of its fallible mutating methods.

  Unsigned 64-bit values are natural numbers. Every operation the source writes with an
  explicit overflow rule has its own constant here: \<open>sat_add\<close> and \<open>sat_mul\<close> for
  \<^verbatim>\<open>saturating_add\<close> and \<^verbatim>\<open>saturating_mul\<close>, \<open>checked_succ\<close> for
  \<^verbatim>\<open>checked_add(1)\<close>, and \<open>wrap_add\<close>/\<open>wrap_sub\<close> for the plain operators, which wrap
  in a release build. \<^verbatim>\<open>saturating_sub\<close> is subtraction on the naturals.
\<close>

section \<open>Unsigned 64-bit arithmetic\<close>

type_synonym u64 = nat
type_synonym node_id = nat
type_synonym group_id = nat
type_synonym raft_term = nat
type_synonym log_index = nat
type_synonym payload = "nat list"

named_theorems u64_simps \<open>facts about saturating, checked and wrapping arithmetic\<close>

definition u64_max :: nat where
  "u64_max = 2 ^ 64 - 1"

definition sat_add :: "nat \<Rightarrow> nat \<Rightarrow> nat" where
  "sat_add a b = min (a + b) u64_max"

definition sat_mul :: "nat \<Rightarrow> nat \<Rightarrow> nat" where
  "sat_mul a b = min (a * b) u64_max"

definition checked_succ :: "nat \<Rightarrow> nat option" where
  "checked_succ a = (if a < u64_max then Some (a + 1) else None)"

definition wrap_add :: "nat \<Rightarrow> nat \<Rightarrow> nat" where
  "wrap_add a b = (a + b) mod 2 ^ 64"

definition wrap_sub :: "nat \<Rightarrow> nat \<Rightarrow> nat" where
  "wrap_sub a b = (if b \<le> a then a - b else 2 ^ 64 - (b - a))"

lemma u64_max_pos [simp]: "0 < u64_max"
  by (simp add: u64_max_def)

lemma u64_max_Suc: "Suc u64_max = 2 ^ 64"
  by (simp add: u64_max_def)

lemma sat_add_exact [u64_simps]: "a + b \<le> u64_max \<Longrightarrow> sat_add a b = a + b"
  by (simp add: sat_add_def)

lemma sat_add_succ [u64_simps]: "a < u64_max \<Longrightarrow> sat_add a 1 = a + 1"
  by (simp add: sat_add_def)

lemma sat_add_Suc0 [simp]: "a < u64_max \<Longrightarrow> sat_add a (Suc 0) = Suc a"
  by (simp add: sat_add_def)

lemma sat_add_le: "sat_add a b \<le> a + b"
  by (simp add: sat_add_def)

lemma sat_add_bound [simp]: "sat_add a b \<le> u64_max"
  by (simp add: sat_add_def)

lemma sat_add_ge_left: "a \<le> u64_max \<Longrightarrow> a \<le> sat_add a b"
  by (simp add: sat_add_def)

lemma sat_add_zero [simp]: "a \<le> u64_max \<Longrightarrow> sat_add a 0 = a"
  by (simp add: sat_add_def)

lemma sat_add_assoc: "sat_add (sat_add a b) c = sat_add a (b + c)"
  by (simp add: sat_add_def)

lemma sat_mul_exact [u64_simps]: "a * b \<le> u64_max \<Longrightarrow> sat_mul a b = a * b"
  by (simp add: sat_mul_def)

lemma sat_mul_le: "sat_mul a b \<le> a * b"
  by (simp add: sat_mul_def)

lemma checked_succ_Some [u64_simps]: "checked_succ a = Some b \<longleftrightarrow> a < u64_max \<and> b = a + 1"
  by (auto simp: checked_succ_def)

lemma checked_succ_None [u64_simps]: "checked_succ a = None \<longleftrightarrow> u64_max \<le> a"
  by (auto simp: checked_succ_def)

lemma wrap_add_exact [u64_simps]: "a + b \<le> u64_max \<Longrightarrow> wrap_add a b = a + b"
  using u64_max_Suc by (simp add: wrap_add_def)

lemma wrap_sub_exact [u64_simps]: "b \<le> a \<Longrightarrow> wrap_sub a b = a - b"
  by (simp add: wrap_sub_def)

section \<open>Errors and fallible methods\<close>

text \<open>\<^verbatim>\<open>enum RaftError\<close> of \<^verbatim>\<open>facade/cluster_runtime.rs\<close>.\<close>

datatype raft_error =
    Config string
  | NodeNotFound node_id
  | NoLeader
  | NotLeader node_id
  | InvalidRequest string
  | Transport string
  | Storage string

text \<open>
  A method that takes \<^verbatim>\<open>&self\<close> and returns \<^verbatim>\<open>Result<T, RaftError>\<close> is a function into
  \<open>'a result\<close>. One that takes \<^verbatim>\<open>&mut self\<close> returns the result together with the state
  it leaves behind: an early error return of the source keeps whatever was written before.
\<close>

type_synonym 'a result = "raft_error + 'a"
type_synonym ('a, 's) outcome = "'a result \<times> 's"

definition ok_or :: "raft_error \<Rightarrow> 'a option \<Rightarrow> 'a result" where
  "ok_or e x = (case x of None \<Rightarrow> Inl e | Some v \<Rightarrow> Inr v)"

text \<open>The \<^verbatim>\<open>?\<close> operator on a mutating call: stop at an error, go on with the value.\<close>

definition and_then :: "('a, 's) outcome \<Rightarrow> ('a \<Rightarrow> 's \<Rightarrow> ('b, 's) outcome) \<Rightarrow> ('b, 's) outcome" where
  "and_then r k = (case r of (Inl e, s) \<Rightarrow> (Inl e, s) | (Inr v, s) \<Rightarrow> k v s)"

definition is_ok :: "'a result \<Rightarrow> bool" where
  "is_ok r = (case r of Inl _ \<Rightarrow> False | Inr _ \<Rightarrow> True)"

lemma ok_or_simps [simp]: "ok_or e None = Inl e" "ok_or e (Some v) = Inr v"
  by (simp_all add: ok_or_def)

lemma and_then_simps [simp]:
  "and_then (Inl e, s) k = (Inl e, s)" "and_then (Inr v, s) k = k v s"
  by (simp_all add: and_then_def)

lemma is_ok_simps [simp]: "\<not> is_ok (Inl e)" "is_ok (Inr v)"
  by (simp_all add: is_ok_def)

lemma and_then_Inr:
  "and_then r k = (Inr v, s') \<Longrightarrow> (\<And>u s. r = (Inr u, s) \<Longrightarrow> k u s = (Inr v, s') \<Longrightarrow> P) \<Longrightarrow> P"
  by (auto simp: and_then_def split: prod.splits sum.splits)

text \<open>Decimal rendering, as \<^verbatim>\<open>{}\<close> prints an unsigned integer in an error message.\<close>

fun show_nat :: "nat \<Rightarrow> string" where
  "show_nat n = (if n < 10 then [char_of (48 + n)]
                 else show_nat (n div 10) @ [char_of (48 + n mod 10)])"

declare show_nat.simps [simp del]

end
