(* ===== verification/MR_Membership.thy ===== *)
theory MR_Membership
  imports MR_Prelude
begin

text \<open>
  Replica roles, group membership and joint membership
  (\<^verbatim>\<open>facade/membership_core.rs\<close>), and the learner promotion and transition checks of
  \<^verbatim>\<open>membership.rs\<close>. What the rest of the system relies on is the locale
  \<open>quorum_system\<close>: any two quorums meet. It is interpreted on the quorum tests of
  \<^verbatim>\<open>Membership\<close> and of \<^verbatim>\<open>JointMembership\<close>.
\<close>

section \<open>Quorum systems\<close>

locale quorum_system =
  fixes quorum :: "'a list \<Rightarrow> bool"
  assumes quorum_meet: "quorum A \<Longrightarrow> quorum B \<Longrightarrow> \<exists>x. x \<in> set A \<and> x \<in> set B"
    and quorum_mono: "quorum A \<Longrightarrow> set A \<subseteq> set B \<Longrightarrow> quorum B"
begin

lemma quorum_nonempty: "quorum A \<Longrightarrow> A \<noteq> []"
  using quorum_meet by fastforce

lemma disjoint_not_quorum: "quorum A \<Longrightarrow> set A \<inter> set B = {} \<Longrightarrow> \<not> quorum B"
  using quorum_meet by blast

lemma unique_choice:
  assumes "quorum A" "quorum B"
    and "\<forall>x \<in> set A. vote x = Some a" "\<forall>x \<in> set B. vote x = Some b"
  shows "a = b"
  using assms quorum_meet by fastforce

end

section \<open>Roles and peers\<close>

datatype state_role = Leader | Follower | Candidate | PreCandidate | Learner

datatype replica_role = VoterRole | LearnerRole | WitnessRole

fun participates_in_quorum :: "replica_role \<Rightarrow> bool" where
  "participates_in_quorum VoterRole = True"
| "participates_in_quorum LearnerRole = False"
| "participates_in_quorum WitnessRole = True"

fun can_serve_data :: "replica_role \<Rightarrow> bool" where
  "can_serve_data VoterRole = True"
| "can_serve_data LearnerRole = True"
| "can_serve_data WitnessRole = False"

fun can_be_leader :: "replica_role \<Rightarrow> bool" where
  "can_be_leader VoterRole = True"
| "can_be_leader LearnerRole = False"
| "can_be_leader WitnessRole = False"

lemma can_be_leader_iff: "can_be_leader r \<longleftrightarrow> participates_in_quorum r \<and> can_serve_data r"
  by (cases r) auto

record peer =
  pr_node_id :: node_id
  pr_raft_addr :: string
  pr_snapshot_addr :: string
  pr_role :: replica_role
  pr_auto_promote :: bool

section \<open>Membership\<close>

record membership =
  mb_group_id :: group_id
  mb_voters :: "node_id list"
  mb_learners :: "node_id list"
  mb_witnesses :: "node_id list"
  mb_epoch :: u64

record learner_catch_up_report =
  lc_learner_id :: node_id
  lc_learner_match_index :: log_index
  lc_leader_commit_index :: log_index
  lc_caught_up :: bool
  lc_lag :: log_index
  lc_promotable :: bool
  lc_reason :: string

definition matrixraft_quorum_size :: "nat \<Rightarrow> nat \<Rightarrow> bool \<Rightarrow> nat" where
  "matrixraft_quorum_size voters witnesses ignore_witness =
     (if ignore_witness then voters div 2 + 1 else (voters + witnesses) div 2 + 1)"

definition quorum_size_with_witness_policy :: "membership \<Rightarrow> bool \<Rightarrow> nat" where
  "quorum_size_with_witness_policy m ignore_witness =
     matrixraft_quorum_size (length (mb_voters m)) (length (mb_witnesses m)) ignore_witness"

definition quorum_size :: "membership \<Rightarrow> nat" where
  "quorum_size m = quorum_size_with_witness_policy m False"

text \<open>The nodes a quorum is counted over: the voters, then the witnesses unless ignored.\<close>

definition quorum_members :: "membership \<Rightarrow> bool \<Rightarrow> node_id list" where
  "quorum_members m ignore_witness =
     mb_voters m @ (if \<not> ignore_witness then mb_witnesses m else [])"

definition quorum_reached_with_witness_policy :: "membership \<Rightarrow> node_id list \<Rightarrow> bool \<Rightarrow> bool" where
  "quorum_reached_with_witness_policy m acknowledgements ignore_witness =
     (let votes = length (filter (\<lambda>node_id. List.member acknowledgements node_id)
                            (quorum_members m ignore_witness))
      in quorum_size_with_witness_policy m ignore_witness \<le> votes)"

definition quorum_reached :: "membership \<Rightarrow> node_id list \<Rightarrow> bool" where
  "quorum_reached m acknowledgements = quorum_reached_with_witness_policy m acknowledgements False"

definition ensure_absent :: "membership \<Rightarrow> node_id \<Rightarrow> unit result" where
  "ensure_absent m node_id =
     (if List.member (mb_voters m) node_id \<or> List.member (mb_learners m) node_id
         \<or> List.member (mb_witnesses m) node_id
      then Inl (InvalidRequest (''node '' @ show_nat node_id @ '' is already a member''))
      else Inr ())"

definition bump_epoch :: "membership \<Rightarrow> membership" where
  "bump_epoch m = m\<lparr>mb_epoch := wrap_add (mb_epoch m) 1\<rparr>"

definition add_learner :: "node_id \<Rightarrow> membership \<Rightarrow> (unit, membership) outcome" where
  "add_learner node_id m =
     (case ensure_absent m node_id of
        Inl e \<Rightarrow> (Inl e, m)
      | Inr _ \<Rightarrow> (Inr (), bump_epoch (m\<lparr>mb_learners := mb_learners m @ [node_id]\<rparr>)))"

definition add_witness :: "node_id \<Rightarrow> membership \<Rightarrow> (unit, membership) outcome" where
  "add_witness node_id m =
     (case ensure_absent m node_id of
        Inl e \<Rightarrow> (Inl e, m)
      | Inr _ \<Rightarrow> (Inr (), bump_epoch (m\<lparr>mb_witnesses := mb_witnesses m @ [node_id]\<rparr>)))"

text \<open>\<^verbatim>\<open>iter().position(..)\<close> followed by \<^verbatim>\<open>Vec::remove\<close> drops the first occurrence.\<close>

definition promote_learner :: "node_id \<Rightarrow> membership \<Rightarrow> (unit, membership) outcome" where
  "promote_learner node_id m =
     (if List.member (mb_learners m) node_id
      then (Inr (), bump_epoch (m\<lparr>mb_learners := remove1 node_id (mb_learners m),
                                   mb_voters := mb_voters m @ [node_id]\<rparr>))
      else (Inl (InvalidRequest (''node '' @ show_nat node_id @ '' is not a learner'')), m))"

definition remove_node :: "node_id list \<Rightarrow> node_id \<Rightarrow> bool \<times> node_id list" where
  "remove_node nodes node_id =
     (if List.member nodes node_id then (True, remove1 node_id nodes) else (False, nodes))"

definition remove_peer :: "node_id \<Rightarrow> membership \<Rightarrow> (unit, membership) outcome" where
  "remove_peer node_id m =
     (case remove_node (mb_voters m) node_id of
        (True, vs) \<Rightarrow> (Inr (), bump_epoch (m\<lparr>mb_voters := vs\<rparr>))
      | (False, _) \<Rightarrow>
          (case remove_node (mb_learners m) node_id of
             (True, ls) \<Rightarrow> (Inr (), bump_epoch (m\<lparr>mb_learners := ls\<rparr>))
           | (False, _) \<Rightarrow>
               (case remove_node (mb_witnesses m) node_id of
                  (True, ws) \<Rightarrow> (Inr (), bump_epoch (m\<lparr>mb_witnesses := ws\<rparr>))
                | (False, _) \<Rightarrow> (Inl (NodeNotFound node_id), m))))"

definition catchup_report :: "membership \<Rightarrow> node_id \<Rightarrow> log_index \<Rightarrow> log_index \<Rightarrow> learner_catch_up_report" where
  "catchup_report m learner_id learner_match_index leader_commit_index =
     (let lag = leader_commit_index - learner_match_index;
          is_learner = List.member (mb_learners m) learner_id;
          caught_up = is_learner \<and> leader_commit_index \<le> learner_match_index
      in \<lparr>lc_learner_id = learner_id, lc_learner_match_index = learner_match_index,
          lc_leader_commit_index = leader_commit_index, lc_caught_up = caught_up, lc_lag = lag,
          lc_promotable = caught_up,
          lc_reason = (if \<not> is_learner then ''node_is_not_learner''
                       else if caught_up then ''learner_caught_up'' else ''learner_lagging'')\<rparr>)"

section \<open>Joint membership\<close>

record joint_membership =
  jm_old_voters :: "node_id list"
  jm_new_voters :: "node_id list"

record joint_commit_evidence =
  jc_old_quorum_size :: nat
  jc_new_quorum_size :: nat
  jc_acknowledged_voters :: "node_id list"
  jc_old_majority_acked :: bool
  jc_new_majority_acked :: bool
  jc_joint_quorum_reached :: bool

definition old_quorum_size :: "joint_membership \<Rightarrow> nat" where
  "old_quorum_size j = length (jm_old_voters j) div 2 + 1"

definition new_quorum_size :: "joint_membership \<Rightarrow> nat" where
  "new_quorum_size j = length (jm_new_voters j) div 2 + 1"

definition commit_evidence :: "joint_membership \<Rightarrow> node_id list \<Rightarrow> joint_commit_evidence" where
  "commit_evidence j acknowledgements =
     (let old_votes = length (filter (\<lambda>n. List.member acknowledgements n) (jm_old_voters j));
          new_votes = length (filter (\<lambda>n. List.member acknowledgements n) (jm_new_voters j));
          old_majority_acked = old_quorum_size j \<le> old_votes;
          new_majority_acked = new_quorum_size j \<le> new_votes
      in \<lparr>jc_old_quorum_size = old_quorum_size j, jc_new_quorum_size = new_quorum_size j,
          jc_acknowledged_voters = acknowledgements,
          jc_old_majority_acked = old_majority_acked, jc_new_majority_acked = new_majority_acked,
          jc_joint_quorum_reached = (old_majority_acked \<and> new_majority_acked)\<rparr>)"

definition joint_quorum_reached :: "joint_membership \<Rightarrow> node_id list \<Rightarrow> bool" where
  "joint_quorum_reached j acknowledgements = jc_joint_quorum_reached (commit_evidence j acknowledgements)"

section \<open>Counting lemmas\<close>

lemma filter_overlap:
  assumes "length xs < length (filter P xs) + length (filter Q xs)"
  shows "\<exists>x \<in> set xs. P x \<and> Q x"
proof (rule ccontr)
  assume "\<not> ?thesis"
  then have "length (filter P xs) + length (filter Q xs) \<le> length xs"
    by (induction xs) auto
  with assms show False by simp
qed

lemma length_filter_remove1:
  "length (filter P (remove1 x xs)) \<le> length (filter P xs)"
  by (induction xs) auto

lemma length_filter_mono:
  "(\<And>x. P x \<Longrightarrow> Q x) \<Longrightarrow> length (filter P xs) \<le> length (filter Q xs)"
  by (induction xs) auto

lemmas quorum_unfold = quorum_reached_with_witness_policy_def quorum_size_with_witness_policy_def
  matrixraft_quorum_size_def quorum_members_def Let_def

text \<open>A quorum of a membership is more than half of the members it is counted over.\<close>

lemma quorum_reached_iff:
  "quorum_reached_with_witness_policy m acks iw \<longleftrightarrow>
     length (quorum_members m iw) div 2 + 1
       \<le> length (filter (\<lambda>n. n \<in> set acks) (quorum_members m iw))"
  by (auto simp: quorum_unfold)

lemma majorities_meet:
  assumes "length xs div 2 + 1 \<le> length (filter (\<lambda>n. n \<in> set A) xs)"
    and "length xs div 2 + 1 \<le> length (filter (\<lambda>n. n \<in> set B) xs)"
  shows "\<exists>x \<in> set xs. x \<in> set A \<and> x \<in> set B"
  by (rule filter_overlap) (use assms in linarith)

lemma majority_mono:
  assumes "n \<le> length (filter (\<lambda>x. x \<in> set A) xs)" "set A \<subseteq> set B"
  shows "n \<le> length (filter (\<lambda>x. x \<in> set B) xs)"
  using assms length_filter_mono [of "\<lambda>x. x \<in> set A" "\<lambda>x. x \<in> set B" xs] by fastforce

interpretation member_quorum: quorum_system
  "\<lambda>acks. quorum_reached_with_witness_policy m acks ignore_witness" for m ignore_witness
proof unfold_locales
  show "\<exists>x. x \<in> set A \<and> x \<in> set B"
    if "quorum_reached_with_witness_policy m A ignore_witness"
      "quorum_reached_with_witness_policy m B ignore_witness" for A B
    using that majorities_meet unfolding quorum_reached_iff by blast
  show "quorum_reached_with_witness_policy m B ignore_witness"
    if "quorum_reached_with_witness_policy m A ignore_witness" "set A \<subseteq> set B" for A B
    using that majority_mono unfolding quorum_reached_iff by blast
qed

lemma joint_quorum_reached_iff:
  "joint_quorum_reached j acks \<longleftrightarrow>
     length (jm_old_voters j) div 2 + 1 \<le> length (filter (\<lambda>n. n \<in> set acks) (jm_old_voters j)) \<and>
     length (jm_new_voters j) div 2 + 1 \<le> length (filter (\<lambda>n. n \<in> set acks) (jm_new_voters j))"
  by (simp add: joint_quorum_reached_def commit_evidence_def old_quorum_size_def new_quorum_size_def
      Let_def)

interpretation joint_quorum: quorum_system "joint_quorum_reached j" for j
proof unfold_locales
  show "\<exists>x. x \<in> set A \<and> x \<in> set B" if "joint_quorum_reached j A" "joint_quorum_reached j B" for A B
    using that majorities_meet unfolding joint_quorum_reached_iff by blast
  show "joint_quorum_reached j B" if "joint_quorum_reached j A" "set A \<subseteq> set B" for A B
    using that majority_mono unfolding joint_quorum_reached_iff by blast
qed

section \<open>Membership changes\<close>

text \<open>One successful change of a membership, and the well-formedness every change keeps.\<close>

inductive membership_step :: "membership \<Rightarrow> membership \<Rightarrow> bool" where
  add_learner: "add_learner n m = (Inr (), m') \<Longrightarrow> membership_step m m'"
| add_witness: "add_witness n m = (Inr (), m') \<Longrightarrow> membership_step m m'"
| promote_learner: "promote_learner n m = (Inr (), m') \<Longrightarrow> membership_step m m'"
| remove_peer: "remove_peer n m = (Inr (), m') \<Longrightarrow> membership_step m m'"

definition all_members :: "membership \<Rightarrow> node_id list" where
  "all_members m = mb_voters m @ mb_learners m @ mb_witnesses m"

definition membership_ok :: "membership \<Rightarrow> bool" where
  "membership_ok m = distinct (all_members m)"

lemma bump_epoch_simps [simp]:
  "mb_voters (bump_epoch m) = mb_voters m" "mb_learners (bump_epoch m) = mb_learners m"
  "mb_witnesses (bump_epoch m) = mb_witnesses m" "mb_group_id (bump_epoch m) = mb_group_id m"
  "mb_epoch (bump_epoch m) = wrap_add (mb_epoch m) 1"
  by (simp_all add: bump_epoch_def)

lemma ensure_absent_iff: "ensure_absent m n = Inr () \<longleftrightarrow> n \<notin> set (all_members m)"
  by (simp add: ensure_absent_def all_members_def)

lemma add_learner_ok:
  "add_learner n m = (Inr (), m') \<longleftrightarrow>
     n \<notin> set (all_members m) \<and> m' = bump_epoch (m\<lparr>mb_learners := mb_learners m @ [n]\<rparr>)"
  unfolding ensure_absent_iff [symmetric] add_learner_def by (auto split: sum.splits)

lemma add_witness_ok:
  "add_witness n m = (Inr (), m') \<longleftrightarrow>
     n \<notin> set (all_members m) \<and> m' = bump_epoch (m\<lparr>mb_witnesses := mb_witnesses m @ [n]\<rparr>)"
  unfolding ensure_absent_iff [symmetric] add_witness_def by (auto split: sum.splits)

lemma promote_learner_ok:
  "promote_learner n m = (Inr (), m') \<longleftrightarrow>
     n \<in> set (mb_learners m) \<and>
     m' = bump_epoch (m\<lparr>mb_learners := remove1 n (mb_learners m), mb_voters := mb_voters m @ [n]\<rparr>)"
  by (auto simp: promote_learner_def)

lemma remove_peer_cases:
  assumes "remove_peer n m = (Inr (), m')"
  obtains "n \<in> set (mb_voters m)" "m' = bump_epoch (m\<lparr>mb_voters := remove1 n (mb_voters m)\<rparr>)"
  | "n \<notin> set (mb_voters m)" "n \<in> set (mb_learners m)"
    "m' = bump_epoch (m\<lparr>mb_learners := remove1 n (mb_learners m)\<rparr>)"
  | "n \<notin> set (mb_voters m)" "n \<notin> set (mb_learners m)" "n \<in> set (mb_witnesses m)"
    "m' = bump_epoch (m\<lparr>mb_witnesses := remove1 n (mb_witnesses m)\<rparr>)"
  using assms by (auto simp: remove_peer_def remove_node_def split: if_splits)

lemma membership_step_ok: "membership_step m m' \<Longrightarrow> membership_ok m \<Longrightarrow> membership_ok m'"
proof (induction rule: membership_step.induct)
  case (remove_peer n m m')
  then show ?case
    by (elim remove_peer_cases)
      (auto simp: membership_ok_def all_members_def dest: notin_set_remove1)
qed (auto simp: add_learner_ok add_witness_ok promote_learner_ok membership_ok_def all_members_def
    dest: notin_set_remove1)

lemma membership_step_epoch: "membership_step m m' \<Longrightarrow> mb_epoch m' = wrap_add (mb_epoch m) 1"
  by (induction rule: membership_step.induct)
    (auto simp: add_learner_ok add_witness_ok promote_learner_ok elim!: remove_peer_cases)

text \<open>
  One change moves at most one node in or out of the counted members, so the longer of the two
  lists contains the shorter as far as counting goes.
\<close>

definition count_within :: "'a list \<Rightarrow> 'a list \<Rightarrow> bool" where
  "count_within xs ys \<longleftrightarrow>
     (\<forall>P. length (filter P xs) \<le> length (filter P ys)) \<and> length ys \<le> Suc (length xs)"

lemma count_within_refl [simp]: "count_within xs xs"
  by (simp add: count_within_def)

lemma count_within_insert [simp]: "count_within (xs @ ys) (xs @ y # ys)"
  by (simp add: count_within_def)

lemma count_within_append [simp]: "count_within xs (xs @ [y])"
  by (simp add: count_within_def)

lemma count_within_remove1 [simp]: "count_within (remove1 x xs) xs"
  using length_filter_remove1 by (auto simp: count_within_def length_remove1)

lemma count_within_context:
  "count_within xs ys \<Longrightarrow> count_within (as @ xs) (as @ ys)"
  "count_within xs ys \<Longrightarrow> count_within (xs @ as) (ys @ as)"
  by (auto simp: count_within_def)

lemma count_within_meet:
  assumes "count_within xs ys"
    and "length xs div 2 + 1 \<le> length (filter (\<lambda>n. n \<in> set A) xs)"
    and "length ys div 2 + 1 \<le> length (filter (\<lambda>n. n \<in> set B) ys)"
  shows "\<exists>x. x \<in> set A \<and> x \<in> set B"
proof -
  have "length (filter (\<lambda>n. n \<in> set A) xs) \<le> length (filter (\<lambda>n. n \<in> set A) ys)"
    and "length ys \<le> Suc (length xs)"
    using assms(1) by (auto simp: count_within_def)
  then show ?thesis
    using assms(2,3) filter_overlap [of ys "\<lambda>n. n \<in> set A" "\<lambda>n. n \<in> set B"] by fastforce
qed

lemma membership_step_members:
  assumes "membership_step m m'"
  shows "count_within (quorum_members m iw) (quorum_members m' iw)
       \<or> count_within (quorum_members m' iw) (quorum_members m iw)"
  using assms
proof (induction rule: membership_step.induct)
  case (remove_peer n m m')
  then show ?case
    by (elim remove_peer_cases) (auto simp: quorum_members_def count_within_context)
qed (auto simp: add_learner_ok add_witness_ok promote_learner_ok quorum_members_def
    count_within_context)

lemma membership_step_quorums_meet:
  assumes "membership_step m m'"
    and "quorum_reached_with_witness_policy m A iw"
    and "quorum_reached_with_witness_policy m' B iw"
  shows "\<exists>x. x \<in> set A \<and> x \<in> set B"
  using membership_step_members [OF assms(1)] assms(2,3) count_within_meet
  unfolding quorum_reached_iff by blast

section \<open>Learner promotion\<close>

record learner_promotion_estimate =
  pe_learner_id :: node_id
  pe_remaining_entries :: u64
  pe_turn_entries :: u64
  pe_turn_elapsed_ms :: u64
  pe_estimated_catch_up_ms :: u64
  pe_election_timeout_ms :: u64
  pe_within_election_timeout :: bool
  pe_promote_now :: bool
  pe_reason :: string

text \<open>The product is taken in 128 bits, where two 64-bit factors cannot overflow.\<close>

definition matrixraft_learner_promotion_estimate ::
  "node_id \<Rightarrow> bool \<Rightarrow> log_index \<Rightarrow> log_index \<Rightarrow> u64 \<Rightarrow> u64 \<Rightarrow> u64 \<Rightarrow> learner_promotion_estimate" where
  "matrixraft_learner_promotion_estimate learner_id is_learner learner_match_index leader_last_index
     turn_entries turn_elapsed_ms election_timeout_ms =
     (let remaining_entries = leader_last_index - learner_match_index;
          estimate = (\<lambda>ms promote reason.
            \<lparr>pe_learner_id = learner_id, pe_remaining_entries = remaining_entries,
             pe_turn_entries = turn_entries, pe_turn_elapsed_ms = turn_elapsed_ms,
             pe_estimated_catch_up_ms = ms, pe_election_timeout_ms = election_timeout_ms,
             pe_within_election_timeout = (ms \<le> election_timeout_ms),
             pe_promote_now = promote, pe_reason = reason\<rparr>)
      in if \<not> is_learner then estimate 0 False ''node_is_not_learner''
         else if learner_match_index = 0 then estimate 0 False ''learner_has_no_matched_log''
         else if remaining_entries = 0 then estimate 0 True ''learner_caught_up''
         else if turn_entries = 0 then estimate 0 False ''no_turn_to_estimate_from''
         else (let product = turn_elapsed_ms * remaining_entries;
                   quotient = product div turn_entries;
                   ms = (if quotient \<le> u64_max then quotient else u64_max)
               in if ms \<le> election_timeout_ms
                  then estimate ms True ''estimated_catch_up_within_election_timeout''
                  else estimate ms False ''estimated_catch_up_exceeds_election_timeout''))"

section \<open>Properties\<close>

definition sample_membership :: membership where
  "sample_membership = \<lparr>mb_group_id = 1, mb_voters = [1, 2, 3], mb_learners = [4], mb_witnesses = [5], mb_epoch = 0\<rparr>"

text \<open>
  C4: Single-step reconfiguration is safe. A quorum of a membership and a quorum of the
  membership one change later (a learner or witness added, a learner promoted, a peer removed)
  always share a member, whichever way witnesses are counted; so do two quorums of the same
  membership.
\<close>

theorem membership_change_quorums_meet:
  assumes "m' = m \<or> membership_step m m'"
    and "quorum_reached_with_witness_policy m A ignore_witness"
    and "quorum_reached_with_witness_policy m' B ignore_witness"
  shows "\<exists>x. x \<in> set A \<and> x \<in> set B"
  using assms membership_step_quorums_meet member_quorum.quorum_meet by blast

theorem membership_change_quorums_meet_witness:
  "\<exists>x. x \<in> set [1, 2, 5] \<and> x \<in> set [2, 3, 4 :: node_id]"
proof -
  have "membership_step sample_membership (snd (promote_learner 4 sample_membership))"
    by (rule membership_step.promote_learner [of 4]) code_simp
  moreover have "quorum_reached_with_witness_policy sample_membership [1, 2, 5] False"
    "quorum_reached_with_witness_policy (snd (promote_learner 4 sample_membership)) [2, 3, 4] False"
    by code_simp+
  ultimately show ?thesis using membership_change_quorums_meet by blast
qed

text \<open>
  C23: From a well-formed membership (every node in exactly one role list, once) every sequence
  of successful changes leads to a well-formed membership, and every change moves the epoch by
  one.
\<close>

theorem membership_changes_keep_roles_disjoint:
  assumes "membership_ok m" "membership_step\<^sup>*\<^sup>* m m'" "membership_step m' m''"
  shows "membership_ok m' \<and> membership_ok m'' \<and> mb_epoch m'' = wrap_add (mb_epoch m') 1"
proof -
  from assms(2,1) have "membership_ok m'"
    by (induction rule: rtranclp_induct) (auto intro: membership_step_ok)
  then show ?thesis using assms(3) membership_step_ok membership_step_epoch by blast
qed

theorem membership_changes_keep_roles_disjoint_witness:
  "membership_ok (snd (promote_learner 4 sample_membership))
   \<and> membership_ok (snd (remove_peer 5 (snd (promote_learner 4 sample_membership))))"
proof -
  let ?m = "snd (promote_learner 4 sample_membership)"
  have "membership_step sample_membership ?m"
    by (rule membership_step.promote_learner [of 4]) code_simp
  then have "membership_step\<^sup>*\<^sup>* sample_membership ?m" by blast
  moreover have "membership_step ?m (snd (remove_peer 5 ?m))"
    by (rule membership_step.remove_peer [of 5]) code_simp
  moreover have "membership_ok sample_membership" by code_simp
  ultimately show ?thesis using membership_changes_keep_roles_disjoint by blast
qed

text \<open>
  C17: A joint quorum meets every majority of the old voters and every majority of the new
  voters, so neither configuration can decide on its own while a joint change is in flight.
\<close>

theorem joint_quorum_meets_both_sides:
  assumes "joint_quorum_reached j A"
    and "quorum_reached \<lparr>mb_group_id = g, mb_voters = vs, mb_learners = ls, mb_witnesses = [], mb_epoch = ep\<rparr> B"
    and "vs = jm_old_voters j \<or> vs = jm_new_voters j"
  shows "\<exists>x \<in> set vs. x \<in> set A \<and> x \<in> set B"
proof -
  have "length vs div 2 + 1 \<le> length (filter (\<lambda>n. n \<in> set A) vs)"
    using assms(1,3) unfolding joint_quorum_reached_iff by auto
  moreover have "length vs div 2 + 1 \<le> length (filter (\<lambda>n. n \<in> set B) vs)"
    using assms(2) unfolding quorum_reached_def quorum_reached_iff by (simp add: quorum_members_def)
  ultimately show ?thesis by (rule majorities_meet)
qed

theorem joint_quorum_meets_both_sides_witness:
  "\<exists>x \<in> set [1, 2, 3 :: node_id]. x \<in> set [2, 3, 4] \<and> x \<in> set [1, 2]"
proof -
  have "joint_quorum_reached \<lparr>jm_old_voters = [1, 2, 3], jm_new_voters = [2, 3, 4]\<rparr> [2, 3, 4]"
    "quorum_reached \<lparr>mb_group_id = 1, mb_voters = [1, 2, 3], mb_learners = [], mb_witnesses = [], mb_epoch = 0\<rparr> [1, 2]"
    by code_simp+
  then show ?thesis by (rule joint_quorum_meets_both_sides) simp
qed

text \<open>
  A learner is promoted exactly when it has matched something and has either nothing left
  to receive, or at the rate of the last turn (product before division, so nothing is lost to
  truncation) would finish within the election timeout; an estimate too large for 64 bits
  passes only a timeout of the largest value.
\<close>

theorem learner_promotion_iff:
  assumes "timeout \<le> u64_max"
  shows "pe_promote_now (matrixraft_learner_promotion_estimate l is_learner matched leader_last entries elapsed timeout)
    \<longleftrightarrow> is_learner \<and> matched \<noteq> 0
      \<and> (leader_last \<le> matched
         \<or> entries \<noteq> 0 \<and> (elapsed * (leader_last - matched) < (timeout + 1) * entries \<or> timeout = u64_max))"
proof -
  have "elapsed * (leader_last - matched) div entries \<le> timeout
      \<longleftrightarrow> elapsed * (leader_last - matched) < (timeout + 1) * entries" if "entries \<noteq> 0"
    using that by (metis Suc_eq_plus1 div_less_iff_less_mult less_Suc_eq_le neq0_conv)
  then show ?thesis
    using assms by (auto simp: matrixraft_learner_promotion_estimate_def Let_def)
qed

theorem learner_promotion_iff_witness:
  "\<not> pe_promote_now (matrixraft_learner_promotion_estimate 4 True 10 100010 100 1 300)"
  using learner_promotion_iff [of 300 4 True 10 100010 100 1] by (simp add: u64_max_def)

end
