(* ===== verification/MR_Search.thy ===== *)
theory MR_Search
  imports MR_Prelude
begin

text \<open>
  The slice searches of Rust's standard library that the source calls on index-ordered logs:
  \<^verbatim>\<open>binary_search_by\<close> as the halving loop it is, \<^verbatim>\<open>partition_point\<close> defined from it as in
  the library, and \<^verbatim>\<open>select_nth_unstable\<close> as the element at a rank. On a slice ordered the
  way the documentation asks for, the loop is shown to find the element, and the partition
  point to be the length of the prefix.
\<close>

section \<open>The halving loop\<close>

datatype ordering = Less | Equal | Greater

definition cmp_nat :: "nat \<Rightarrow> nat \<Rightarrow> ordering" where
  "cmp_nat a b = (if a < b then Less else if a = b then Equal else Greater)"

fun bs_loop :: "('a \<Rightarrow> ordering) \<Rightarrow> 'a list \<Rightarrow> nat \<Rightarrow> nat \<Rightarrow> nat" where
  "bs_loop f xs base sz =
     (if sz \<le> 1 then base
      else (let half = sz div 2; mid = base + half
            in bs_loop f xs (if f (xs ! mid) = Greater then base else mid) (sz - half)))"

declare bs_loop.simps [simp del]

text \<open>\<open>Inr\<close> is \<^verbatim>\<open>Ok(position)\<close>, \<open>Inl\<close> is \<^verbatim>\<open>Err(insertion point)\<close>.\<close>

definition binary_search_by :: "('a \<Rightarrow> ordering) \<Rightarrow> 'a list \<Rightarrow> nat + nat" where
  "binary_search_by f xs =
     (if xs = [] then Inl 0
      else (let base = bs_loop f xs 0 (length xs)
            in case f (xs ! base) of
                 Equal \<Rightarrow> Inr base
               | Less \<Rightarrow> Inl (base + 1)
               | Greater \<Rightarrow> Inl base))"

definition partition_point :: "('a \<Rightarrow> bool) \<Rightarrow> 'a list \<Rightarrow> nat" where
  "partition_point P xs =
     (case binary_search_by (\<lambda>x. if P x then Less else Greater) xs of Inl i \<Rightarrow> i | Inr i \<Rightarrow> i)"

definition select_nth :: "'a :: linorder list \<Rightarrow> nat \<Rightarrow> 'a" where
  "select_nth xs i = sort xs ! i"

section \<open>Correctness on ordered slices\<close>

definition ordered_for :: "('a \<Rightarrow> ordering) \<Rightarrow> 'a list \<Rightarrow> bool" where
  "ordered_for f xs \<longleftrightarrow>
     (\<forall>j < length xs. \<forall>i \<le> j. f (xs ! i) = Greater \<longrightarrow> f (xs ! j) = Greater)"

lemma ordered_forD:
  "ordered_for f xs \<Longrightarrow> i \<le> j \<Longrightarrow> j < length xs \<Longrightarrow> f (xs ! i) = Greater \<Longrightarrow> f (xs ! j) = Greater"
  by (auto simp: ordered_for_def)

definition last_not_greater :: "('a \<Rightarrow> ordering) \<Rightarrow> 'a list \<Rightarrow> nat \<Rightarrow> bool" where
  "last_not_greater f xs b \<longleftrightarrow> b < length xs
     \<and> (\<forall>i. b < i \<longrightarrow> i < length xs \<longrightarrow> f (xs ! i) = Greater) \<and> (b = 0 \<or> f (xs ! b) \<noteq> Greater)"

lemma bs_loop_step:
  "\<not> sz \<le> 1 \<Longrightarrow> bs_loop f xs base sz =
     bs_loop f xs (if f (xs ! (base + sz div 2)) = Greater then base else base + sz div 2) (sz - sz div 2)"
  by (subst bs_loop.simps) (simp add: Let_def)

lemma bs_loop_correct:
  assumes "ordered_for f xs" "0 < sz" "base + sz \<le> length xs"
    and "\<And>i. base + sz \<le> i \<Longrightarrow> i < length xs \<Longrightarrow> f (xs ! i) = Greater"
    and "base = 0 \<or> f (xs ! base) \<noteq> Greater"
  shows "last_not_greater f xs (bs_loop f xs base sz)"
  using assms(2-)
proof (induction sz arbitrary: base rule: less_induct)
  case (less sz)
  show ?case
  proof (cases "sz \<le> 1")
    case True
    then have "bs_loop f xs base sz = base" by (subst bs_loop.simps) simp
    moreover have "sz = 1" using True less.prems(1) by simp
    ultimately show ?thesis
      unfolding last_not_greater_def using less.prems(2,3,4) by (metis Suc_eq_plus1 Suc_leI Suc_le_lessD)
  next
    case False
    define mid where "mid = base + sz div 2"
    define base' where "base' = (if f (xs ! mid) = Greater then base else mid)"
    have mid: "mid < length xs" using False less.prems(2) by (simp add: mid_def)
    have "last_not_greater f xs (bs_loop f xs base' (sz - sz div 2))"
    proof (rule less.IH)
      show "base' + (sz - sz div 2) \<le> length xs"
        using less.prems(2) unfolding base'_def mid_def by (split if_split) linarith
      show "base' = 0 \<or> f (xs ! base') \<noteq> Greater"
        using less.prems(4) by (simp add: base'_def)
      show "f (xs ! i) = Greater" if i: "base' + (sz - sz div 2) \<le> i" "i < length xs" for i
      proof (cases "base + sz \<le> i")
        case True
        then show ?thesis using less.prems(3) i(2) by blast
      next
        case nle: False
        have "base' \<noteq> mid \<or> base + sz \<le> i" using i(1) by (auto simp: mid_def)
        with nle have g: "f (xs ! mid) = Greater" by (auto simp: base'_def split: if_splits)
        then have "mid \<le> i" using i(1) by (simp add: base'_def mid_def)
        then show ?thesis using ordered_forD [OF assms(1) _ i(2) g] by blast
      qed
    qed (use False in auto)
    then show ?thesis
      unfolding bs_loop_step [OF False, of f xs base] base'_def mid_def .
  qed
qed

lemma bs_loop_whole:
  assumes "ordered_for f xs" "xs \<noteq> []"
  defines "b \<equiv> bs_loop f xs 0 (length xs)"
  shows "b < length xs" "\<And>i. b < i \<Longrightarrow> i < length xs \<Longrightarrow> f (xs ! i) = Greater"
    "b = 0 \<or> f (xs ! b) \<noteq> Greater"
  using bs_loop_correct [OF assms(1), of "length xs" 0] assms(2)
  by (auto simp: b_def last_not_greater_def)

lemma length_takeWhile_prefix:
  assumes "n \<le> length xs" "\<And>i. i < n \<Longrightarrow> P (xs ! i)" "n < length xs \<Longrightarrow> \<not> P (xs ! n)"
  shows "length (takeWhile P xs) = n"
proof -
  have "takeWhile P xs = take n xs"
    using assms(2,3) by (rule takeWhile_eq_take_P_nth)
  then show ?thesis using assms(1) by simp
qed

definition side :: "('a \<Rightarrow> bool) \<Rightarrow> 'a \<Rightarrow> ordering" where
  "side P x = (if P x then Less else Greater)"

lemma side_Greater [simp]: "side P x = Greater \<longleftrightarrow> \<not> P x"
  by (simp add: side_def)

lemma partition_point_side:
  "xs \<noteq> [] \<Longrightarrow> partition_point P xs =
     (let b = bs_loop (side P) xs 0 (length xs) in if P (xs ! b) then b + 1 else b)"
  by (simp add: partition_point_def binary_search_by_def Let_def side_def [abs_def])

theorem partition_point_takeWhile:
  assumes mono: "\<And>i j. i \<le> j \<Longrightarrow> j < length xs \<Longrightarrow> P (xs ! j) \<Longrightarrow> P (xs ! i)"
  shows "partition_point P xs = length (takeWhile P xs)"
proof (cases "xs = []")
  case True
  then show ?thesis by (simp add: partition_point_def binary_search_by_def)
next
  case False
  define b where "b = bs_loop (side P) xs 0 (length xs)"
  have "ordered_for (side P) xs" using mono by (auto simp: ordered_for_def)
  from bs_loop_whole [OF this False]
  have b: "b < length xs" "\<And>i. b < i \<Longrightarrow> i < length xs \<Longrightarrow> \<not> P (xs ! i)" "b = 0 \<or> P (xs ! b)"
    by (auto simp: b_def)
  show ?thesis
  proof (cases "P (xs ! b)")
    case True
    have "length (takeWhile P xs) = b + 1"
    proof (rule length_takeWhile_prefix)
      show "P (xs ! i)" if "i < b + 1" for i using that mono [of i b] True b(1) by simp
    qed (use b in auto)
    then show ?thesis
      using False True by (simp add: partition_point_side b_def [symmetric])
  next
    case nP: False
    then have "b = 0" using b(3) by simp
    then have "partition_point P xs = 0"
      using False nP by (simp add: partition_point_side b_def [symmetric])
    with nP False \<open>b = 0\<close> show ?thesis by (cases xs) auto
  qed
qed

lemma sorted_index_ordered:
  assumes "sorted_wrt (<) (map idx xs)"
  shows "ordered_for (\<lambda>e. cmp_nat (idx e) i) xs"
  unfolding ordered_for_def cmp_nat_def
proof (intro allI impI)
  fix j k assume "j < length xs" "k \<le> j"
    and "(if idx (xs ! k) < i then Less else if idx (xs ! k) = i then Equal else Greater) = Greater"
  moreover from this have "idx (xs ! k) \<le> idx (xs ! j)"
    using assms by (cases "k = j") (auto simp: sorted_wrt_iff_nth_less less_imp_le)
  ultimately show "(if idx (xs ! j) < i then Less else if idx (xs ! j) = i then Equal else Greater) = Greater"
    by (auto split: if_splits)
qed

lemma binary_search_by_Inr:
  "xs \<noteq> [] \<Longrightarrow> binary_search_by f xs = Inr p \<longleftrightarrow>
     p = bs_loop f xs 0 (length xs) \<and> f (xs ! p) = Equal"
  by (auto simp: binary_search_by_def Let_def split: ordering.splits)

theorem binary_search_index:
  assumes "sorted_wrt (<) (map idx xs)"
  shows "binary_search_by (\<lambda>e. cmp_nat (idx e) i) xs = Inr p \<longleftrightarrow> p < length xs \<and> idx (xs ! p) = i"
proof (cases "xs = []")
  case True
  then show ?thesis by (simp add: binary_search_by_def)
next
  case False
  define f where "f = (\<lambda>e. cmp_nat (idx e) i)"
  define b where "b = bs_loop f xs 0 (length xs)"
  have f: "f e = Greater \<longleftrightarrow> i < idx e" "f e = Equal \<longleftrightarrow> idx e = i" for e
    by (auto simp: f_def cmp_nat_def)
  have b: "b < length xs" "\<And>i. b < i \<Longrightarrow> i < length xs \<Longrightarrow> f (xs ! i) = Greater"
    "b = 0 \<or> f (xs ! b) \<noteq> Greater"
    unfolding b_def f_def using bs_loop_whole [OF sorted_index_ordered [OF assms] False] by blast+
  have less: "idx (xs ! k) < idx (xs ! j)" if "k < j" "j < length xs" for k j
    using assms that by (auto simp: sorted_wrt_iff_nth_less)
  have "p = b" if p: "p < length xs" "idx (xs ! p) = i"
  proof (rule linorder_cases [of p b])
    assume "p < b"
    moreover from this have "i < idx (xs ! b)" using less [of p b] b(1) p(2) by simp
    ultimately show ?thesis using b(3) f by simp
  next
    assume "b < p"
    then have "i < idx (xs ! p)" using b(2) [of p] p(1) f by simp
    with p(2) show ?thesis by simp
  qed simp
  moreover have "binary_search_by f xs = Inr p \<longleftrightarrow> p = b \<and> idx (xs ! p) = i"
    unfolding binary_search_by_Inr [OF False] b_def f(2) ..
  ultimately show ?thesis using b(1) unfolding f_def by auto
qed

end
