(* ===== verification/MR_Node.thy ===== *)
theory MR_Node
  imports MR_Membership MR_Search
begin

text \<open>
  One replica of a group: \<^verbatim>\<open>struct Node\<close> of \<^verbatim>\<open>facade/cluster_runtime.rs\<close>, its index-ordered
  log, hard state, snapshot floor and the commit and apply cursors. The state invariant
  \<open>node_inv\<close> is kept by every operation, and the contract \<open>safe_log_op\<close> (the invariant and
  the committed prefix of the log survive) is a locale interpreted on the operations that
  the replication path runs, with its closure over sequences of operations proved once.
\<close>

section \<open>Data\<close>

record log_id =
  li_term :: raft_term
  li_index :: log_index

record log_entry =
  le_log_id :: log_id
  le_payload :: payload
  le_is_command :: bool

record hard_state =
  hs_current_term :: raft_term
  hs_voted_for :: "node_id option"
  hs_committed :: "log_id option"

record snapshot_metadata =
  sm_snapshot_id :: string
  sm_last_log_id :: log_id
  sm_membership :: "node_id list"
  sm_members :: "peer list"
  sm_payload_bytes :: u64

record raft_snapshot =
  rs_group_id :: group_id
  rs_meta :: snapshot_metadata
  rs_payload :: payload

datatype learner_auto_promote_state = APStop | APCheck | APPromoting | APPromoted

record node =
  nd_id :: node_id
  nd_replica_role :: replica_role
  nd_raft_role :: state_role
  nd_hard_state :: hard_state
  nd_log :: "log_entry list"
  nd_retained_log_bytes :: u64
  nd_installed_snapshot :: "snapshot_metadata option"
  nd_commit_index :: log_index
  nd_applied_index :: log_index
  nd_safety_applied_index :: log_index
  nd_rejected_apply_index :: "log_index option"
  nd_witness_ack_index :: log_index
  nd_healthy :: bool
  nd_liveness_elapsed_ms :: u64
  nd_auto_promote :: bool
  nd_auto_promote_state :: learner_auto_promote_state

abbreviation idx :: "log_entry \<Rightarrow> log_index" where
  "idx e \<equiv> li_index (le_log_id e)"

abbreviation trm :: "log_entry \<Rightarrow> raft_term" where
  "trm e \<equiv> li_term (le_log_id e)"

abbreviation current_term_of :: "node \<Rightarrow> raft_term" where
  "current_term_of n \<equiv> hs_current_term (nd_hard_state n)"

definition node_new :: "node_id \<Rightarrow> replica_role \<Rightarrow> bool \<Rightarrow> node" where
  "node_new i role auto_promote =
     \<lparr>nd_id = i, nd_replica_role = role,
      nd_raft_role = (if role = LearnerRole then Learner else Follower),
      nd_hard_state = \<lparr>hs_current_term = 0, hs_voted_for = None, hs_committed = None\<rparr>,
      nd_log = [], nd_retained_log_bytes = 0, nd_installed_snapshot = None, nd_commit_index = 0,
      nd_applied_index = 0, nd_safety_applied_index = 0, nd_rejected_apply_index = None,
      nd_witness_ack_index = 0, nd_healthy = True, nd_liveness_elapsed_ms = 0,
      nd_auto_promote = (role = LearnerRole \<and> auto_promote), nd_auto_promote_state = APStop\<rparr>"

section \<open>Reading the log\<close>

definition last_retained_index :: "node \<Rightarrow> log_index" where
  "last_retained_index n = (if nd_log n = [] then 0 else idx (last (nd_log n)))"

definition snapshot_index :: "node \<Rightarrow> log_index" where
  "snapshot_index n = (case nd_installed_snapshot n of
     None \<Rightarrow> 0 | Some s \<Rightarrow> li_index (sm_last_log_id s))"

definition match_index :: "node \<Rightarrow> log_index" where
  "match_index n =
     (if nd_replica_role n = WitnessRole then nd_witness_ack_index n
      else max (last_retained_index n) (snapshot_index n))"

definition log_position :: "node \<Rightarrow> log_index \<Rightarrow> nat option" where
  "log_position n log_index =
     (case nd_log n of
        [] \<Rightarrow> None
      | first # _ \<Rightarrow>
          (if log_index < idx first then None
           else (let offset = log_index - idx first
                 in if offset < length (nd_log n) \<and> idx (nd_log n ! offset) = log_index
                    then Some offset
                    else (case binary_search_by (\<lambda>e. cmp_nat (idx e) log_index) (nd_log n) of
                            Inr p \<Rightarrow> Some p | Inl _ \<Rightarrow> None))))"

definition log_position_at_or_after :: "node \<Rightarrow> log_index \<Rightarrow> nat option" where
  "log_position_at_or_after n log_index =
     (if nd_log n = [] \<or> idx (last (nd_log n)) < log_index then None
      else Some (partition_point (\<lambda>e. idx e < log_index) (nd_log n)))"

definition log_term_at :: "node \<Rightarrow> log_index \<Rightarrow> raft_term option" where
  "log_term_at n log_index =
     (if log_index = 0 then Some 0
      else case nd_installed_snapshot n of
        Some s \<Rightarrow>
          (if li_index (sm_last_log_id s) = log_index then Some (li_term (sm_last_log_id s))
           else map_option (\<lambda>p. trm (nd_log n ! p)) (log_position n log_index))
      | None \<Rightarrow> map_option (\<lambda>p. trm (nd_log n ! p)) (log_position n log_index))"

definition is_fresh_candidate_log :: "node \<Rightarrow> log_id option \<Rightarrow> bool" where
  "is_fresh_candidate_log n candidate_last_log_id =
     (let candidate = (case candidate_last_log_id of
            None \<Rightarrow> \<lparr>li_term = 0, li_index = 0\<rparr> | Some l \<Rightarrow> l);
          local_index = match_index n;
          local_term = (case log_term_at n local_index of None \<Rightarrow> 0 | Some t \<Rightarrow> t)
      in local_term < li_term candidate
         \<or> (li_term candidate = local_term \<and> local_index \<le> li_index candidate))"

section \<open>Writing the log\<close>

definition payload_bytes :: "log_entry list \<Rightarrow> nat" where
  "payload_bytes es = sum_list (map (\<lambda>e. length (le_payload e)) es)"

definition truncate_log_at :: "nat \<Rightarrow> node \<Rightarrow> node" where
  "truncate_log_at position n =
     (let released = payload_bytes (drop position (nd_log n))
      in n\<lparr>nd_retained_log_bytes := nd_retained_log_bytes n - released,
           nd_log := take position (nd_log n)\<rparr>)"

definition discard_log_through :: "log_index \<Rightarrow> node \<Rightarrow> nat \<times> node" where
  "discard_log_through log_index n =
     (let cut = partition_point (\<lambda>e. idx e \<le> log_index) (nd_log n)
      in if cut = 0 then (0, n)
         else (cut, n\<lparr>nd_retained_log_bytes :=
                        nd_retained_log_bytes n - payload_bytes (take cut (nd_log n)),
                      nd_log := drop cut (nd_log n)\<rparr>))"

definition set_log :: "log_entry list \<Rightarrow> node \<Rightarrow> node" where
  "set_log es n = n\<lparr>nd_retained_log_bytes := payload_bytes es, nd_log := es\<rparr>"

definition push_entry :: "log_entry \<Rightarrow> node \<Rightarrow> node" where
  "push_entry e n =
     n\<lparr>nd_retained_log_bytes := sat_add (nd_retained_log_bytes n) (length (le_payload e)),
       nd_log := nd_log n @ [e]\<rparr>"

definition append_entry :: "log_entry \<Rightarrow> node \<Rightarrow> node" where
  "append_entry e n =
     (if nd_log n = [] \<or> idx (last (nd_log n)) < idx e then push_entry e n
      else case log_position n (idx e) of
             Some position \<Rightarrow>
               (if trm (nd_log n ! position) = trm e then n
                else if idx e \<le> nd_commit_index n then n
                else push_entry e (truncate_log_at position n))
           | None \<Rightarrow> push_entry e n)"

definition truncate_log_from :: "log_index \<Rightarrow> node \<Rightarrow> node" where
  "truncate_log_from log_index n =
     (if log_index \<le> nd_commit_index n then n
      else case log_position_at_or_after n log_index of
             Some position \<Rightarrow> truncate_log_at position n
           | None \<Rightarrow> n)"

text \<open>The \<^verbatim>\<open>while\<close> loop of \<^verbatim>\<open>conflict_next_index\<close>, walking down from the rejected index.\<close>

fun conflict_scan :: "node \<Rightarrow> raft_term \<Rightarrow> log_index \<Rightarrow> log_index" where
  "conflict_scan n conflict_term index =
     (if nd_commit_index n < index then
        (if log_term_at n index \<noteq> Some conflict_term then sat_add index 1
         else conflict_scan n conflict_term (index - 1))
      else sat_add (nd_commit_index n) 1)"

declare conflict_scan.simps [simp del]

definition conflict_next_index :: "node \<Rightarrow> log_index \<Rightarrow> log_index" where
  "conflict_next_index n prev_index =
     (let local_last_index = match_index n
      in if local_last_index < prev_index then sat_add local_last_index 1
         else case log_term_at n prev_index of
                None \<Rightarrow> sat_add local_last_index 1
              | Some conflict_term \<Rightarrow> conflict_scan n conflict_term prev_index)"

definition acknowledge_witness_index :: "log_index \<Rightarrow> node \<Rightarrow> node" where
  "acknowledge_witness_index log_index n =
     (if nd_replica_role n = WitnessRole
      then n\<lparr>nd_witness_ack_index := max (nd_witness_ack_index n) log_index\<rparr> else n)"

definition append_witness_entry :: "log_entry \<Rightarrow> bool \<Rightarrow> node \<Rightarrow> node" where
  "append_witness_entry e preserve_payload n =
     (let stored = \<lparr>le_log_id = le_log_id e,
                    le_payload = (if preserve_payload then le_payload e else []),
                    le_is_command = False\<rparr>
      in append_entry stored (acknowledge_witness_index (idx e) n))"

section \<open>Commit, apply and snapshot cursors\<close>

definition advance_commit :: "log_index \<Rightarrow> node \<Rightarrow> node" where
  "advance_commit commit_index n =
     (let n1 = n\<lparr>nd_commit_index := max (nd_commit_index n) (min commit_index (match_index n))\<rparr>;
          n2 = (if (can_serve_data (nd_replica_role n1) \<or> nd_replica_role n1 = WitnessRole)
                   \<and> nd_rejected_apply_index n1 = None
                then (let has_inflight_apply = nd_safety_applied_index n1 < nd_applied_index n1;
                          m = n1\<lparr>nd_applied_index := max (nd_applied_index n1) (nd_commit_index n1)\<rparr>
                      in if has_inflight_apply then m
                         else m\<lparr>nd_safety_applied_index :=
                                  max (nd_safety_applied_index m) (nd_applied_index m)\<rparr>)
                else n1);
          committed_term = (case log_term_at n2 (nd_commit_index n2) of
                              Some t \<Rightarrow> t | None \<Rightarrow> current_term_of n2)
      in n2\<lparr>nd_hard_state := (nd_hard_state n2)\<lparr>hs_committed :=
              (if 0 < nd_commit_index n2
               then Some \<lparr>li_term = committed_term, li_index = nd_commit_index n2\<rparr>
               else None)\<rparr>\<rparr>)"

definition install_snapshot :: "raft_snapshot \<Rightarrow> node \<Rightarrow> node" where
  "install_snapshot snapshot n =
     (let snapshot_log_id = sm_last_log_id (rs_meta snapshot);
          snapshot_index = li_index snapshot_log_id;
          n1 = snd (discard_log_through snapshot_index
                      (n\<lparr>nd_installed_snapshot := Some (rs_meta snapshot)\<rparr>));
          n2 = (if nd_replica_role n1 = WitnessRole
                then n1\<lparr>nd_witness_ack_index := max (nd_witness_ack_index n1) snapshot_index\<rparr>
                else n1);
          n3 = n2\<lparr>nd_commit_index := max (nd_commit_index n2) snapshot_index\<rparr>;
          n4 = (case nd_rejected_apply_index n3 of
                  Some required \<Rightarrow> (if required \<le> snapshot_index
                                     then n3\<lparr>nd_rejected_apply_index := None\<rparr> else n3)
                | None \<Rightarrow> n3);
          n5 = (if can_serve_data (nd_replica_role n4)
                then n4\<lparr>nd_applied_index := max (nd_applied_index n4) snapshot_index,
                        nd_safety_applied_index := max (nd_safety_applied_index n4) snapshot_index\<rparr>
                else n4)
      in n5\<lparr>nd_hard_state := (nd_hard_state n5)\<lparr>hs_committed := Some snapshot_log_id\<rparr>\<rparr>)"

definition compact_log_through :: "log_index \<Rightarrow> node \<Rightarrow> nat \<times> node" where
  "compact_log_through log_index n =
     (let safe_compaction_index = (if can_serve_data (nd_replica_role n)
                                   then nd_safety_applied_index n else nd_commit_index n)
      in discard_log_through (min log_index safe_compaction_index) n)"

section \<open>Index-ordered logs\<close>

definition log_sorted :: "log_entry list \<Rightarrow> bool" where
  "log_sorted es = sorted_wrt (<) (map idx es)"

definition contiguous_from :: "log_index \<Rightarrow> log_entry list \<Rightarrow> bool" where
  "contiguous_from k es = (map idx es = [k..<k + length es])"

lemma contiguous_from_Nil [simp]: "contiguous_from k []"
  by (simp add: contiguous_from_def)

lemma contiguous_from_sorted: "contiguous_from k es \<Longrightarrow> log_sorted es"
  by (simp add: contiguous_from_def log_sorted_def)

lemma contiguous_from_nth: "contiguous_from k es \<Longrightarrow> i < length es \<Longrightarrow> idx (es ! i) = k + i"
  unfolding contiguous_from_def by (metis nth_map nth_upt add_less_cancel_left)

lemma contiguous_from_snoc [simp]:
  "contiguous_from k (es @ [e]) \<longleftrightarrow> contiguous_from k es \<and> idx e = k + length es"
  by (auto simp: contiguous_from_def)

lemma contiguous_from_single [simp]: "contiguous_from k [e] \<longleftrightarrow> idx e = k"
  by (auto simp: contiguous_from_def)

lemma contiguous_from_take [simp]: "contiguous_from k es \<Longrightarrow> contiguous_from k (take p es)"
  unfolding contiguous_from_def by (simp flip: take_map add: take_upt min_def)

lemma contiguous_from_drop [simp]:
  "contiguous_from k es \<Longrightarrow> p \<le> length es \<Longrightarrow> contiguous_from (k + p) (drop p es)"
  unfolding contiguous_from_def by (simp flip: drop_map)

lemma contiguous_from_hd: "contiguous_from k es \<Longrightarrow> es \<noteq> [] \<Longrightarrow> idx (hd es) = k"
  using contiguous_from_nth [of k es 0] by (simp add: hd_conv_nth)

lemma contiguous_from_last: "contiguous_from k es \<Longrightarrow> es \<noteq> [] \<Longrightarrow> idx (last es) + 1 = k + length es"
  using contiguous_from_nth [of k es "length es - 1"] by (simp add: last_conv_nth)

lemma contiguous_from_mem:
  assumes "contiguous_from k es"
  shows "(\<exists>e \<in> set es. idx e = i) \<longleftrightarrow> k \<le> i \<and> i < k + length es"
proof -
  have "(\<exists>e \<in> set es. idx e = i) \<longleftrightarrow> i \<in> set (map idx es)" by auto
  also have "\<dots> \<longleftrightarrow> k \<le> i \<and> i < k + length es"
    unfolding assms [unfolded contiguous_from_def] by auto
  finally show ?thesis .
qed

lemma log_sorted_nth_less: "log_sorted es \<Longrightarrow> i < j \<Longrightarrow> j < length es \<Longrightarrow> idx (es ! i) < idx (es ! j)"
  by (simp add: log_sorted_def sorted_wrt_iff_nth_less)

lemma log_sorted_nth_le: "log_sorted es \<Longrightarrow> i \<le> j \<Longrightarrow> j < length es \<Longrightarrow> idx (es ! i) \<le> idx (es ! j)"
  using log_sorted_nth_less [of es i j] by (cases "i = j") (auto simp: less_imp_le)

lemma log_sorted_inj: "log_sorted es \<Longrightarrow> i < length es \<Longrightarrow> j < length es \<Longrightarrow> idx (es ! i) = idx (es ! j) \<Longrightarrow> i = j"
  using log_sorted_nth_less [of es i j] log_sorted_nth_less [of es j i] by (cases i j rule: linorder_cases) auto

lemma log_sorted_unique:
  "log_sorted es \<Longrightarrow> a \<in> set es \<Longrightarrow> b \<in> set es \<Longrightarrow> idx a = idx b \<Longrightarrow> a = b"
  using log_sorted_inj by (metis in_set_conv_nth)

text \<open>Both search paths of \<^verbatim>\<open>log_position\<close> agree: it finds exactly the slot of an index.\<close>

lemma log_position_Some:
  assumes "log_sorted (nd_log n)"
  shows "log_position n i = Some p \<longleftrightarrow> p < length (nd_log n) \<and> idx (nd_log n ! p) = i"
proof (cases "nd_log n")
  case Nil
  then show ?thesis by (simp add: log_position_def)
next
  case (Cons first rest)
  have srt: "sorted_wrt (<) (map idx (nd_log n))" using assms by (simp add: log_sorted_def)
  have ge: "idx first \<le> idx (nd_log n ! q)" if "q < length (nd_log n)" for q
    using log_sorted_nth_le [OF assms, of 0 q] that Cons by simp
  define fast where "fast \<longleftrightarrow> i - idx first < length (nd_log n) \<and> idx (nd_log n ! (i - idx first)) = i"
  have eq: "log_position n i =
    (if i < idx first then None
     else if fast then Some (i - idx first)
     else (case binary_search_by (\<lambda>e. cmp_nat (idx e) i) (nd_log n) of Inr p \<Rightarrow> Some p | Inl _ \<Rightarrow> None))"
    unfolding log_position_def fast_def by (subst Cons) (simp add: Let_def)
  consider "i < idx first" | "\<not> i < idx first" fast | "\<not> i < idx first" "\<not> fast" by blast
  then show ?thesis
  proof cases
    case 1
    then show ?thesis using ge unfolding eq by fastforce
  next
    case 2
    then show ?thesis using log_sorted_inj [OF assms] unfolding eq fast_def by auto
  next
    case 3
    then have "log_position n i = Some p
        \<longleftrightarrow> binary_search_by (\<lambda>e. cmp_nat (idx e) i) (nd_log n) = Inr p"
      unfolding eq by (simp split: sum.split)
    then show ?thesis unfolding binary_search_index [OF srt] .
  qed
qed

lemma log_position_None:
  assumes "log_sorted (nd_log n)"
  shows "log_position n i = None \<longleftrightarrow> (\<forall>e \<in> set (nd_log n). idx e \<noteq> i)"
proof -
  have "log_position n i = None \<longleftrightarrow> (\<forall>p. log_position n i \<noteq> Some p)" by auto
  then show ?thesis unfolding log_position_Some [OF assms] by (auto simp: all_set_conv_all_nth)
qed

lemma partition_point_le:
  "log_sorted es \<Longrightarrow> partition_point (\<lambda>e. idx e \<le> i) es = length (takeWhile (\<lambda>e. idx e \<le> i) es)"
  by (rule partition_point_takeWhile) (use log_sorted_nth_le le_trans in blast)

lemma partition_point_less:
  "log_sorted es \<Longrightarrow> partition_point (\<lambda>e. idx e < i) es = length (takeWhile (\<lambda>e. idx e < i) es)"
  by (rule partition_point_takeWhile) (use log_sorted_nth_le le_less_trans in blast)

lemma log_sorted_take [simp]: "log_sorted es \<Longrightarrow> log_sorted (take p es)"
  by (simp add: log_sorted_def sorted_wrt_take flip: take_map)

lemma log_sorted_drop [simp]: "log_sorted es \<Longrightarrow> log_sorted (drop p es)"
  by (simp add: log_sorted_def sorted_wrt_drop flip: drop_map)

lemma log_sorted_snoc [simp]:
  "log_sorted (es @ [e]) \<longleftrightarrow> log_sorted es \<and> (\<forall>x \<in> set es. idx x < idx e)"
  by (auto simp: log_sorted_def sorted_wrt_append)

lemma log_sorted_last_less:
  assumes "log_sorted es" "es = [] \<or> idx (last es) < i" "x \<in> set es"
  shows "idx x < i"
proof -
  obtain q where q: "q < length es" "x = es ! q" using assms(3) by (auto simp: in_set_conv_nth)
  then have "idx x \<le> idx (last es)"
    using log_sorted_nth_le [OF assms(1), of q "length es - 1"] by (cases es rule: rev_cases) (auto simp: last_conv_nth)
  then show ?thesis using assms(2,3) by auto
qed

lemma log_sorted_takeWhile:
  assumes "log_sorted es"
  shows "takeWhile (\<lambda>e. idx e \<le> i) es = filter (\<lambda>e. idx e \<le> i) es"
    and "takeWhile (\<lambda>e. idx e < i) es = filter (\<lambda>e. idx e < i) es"
proof -
  have "sorted (map idx es)"
    using assms unfolding log_sorted_def by (simp add: strict_sorted_imp_sorted)
  then show "takeWhile (\<lambda>e. idx e \<le> i) es = filter (\<lambda>e. idx e \<le> i) es"
    by (induction es) (auto simp: empty_filter_conv filter_empty_conv)
  from \<open>sorted (map idx es)\<close> show "takeWhile (\<lambda>e. idx e < i) es = filter (\<lambda>e. idx e < i) es"
    by (induction es) (auto simp: empty_filter_conv filter_empty_conv)
qed

end
