(* ===== verification/MR_Node_Safety.thy ===== *)
theory MR_Node_Safety
  imports MR_Node
begin

text \<open>
  The invariant of a replica and its preservation: every operation of \<^verbatim>\<open>struct Node\<close> keeps
  the log contiguous above the snapshot floor, the cursors ordered
  (\<^verbatim>\<open>safety_applied \<le> applied \<le> commit \<le> match\<close>) and the byte counter exact, and none of them
  replaces an entry at or below the commit index.
\<close>

section \<open>The invariant\<close>

text \<open>
  The entry at the commit index can be accounted for: it is the last entry of the snapshot or is
  retained in the log. A witness keeps an acknowledged index instead.
\<close>

definition commit_held :: "node \<Rightarrow> bool" where
  "commit_held n \<longleftrightarrow>
     (if nd_replica_role n = WitnessRole then nd_commit_index n \<le> nd_witness_ack_index n
      else nd_commit_index n = snapshot_index n
           \<or> (nd_log n \<noteq> [] \<and> idx (hd (nd_log n)) \<le> nd_commit_index n
              \<and> nd_commit_index n \<le> idx (last (nd_log n))))"

definition node_inv :: "node \<Rightarrow> bool" where
  "node_inv n \<longleftrightarrow>
     (nd_log n \<noteq> [] \<longrightarrow> contiguous_from (idx (hd (nd_log n))) (nd_log n)
        \<and> snapshot_index n < idx (hd (nd_log n)) \<and> idx (hd (nd_log n)) \<le> nd_commit_index n + 1)
     \<and> nd_retained_log_bytes n = payload_bytes (nd_log n)
     \<and> nd_safety_applied_index n \<le> nd_applied_index n
     \<and> nd_applied_index n \<le> nd_commit_index n
     \<and> commit_held n
     \<and> snapshot_index n \<le> nd_commit_index n
     \<and> (nd_replica_role n = WitnessRole \<longrightarrow> last_retained_index n \<le> nd_witness_ack_index n)"

text \<open>
  What the append path of the cluster guarantees before it appends an entry: the entry follows
  the retained log or falls inside it, and the byte counter has room for its payload.
\<close>

definition append_pre :: "log_entry \<Rightarrow> node \<Rightarrow> bool" where
  "append_pre e n \<longleftrightarrow>
     (if nd_log n = [] then idx e = nd_commit_index n + 1
      else idx (hd (nd_log n)) \<le> idx e \<and> idx e \<le> idx (last (nd_log n)) + 1
           \<and> (idx (last (nd_log n)) < idx e \<longrightarrow> nd_commit_index n < idx e))
     \<and> payload_bytes (nd_log n) + length (le_payload e) \<le> u64_max"

lemma node_inv_sorted: "node_inv n \<Longrightarrow> log_sorted (nd_log n)"
  by (cases "nd_log n = []") (auto simp: node_inv_def log_sorted_def contiguous_from_def)

lemma payload_bytes_simps [simp]:
  "payload_bytes [] = 0" "payload_bytes (e # es) = length (le_payload e) + payload_bytes es"
  "payload_bytes (xs @ ys) = payload_bytes xs + payload_bytes ys"
  by (simp_all add: payload_bytes_def)

lemma payload_bytes_split: "payload_bytes es = payload_bytes (take p es) + payload_bytes (drop p es)"
  by (simp flip: payload_bytes_simps(3))

lemma payload_bytes_take_le: "payload_bytes (take p es) \<le> payload_bytes es"
  using payload_bytes_split [of es p] by simp

lemma commit_held_match: "commit_held n \<Longrightarrow> nd_commit_index n \<le> match_index n"
  by (auto simp: commit_held_def match_index_def last_retained_index_def split: if_splits)

lemma node_inv_commit_le_match: "node_inv n \<Longrightarrow> nd_commit_index n \<le> match_index n"
  by (simp add: node_inv_def commit_held_match)

lemma commit_held_cases:
  assumes "commit_held n"
  obtains (witness) "nd_replica_role n = WitnessRole" "nd_commit_index n \<le> nd_witness_ack_index n"
  | (snapshot) "nd_replica_role n \<noteq> WitnessRole" "nd_commit_index n = snapshot_index n"
  | (retained) "nd_replica_role n \<noteq> WitnessRole" "nd_log n \<noteq> []" "idx (hd (nd_log n)) \<le> nd_commit_index n"
      "nd_commit_index n \<le> idx (last (nd_log n))"
  using assms unfolding commit_held_def by (auto split: if_splits)

lemma node_invE:
  assumes "node_inv n"
  obtains "nd_log n \<noteq> [] \<longrightarrow> contiguous_from (idx (hd (nd_log n))) (nd_log n)"
    "nd_log n \<noteq> [] \<longrightarrow> snapshot_index n < idx (hd (nd_log n))"
    "nd_log n \<noteq> [] \<longrightarrow> idx (hd (nd_log n)) \<le> nd_commit_index n + 1"
    "nd_retained_log_bytes n = payload_bytes (nd_log n)"
    "nd_safety_applied_index n \<le> nd_applied_index n" "nd_applied_index n \<le> nd_commit_index n"
    "commit_held n" "snapshot_index n \<le> nd_commit_index n"
    "nd_replica_role n = WitnessRole \<longrightarrow> last_retained_index n \<le> nd_witness_ack_index n"
  using assms unfolding node_inv_def by blast

lemma node_inv_new: "node_inv (node_new i role auto)"
  by (simp add: node_inv_def node_new_def commit_held_def snapshot_index_def last_retained_index_def)

subsection \<open>Shape of the log writers\<close>

lemma log_position_contiguous:
  assumes "contiguous_from k (nd_log n)" "k \<le> i" "i < k + length (nd_log n)"
  shows "log_position n i = Some (i - k)"
  unfolding log_position_Some [OF contiguous_from_sorted [OF assms(1)]]
  using assms contiguous_from_nth [OF assms(1), of "i - k"] by auto

lemma truncate_log_at_all [simp]: "length (nd_log n) \<le> p \<Longrightarrow> truncate_log_at p n = n"
  by (cases n) (simp add: truncate_log_at_def)

text \<open>The log after an append under the invariant: unchanged, or cut at the index and extended.\<close>

lemma append_entry_cases:
  assumes "node_inv n" "append_pre e n"
  obtains "append_entry e n = n"
    "\<exists>x \<in> set (nd_log n). idx x = idx e \<and> (trm x = trm e \<or> idx e \<le> nd_commit_index n)"
  | p where "append_entry e n = push_entry e (truncate_log_at p n)" "p \<le> length (nd_log n)"
    "nd_commit_index n < idx e" "nd_log n \<noteq> [] \<Longrightarrow> idx e = idx (hd (nd_log n)) + p"
proof (cases "nd_log n = []")
  case True
  then have "append_entry e n = push_entry e (truncate_log_at 0 n)"
    by (simp add: append_entry_def)
  then show thesis using True assms(2) that(2) [of 0] by (simp add: append_pre_def)
next
  case False
  let ?k = "idx (hd (nd_log n))"
  have c: "contiguous_from ?k (nd_log n)" and k: "?k \<le> nd_commit_index n + 1"
    using assms(1) False by (auto simp: node_inv_def)
  have last: "idx (last (nd_log n)) + 1 = ?k + length (nd_log n)"
    using contiguous_from_last [OF c False] .
  have pre: "?k \<le> idx e" "idx e \<le> idx (last (nd_log n)) + 1"
    using assms(2) False by (auto simp: append_pre_def)
  show thesis
  proof (cases "idx (last (nd_log n)) < idx e")
    case True
    then have "append_entry e n = push_entry e (truncate_log_at (length (nd_log n)) n)"
      by (simp add: append_entry_def)
    moreover have "idx e = ?k + length (nd_log n)" "nd_commit_index n < idx e"
      using True pre last assms(2) False by (auto simp: append_pre_def)
    ultimately show thesis using that(2) [of "length (nd_log n)"] by blast
  next
    case nt: False
    define p where "p = idx e - ?k"
    have p: "p < length (nd_log n)" "idx e = ?k + p" using nt pre last by (auto simp: p_def)
    have pos: "log_position n (idx e) = Some p"
      using log_position_contiguous [OF c pre(1)] p by simp
    have "idx (nd_log n ! p) = idx e" using contiguous_from_nth [OF c p(1)] p(2) by simp
    then have mem: "\<exists>x \<in> set (nd_log n). idx x = idx e \<and> trm x = trm (nd_log n ! p)"
      using p(1) nth_mem by blast
    show thesis
    proof (cases "trm (nd_log n ! p) = trm e \<or> idx e \<le> nd_commit_index n")
      case True
      then have "append_entry e n = n" using nt False pos by (auto simp: append_entry_def)
      moreover have "\<exists>x \<in> set (nd_log n). idx x = idx e \<and> (trm x = trm e \<or> idx e \<le> nd_commit_index n)"
        using True mem by metis
      ultimately show thesis by (rule that(1))
    next
      case nw: False
      then show thesis using that(2) [of p] nt False pos p by (auto simp: append_entry_def)
    qed
  qed
qed

section \<open>Preservation\<close>

definition cut_and_push :: "nat \<Rightarrow> log_entry \<Rightarrow> node \<Rightarrow> node" where
  "cut_and_push p e n = push_entry e (truncate_log_at p n)"

lemma cut_and_push_simps [simp]:
  "nd_log (cut_and_push p e n) = take p (nd_log n) @ [e]"
  "nd_installed_snapshot (cut_and_push p e n) = nd_installed_snapshot n"
  "nd_replica_role (cut_and_push p e n) = nd_replica_role n"
  "nd_witness_ack_index (cut_and_push p e n) = nd_witness_ack_index n"
  "nd_commit_index (cut_and_push p e n) = nd_commit_index n"
  "nd_applied_index (cut_and_push p e n) = nd_applied_index n"
  "nd_safety_applied_index (cut_and_push p e n) = nd_safety_applied_index n"
  "nd_hard_state (cut_and_push p e n) = nd_hard_state n"
  "snapshot_index (cut_and_push p e n) = snapshot_index n"
  by (simp_all add: cut_and_push_def push_entry_def truncate_log_at_def snapshot_index_def Let_def)

lemma cut_and_push_bytes:
  assumes "nd_retained_log_bytes n = payload_bytes (nd_log n)"
    and "payload_bytes (nd_log n) + length (le_payload e) \<le> u64_max"
  shows "nd_retained_log_bytes (cut_and_push p e n) = payload_bytes (nd_log (cut_and_push p e n))"
  using assms payload_bytes_split [of "nd_log n" p]
  by (simp add: cut_and_push_def push_entry_def truncate_log_at_def Let_def sat_add_def)

lemma node_inv_cut_and_push:
  assumes inv: "node_inv n" and p: "p \<le> length (nd_log n)"
    and e: "nd_log n = [] \<Longrightarrow> idx e = nd_commit_index n + 1"
      "nd_log n \<noteq> [] \<Longrightarrow> idx e = idx (hd (nd_log n)) + p" "nd_commit_index n < idx e"
    and b: "payload_bytes (nd_log n) + length (le_payload e) \<le> u64_max"
    and w: "nd_replica_role n = WitnessRole \<Longrightarrow> idx e \<le> nd_witness_ack_index n"
  shows "node_inv (cut_and_push p e n)"
proof -
  let ?m = "cut_and_push p e n"
  obtain k where k: "contiguous_from k (nd_log n)" "snapshot_index n < k" "k \<le> nd_commit_index n + 1"
    "idx e = k + length (take p (nd_log n))" "nd_log n \<noteq> [] \<longrightarrow> k = idx (hd (nd_log n))"
  proof (cases "nd_log n = []")
    case True
    then show thesis using that [of "nd_commit_index n + 1"] e(1) inv by (simp add: node_inv_def)
  next
    case False
    then show thesis using that [of "idx (hd (nd_log n))"] e(2) p inv by (simp add: node_inv_def)
  qed
  have c: "contiguous_from k (nd_log ?m)" using k(1,4) by simp
  then have hd: "idx (hd (nd_log ?m)) = k" using contiguous_from_hd by fastforce
  have "nd_retained_log_bytes ?m = payload_bytes (nd_log ?m)"
    using cut_and_push_bytes [OF _ b] inv by (simp add: node_inv_def)
  moreover have "commit_held ?m"
  proof (cases "nd_replica_role n = WitnessRole \<or> nd_commit_index n = snapshot_index n")
    case True
    then show ?thesis using inv by (auto simp: commit_held_def node_inv_def)
  next
    case False
    then have "k \<le> nd_commit_index n" using inv k(5) by (auto simp: commit_held_def node_inv_def)
    then show ?thesis using False hd e(3) by (simp add: commit_held_def)
  qed
  moreover have "nd_replica_role ?m = WitnessRole \<longrightarrow> last_retained_index ?m \<le> nd_witness_ack_index ?m"
    using w by (simp add: last_retained_index_def)
  ultimately show ?thesis
    using c k(2,3) inv unfolding node_inv_def [of ?m] hd by (simp add: node_inv_def)
qed

lemma append_entry_inv:
  assumes "node_inv n" "append_pre e n" "nd_replica_role n = WitnessRole \<Longrightarrow> idx e \<le> nd_witness_ack_index n"
  shows "node_inv (append_entry e n)"
  using assms(1,2)
proof (cases rule: append_entry_cases)
  case 1
  then show ?thesis using assms(1) by simp
next
  case (2 p)
  then show ?thesis using assms node_inv_cut_and_push [OF assms(1) 2(2), of e]
    by (auto simp: cut_and_push_def append_pre_def)
qed

lemma truncate_log_from_shape:
  assumes "node_inv n"
  obtains "truncate_log_from i n = n"
  | p where "truncate_log_from i n = truncate_log_at p n" "p < length (nd_log n)"
    "nd_commit_index n < i" "idx (hd (nd_log n)) + p = max i (idx (hd (nd_log n)))"
proof (cases "i \<le> nd_commit_index n \<or> nd_log n = [] \<or> idx (last (nd_log n)) < i")
  case True
  then show thesis using that(1) by (auto simp: truncate_log_from_def log_position_at_or_after_def)
next
  case False
  let ?k = "idx (hd (nd_log n))" and ?p = "length (takeWhile (\<lambda>e. idx e < i) (nd_log n))"
  have c: "contiguous_from ?k (nd_log n)" using assms False by (auto simp: node_inv_def)
  have last: "idx (last (nd_log n)) + 1 = ?k + length (nd_log n)"
    using contiguous_from_last [OF c] False by blast
  have q: "0 < length (nd_log n)" using False by simp
  then have q: "i - ?k < length (nd_log n)" "0 < length (nd_log n)" using False last by linarith+
  have "?p = i - ?k"
  proof (rule length_takeWhile_prefix)
    show "idx (nd_log n ! j) < i" if "j < i - ?k" for j
      using contiguous_from_nth [OF c, of j] that q by linarith
    show "\<not> idx (nd_log n ! (i - ?k)) < i"
      using contiguous_from_nth [OF c q(1)] by linarith
  qed (use q in linarith)
  moreover have "truncate_log_from i n = truncate_log_at ?p n"
    using False partition_point_less [OF contiguous_from_sorted [OF c]]
    by (auto simp: truncate_log_from_def log_position_at_or_after_def)
  ultimately show thesis using that(2) [of ?p] q False by auto
qed

lemma truncate_log_at_simps [simp]:
  "nd_log (truncate_log_at p n) = take p (nd_log n)"
  "nd_installed_snapshot (truncate_log_at p n) = nd_installed_snapshot n"
  "nd_replica_role (truncate_log_at p n) = nd_replica_role n"
  "nd_witness_ack_index (truncate_log_at p n) = nd_witness_ack_index n"
  "nd_commit_index (truncate_log_at p n) = nd_commit_index n"
  "nd_applied_index (truncate_log_at p n) = nd_applied_index n"
  "nd_safety_applied_index (truncate_log_at p n) = nd_safety_applied_index n"
  "nd_hard_state (truncate_log_at p n) = nd_hard_state n"
  "snapshot_index (truncate_log_at p n) = snapshot_index n"
  by (simp_all add: truncate_log_at_def snapshot_index_def Let_def)

lemma truncate_log_from_inv:
  assumes "node_inv n"
  shows "node_inv (truncate_log_from i n)"
  using assms
proof (cases rule: truncate_log_from_shape [of n i])
  case (2 p)
  let ?k = "idx (hd (nd_log n))" and ?m = "truncate_log_at p n"
  have ne: "nd_log n \<noteq> []" using 2(2) by auto
  have c: "contiguous_from ?k (nd_log n)" "?k \<le> nd_commit_index n + 1" "snapshot_index n < ?k"
    using assms ne by (auto simp: node_inv_def)
  have bytes: "nd_retained_log_bytes ?m = payload_bytes (nd_log ?m)"
    using assms payload_bytes_split [of "nd_log n" p] by (simp add: truncate_log_at_def node_inv_def)
  have last: "?k + p = idx (last (nd_log ?m)) + 1" if "p \<noteq> 0"
    using contiguous_from_last [OF contiguous_from_take [OF c(1), of p]] 2(2) that ne by simp
  have "commit_held ?m"
  proof (cases "p = 0")
    case True
    then show ?thesis using assms c 2(3,4) by (auto simp: node_inv_def commit_held_def)
  next
    case False
    then have "nd_commit_index n \<le> idx (last (nd_log ?m))" using last [OF False] 2(3,4) by linarith
    then show ?thesis using assms False ne by (auto simp: node_inv_def commit_held_def hd_take)
  qed
  moreover have "nd_replica_role n = WitnessRole \<longrightarrow> last_retained_index ?m \<le> nd_witness_ack_index n"
    using assms last ne contiguous_from_last [OF c(1) ne] 2(2)
    by (cases "p = 0") (auto simp: node_inv_def last_retained_index_def)
  moreover have "contiguous_from (idx (hd (nd_log ?m))) (nd_log ?m)" "snapshot_index ?m < idx (hd (nd_log ?m))"
    "idx (hd (nd_log ?m)) \<le> nd_commit_index ?m + 1" if "nd_log ?m \<noteq> []"
    using c that ne by (auto simp: hd_take)
  ultimately show ?thesis
    unfolding 2(1) node_inv_def [of ?m] using assms bytes by (simp add: node_inv_def)
qed (use assms in simp)

subsection \<open>Cursors\<close>

lemma advance_commit_simps [simp]:
  "nd_log (advance_commit c n) = nd_log n"
  "nd_installed_snapshot (advance_commit c n) = nd_installed_snapshot n"
  "nd_replica_role (advance_commit c n) = nd_replica_role n"
  "nd_witness_ack_index (advance_commit c n) = nd_witness_ack_index n"
  "nd_retained_log_bytes (advance_commit c n) = nd_retained_log_bytes n"
  "nd_commit_index (advance_commit c n) = max (nd_commit_index n) (min c (match_index n))"
  "nd_rejected_apply_index (advance_commit c n) = nd_rejected_apply_index n"
  "nd_id (advance_commit c n) = nd_id n"
  "nd_raft_role (advance_commit c n) = nd_raft_role n"
  "nd_healthy (advance_commit c n) = nd_healthy n"
  "hs_current_term (nd_hard_state (advance_commit c n)) = hs_current_term (nd_hard_state n)"
  "hs_voted_for (nd_hard_state (advance_commit c n)) = hs_voted_for (nd_hard_state n)"
  by (simp_all add: advance_commit_def Let_def)

lemma advance_commit_index_simps [simp]:
  "snapshot_index (advance_commit c n) = snapshot_index n"
  "last_retained_index (advance_commit c n) = last_retained_index n"
  "match_index (advance_commit c n) = match_index n"
  by (simp_all add: snapshot_index_def last_retained_index_def match_index_def)

lemma advance_commit_cursors:
  assumes "nd_safety_applied_index n \<le> nd_applied_index n" "nd_applied_index n \<le> nd_commit_index n"
  shows "nd_safety_applied_index (advance_commit c n) \<le> nd_applied_index (advance_commit c n)"
    and "nd_applied_index (advance_commit c n) \<le> nd_commit_index (advance_commit c n)"
  using assms by (auto simp: advance_commit_def Let_def)

lemma match_index_beyond_snapshot:
  assumes "nd_replica_role n \<noteq> WitnessRole" "snapshot_index n < d" "d \<le> match_index n"
  shows "nd_log n \<noteq> [] \<and> d \<le> idx (last (nd_log n))"
proof -
  have "d \<le> last_retained_index n" using assms by (simp add: match_index_def)
  then show ?thesis using assms(2) by (auto simp: last_retained_index_def split: if_splits)
qed

lemma commit_held_advance:
  assumes "node_inv n" "nd_commit_index n \<le> d" "d \<le> match_index n"
    and m: "nd_commit_index m = d" "nd_log m = nd_log n" "nd_replica_role m = nd_replica_role n"
      "nd_witness_ack_index m = nd_witness_ack_index n" "snapshot_index m = snapshot_index n"
  shows "commit_held m"
proof (cases "nd_replica_role n = WitnessRole")
  case True
  then show ?thesis using assms(3) m by (simp add: commit_held_def match_index_def)
next
  case nw: False
  show ?thesis
  proof (cases "d = nd_commit_index n")
    case True
    then show ?thesis using assms(1) m by (simp add: node_inv_def commit_held_def)
  next
    case False
    then have "nd_log n \<noteq> [] \<and> d \<le> idx (last (nd_log n))"
      using match_index_beyond_snapshot [OF nw _ assms(3)] assms(1,2) by (simp add: node_inv_def)
    moreover from this have "idx (hd (nd_log n)) \<le> nd_commit_index n + 1"
      using assms(1) by (simp add: node_inv_def)
    ultimately show ?thesis using nw m False assms(2) by (simp add: commit_held_def)
  qed
qed

lemma advance_commit_held:
  assumes "node_inv n"
  shows "commit_held (advance_commit c n)"
  by (rule commit_held_advance [OF assms, of "nd_commit_index (advance_commit c n)"])
    (use node_inv_commit_le_match [OF assms] in simp_all)

lemma advance_commit_inv:
  assumes "node_inv n"
  shows "node_inv (advance_commit c n)"
  using assms advance_commit_cursors [of n c] advance_commit_held [OF assms, of c]
  unfolding node_inv_def by fastforce

lemma acknowledge_witness_index_inv: "node_inv n \<Longrightarrow> node_inv (acknowledge_witness_index i n)"
  by (auto simp: node_inv_def acknowledge_witness_index_def commit_held_def snapshot_index_def
      last_retained_index_def)

lemma append_witness_entry_inv:
  assumes "node_inv n" "append_pre e n" "nd_replica_role n = WitnessRole"
  shows "node_inv (append_witness_entry e keep n)"
proof -
  let ?m = "acknowledge_witness_index (idx e) n"
  have "nd_log ?m = nd_log n" "nd_commit_index ?m = nd_commit_index n"
    by (simp_all add: acknowledge_witness_index_def)
  then show ?thesis
    unfolding append_witness_entry_def Let_def using assms
    by (intro append_entry_inv acknowledge_witness_index_inv)
      (auto simp: append_pre_def acknowledge_witness_index_def)
qed

subsection \<open>Discarding a prefix\<close>

lemma length_takeWhile_contiguous:
  assumes "contiguous_from k es"
  shows "length (takeWhile (\<lambda>e. idx e \<le> i) es) = min (Suc i - k) (length es)"
proof (rule length_takeWhile_prefix)
  show "idx (es ! j) \<le> i" if "j < min (Suc i - k) (length es)" for j
    using that contiguous_from_nth [OF assms, of j] by auto
  show "\<not> idx (es ! min (Suc i - k) (length es)) \<le> i" if "min (Suc i - k) (length es) < length es"
    using that contiguous_from_nth [OF assms, of "Suc i - k"] by (auto simp: min_def split: if_splits)
qed simp

lemma discard_log_through_simps [simp]:
  "nd_installed_snapshot (snd (discard_log_through i n)) = nd_installed_snapshot n"
  "nd_replica_role (snd (discard_log_through i n)) = nd_replica_role n"
  "nd_witness_ack_index (snd (discard_log_through i n)) = nd_witness_ack_index n"
  "nd_commit_index (snd (discard_log_through i n)) = nd_commit_index n"
  "nd_applied_index (snd (discard_log_through i n)) = nd_applied_index n"
  "nd_safety_applied_index (snd (discard_log_through i n)) = nd_safety_applied_index n"
  "nd_rejected_apply_index (snd (discard_log_through i n)) = nd_rejected_apply_index n"
  "nd_hard_state (snd (discard_log_through i n)) = nd_hard_state n"
  "nd_log (snd (discard_log_through i n)) = drop (partition_point (\<lambda>e. idx e \<le> i) (nd_log n)) (nd_log n)"
  "fst (discard_log_through i n) = partition_point (\<lambda>e. idx e \<le> i) (nd_log n)"
  by (simp_all add: discard_log_through_def Let_def)

lemma discard_bytes:
  assumes "nd_retained_log_bytes n = payload_bytes (nd_log n)"
  shows "nd_retained_log_bytes (snd (discard_log_through i n))
       = payload_bytes (nd_log (snd (discard_log_through i n)))"
proof -
  have "payload_bytes (nd_log n) - payload_bytes (take c (nd_log n)) = payload_bytes (drop c (nd_log n))" for c
    using payload_bytes_split [of "nd_log n" c] by linarith
  then show ?thesis using assms by (simp add: discard_log_through_def Let_def)
qed

text \<open>What is left after discarding: nothing, or the entries above the index.\<close>

lemma discard_log_shape:
  fixes n :: node and i :: log_index
  assumes "nd_log n \<noteq> [] \<longrightarrow> contiguous_from (idx (hd (nd_log n))) (nd_log n)"
  defines "m \<equiv> snd (discard_log_through i n)"
  obtains "nd_log m = []" "nd_log n = [] \<or> idx (last (nd_log n)) \<le> i"
  | "nd_log m \<noteq> []" "nd_log n \<noteq> []" "idx (hd (nd_log m)) = max (Suc i) (idx (hd (nd_log n)))"
    "contiguous_from (idx (hd (nd_log m))) (nd_log m)" "last (nd_log m) = last (nd_log n)"
proof (cases "nd_log n = []")
  case True
  then show thesis using that(1) by (simp add: m_def)
next
  case False
  let ?k = "idx (hd (nd_log n))"
  have c: "contiguous_from ?k (nd_log n)" using assms(1) False by blast
  have log: "nd_log m = drop (min (Suc i - ?k) (length (nd_log n))) (nd_log n)"
    using partition_point_le [OF contiguous_from_sorted [OF c]] length_takeWhile_contiguous [OF c]
    by (simp add: m_def)
  have last: "idx (last (nd_log n)) + 1 = ?k + length (nd_log n)" using contiguous_from_last [OF c False] .
  show thesis
  proof (cases "Suc i - ?k < length (nd_log n)")
    case True
    have "contiguous_from (?k + (Suc i - ?k)) (nd_log m)"
      using True contiguous_from_drop [OF c, of "Suc i - ?k"] by (simp add: log)
    moreover have "nd_log m \<noteq> []" "last (nd_log m) = last (nd_log n)"
      using True by (auto simp: log)
    moreover have "?k + (Suc i - ?k) = max (Suc i) ?k" by linarith
    ultimately show thesis using that(2) False contiguous_from_hd by metis
  next
    case nle: False
    have "0 < length (nd_log n)" using False by simp
    then have "idx (last (nd_log n)) \<le> i" using nle last by linarith
    then show thesis using that(1) nle by (simp add: log)
  qed
qed

lemma discard_inv:
  assumes "node_inv n" "nd_replica_role n = WitnessRole \<or> i < nd_commit_index n \<or> i \<le> snapshot_index n"
    and "i \<le> nd_commit_index n"
  shows "node_inv (snd (discard_log_through i n))"
proof -
  let ?m = "snd (discard_log_through i n)"
  have snap: "snapshot_index ?m = snapshot_index n" by (simp add: snapshot_index_def)
  have bytes: "nd_retained_log_bytes ?m = payload_bytes (nd_log ?m)"
    using assms(1) by (intro discard_bytes) (simp add: node_inv_def)
  from assms(1) obtain inv: "nd_log n \<noteq> [] \<longrightarrow> contiguous_from (idx (hd (nd_log n))) (nd_log n)"
    "nd_log n \<noteq> [] \<longrightarrow> snapshot_index n < idx (hd (nd_log n))"
    "nd_log n \<noteq> [] \<longrightarrow> idx (hd (nd_log n)) \<le> nd_commit_index n + 1"
    "commit_held n" "snapshot_index n \<le> nd_commit_index n" by (rule node_invE)
  from inv(1) show ?thesis
  proof (cases rule: discard_log_shape [of n i])
    case 1
    from inv(4) have "commit_held ?m"
    proof (cases rule: commit_held_cases)
      case retained
      then show ?thesis using 1(2) assms(2) inv(2) by linarith
    qed (auto simp: commit_held_def snap)
    then show ?thesis using 1(1) assms(1) snap bytes
      unfolding node_inv_def [of ?m] by (simp add: node_inv_def last_retained_index_def)
  next
    case 2
    from inv(4) have "commit_held ?m"
    proof (cases rule: commit_held_cases)
      case retained
      then have "idx (hd (nd_log ?m)) \<le> nd_commit_index n" unfolding 2(3)
        using assms(2) inv(2) by auto
      then show ?thesis using 2(1,5) retained by (simp add: commit_held_def)
    qed (auto simp: commit_held_def snap)
    moreover have "last_retained_index ?m = last_retained_index n"
      using 2 by (simp add: last_retained_index_def)
    moreover have "snapshot_index n < idx (hd (nd_log ?m))" "idx (hd (nd_log ?m)) \<le> nd_commit_index n + 1"
      unfolding 2(3) using 2(2) inv assms(3) by auto
    ultimately show ?thesis using 2 assms(1) snap bytes
      unfolding node_inv_def [of ?m] by (simp add: node_inv_def)
  qed
qed

definition compact_pre :: "log_index \<Rightarrow> node \<Rightarrow> bool" where
  "compact_pre i n \<longleftrightarrow>
     nd_replica_role n = WitnessRole \<or> i < nd_commit_index n \<or> i \<le> snapshot_index n"

lemma compact_log_through_inv:
  assumes "node_inv n" "compact_pre i n"
  shows "node_inv (snd (compact_log_through i n))"
  unfolding compact_log_through_def Let_def using assms
  by (intro discard_inv) (auto simp: compact_pre_def node_inv_def)

lemma install_snapshot_log:
  "nd_log (install_snapshot s n) =
     drop (partition_point (\<lambda>e. idx e \<le> li_index (sm_last_log_id (rs_meta s))) (nd_log n)) (nd_log n)"
  by (simp add: install_snapshot_def Let_def split: option.split)

lemma install_snapshot_simps [simp]:
  "nd_replica_role (install_snapshot s n) = nd_replica_role n"
  "nd_commit_index (install_snapshot s n) = max (nd_commit_index n) (li_index (sm_last_log_id (rs_meta s)))"
  "snapshot_index (install_snapshot s n) = li_index (sm_last_log_id (rs_meta s))"
  "nd_retained_log_bytes (install_snapshot s n) = nd_retained_log_bytes
     (snd (discard_log_through (li_index (sm_last_log_id (rs_meta s))) n))"
  by (simp_all add: install_snapshot_def Let_def snapshot_index_def discard_log_through_def split: option.split)

lemma install_snapshot_cursors:
  assumes "nd_safety_applied_index n \<le> nd_applied_index n" "nd_applied_index n \<le> nd_commit_index n"
  shows "nd_safety_applied_index (install_snapshot s n) \<le> nd_applied_index (install_snapshot s n)"
    and "nd_applied_index (install_snapshot s n) \<le> nd_commit_index (install_snapshot s n)"
  using assms by (auto simp: install_snapshot_def Let_def split: option.split)

lemma install_snapshot_ack:
  "nd_replica_role n = WitnessRole \<Longrightarrow> nd_witness_ack_index (install_snapshot s n)
     = max (nd_witness_ack_index n) (li_index (sm_last_log_id (rs_meta s)))"
  by (simp add: install_snapshot_def Let_def split: option.split)

definition install_pre :: "raft_snapshot \<Rightarrow> node \<Rightarrow> bool" where
  "install_pre s n \<longleftrightarrow> snapshot_index n \<le> li_index (sm_last_log_id (rs_meta s))"

lemma install_snapshot_inv:
  assumes "node_inv n" "install_pre s n"
  shows "node_inv (install_snapshot s n)"
proof -
  let ?i = "li_index (sm_last_log_id (rs_meta s))" and ?m = "install_snapshot s n"
  let ?d = "snd (discard_log_through ?i n)"
  have log: "nd_log ?m = nd_log ?d" by (simp add: install_snapshot_log)
  have bytes: "nd_retained_log_bytes ?m = payload_bytes (nd_log ?m)"
    using assms(1) discard_bytes [of n ?i] by (simp add: node_inv_def log)
  have curs: "nd_safety_applied_index ?m \<le> nd_applied_index ?m" "nd_applied_index ?m \<le> nd_commit_index ?m"
    using assms(1) by (auto simp: node_inv_def intro!: install_snapshot_cursors simp del: install_snapshot_simps)
  from assms(1) obtain inv: "nd_log n \<noteq> [] \<longrightarrow> contiguous_from (idx (hd (nd_log n))) (nd_log n)"
    "nd_log n \<noteq> [] \<longrightarrow> idx (hd (nd_log n)) \<le> nd_commit_index n + 1"
    "commit_held n" "nd_replica_role n = WitnessRole \<longrightarrow> last_retained_index n \<le> nd_witness_ack_index n"
    by (rule node_invE)
  have snap: "snapshot_index n \<le> ?i" using assms(2) by (simp add: install_pre_def)
  from inv(1) show ?thesis
  proof (cases rule: discard_log_shape [of n ?i])
    case 1
    have nil: "nd_log ?m = []" using 1(1) log by simp
    from inv(3) have "commit_held ?m"
    proof (cases rule: commit_held_cases)
      case retained
      then have "nd_commit_index n \<le> ?i" using 1(2) by linarith
      then show ?thesis using retained by (simp add: commit_held_def)
    qed (use snap in \<open>auto simp: commit_held_def install_snapshot_ack\<close>)
    then show ?thesis using curs bytes nil unfolding node_inv_def [of ?m]
      by (simp add: last_retained_index_def)
  next
    case 2
    note log' = 2 [folded log]
    from inv(3) have "commit_held ?m"
    proof (cases rule: commit_held_cases)
      case retained
      show ?thesis
      proof (cases "nd_commit_index n \<le> ?i")
        case False
        then have "idx (hd (nd_log ?m)) \<le> nd_commit_index n" unfolding log'(3) using retained by simp
        then show ?thesis using log'(1,5) retained False by (simp add: commit_held_def)
      qed (use retained in \<open>simp add: commit_held_def\<close>)
    qed (use snap in \<open>auto simp: commit_held_def install_snapshot_ack\<close>)
    moreover have "last_retained_index ?m = last_retained_index n"
      using log'(1,2,5) by (simp add: last_retained_index_def)
    moreover have "idx (hd (nd_log ?m)) \<le> nd_commit_index ?m + 1" "snapshot_index ?m < idx (hd (nd_log ?m))"
      unfolding log'(3) using inv(2) 2(2) by auto
    ultimately show ?thesis using log'(4) curs bytes inv(4) unfolding node_inv_def [of ?m]
      by (simp add: install_snapshot_ack le_max_iff_disj)
  qed
qed

section \<open>The contract of a log operation\<close>

text \<open>
  \<open>no_rewrite n m\<close>: an entry \<open>m\<close> retains at or below the commit index of \<open>n\<close> is the entry \<open>n\<close>
  had there, and the commit index did not move back. A family of operations with preconditions
  is safe when each keeps the invariant and rewrites no committed entry; sequences of safe
  operations are then safe too.
\<close>

definition no_rewrite :: "node \<Rightarrow> node \<Rightarrow> bool" where
  "no_rewrite n m \<longleftrightarrow> nd_commit_index n \<le> nd_commit_index m
     \<and> (\<forall>e \<in> set (nd_log m). idx e \<le> nd_commit_index n \<longrightarrow> e \<in> set (nd_log n))"

lemma no_rewrite_refl [simp]: "no_rewrite n n"
  by (simp add: no_rewrite_def)

lemma no_rewrite_trans: "no_rewrite a b \<Longrightarrow> no_rewrite b c \<Longrightarrow> no_rewrite a c"
  unfolding no_rewrite_def by (meson le_trans)

locale safe_log_op =
  fixes exec :: "'c \<Rightarrow> node \<Rightarrow> node"
    and pre :: "'c \<Rightarrow> node \<Rightarrow> bool"
  assumes exec_inv: "node_inv n \<Longrightarrow> pre c n \<Longrightarrow> node_inv (exec c n)"
    and exec_no_rewrite: "node_inv n \<Longrightarrow> pre c n \<Longrightarrow> no_rewrite n (exec c n)"
begin

primrec run :: "'c list \<Rightarrow> node \<Rightarrow> node" where
  "run [] n = n"
| "run (c # cs) n = run cs (exec c n)"

primrec enabled :: "'c list \<Rightarrow> node \<Rightarrow> bool" where
  "enabled [] n = True"
| "enabled (c # cs) n = (pre c n \<and> enabled cs (exec c n))"

lemma run_append: "run (as @ bs) n = run bs (run as n)"
  by (induction as arbitrary: n) auto

lemma enabled_append: "enabled (as @ bs) n \<longleftrightarrow> enabled as n \<and> enabled bs (run as n)"
  by (induction as arbitrary: n) auto

lemma run_safe:
  assumes "node_inv n" "enabled cs n"
  shows "node_inv (run cs n) \<and> no_rewrite n (run cs n)"
  using assms
proof (induction cs arbitrary: n)
  case (Cons c cs)
  then have "node_inv (exec c n)" "no_rewrite n (exec c n)"
    using exec_inv exec_no_rewrite by auto
  with Cons.IH [of "exec c n"] Cons.prems(2) show ?case using no_rewrite_trans by auto
qed simp

end

text \<open>The operations of a replica as one command type.\<close>

datatype node_cmd =
    CAppend log_entry
  | CAppendWitness log_entry bool
  | CTruncateFrom log_index
  | CAdvanceCommit log_index
  | CAcknowledge log_index
  | CInstallSnapshot raft_snapshot
  | CCompact log_index

fun node_exec :: "node_cmd \<Rightarrow> node \<Rightarrow> node" where
  "node_exec (CAppend e) n = append_entry e n"
| "node_exec (CAppendWitness e keep) n = append_witness_entry e keep n"
| "node_exec (CTruncateFrom i) n = truncate_log_from i n"
| "node_exec (CAdvanceCommit i) n = advance_commit i n"
| "node_exec (CAcknowledge i) n = acknowledge_witness_index i n"
| "node_exec (CInstallSnapshot s) n = install_snapshot s n"
| "node_exec (CCompact i) n = snd (compact_log_through i n)"

fun node_pre :: "node_cmd \<Rightarrow> node \<Rightarrow> bool" where
  "node_pre (CAppend e) n = (append_pre e n \<and> nd_replica_role n \<noteq> WitnessRole)"
| "node_pre (CAppendWitness e keep) n = (append_pre e n \<and> nd_replica_role n = WitnessRole)"
| "node_pre (CTruncateFrom i) n = True"
| "node_pre (CAdvanceCommit i) n = True"
| "node_pre (CAcknowledge i) n = True"
| "node_pre (CInstallSnapshot s) n = install_pre s n"
| "node_pre (CCompact i) n = compact_pre i n"

lemma node_exec_inv: "node_inv n \<Longrightarrow> node_pre c n \<Longrightarrow> node_inv (node_exec c n)"
  by (cases c) (auto intro: append_entry_inv append_witness_entry_inv truncate_log_from_inv
      advance_commit_inv acknowledge_witness_index_inv install_snapshot_inv compact_log_through_inv)

lemma append_entry_no_rewrite:
  assumes "node_inv n" "append_pre e n"
  shows "no_rewrite n (append_entry e n)"
  using assms
proof (cases rule: append_entry_cases)
  case (2 p)
  then show ?thesis
    unfolding 2(1) cut_and_push_def [symmetric] no_rewrite_def by (auto dest: in_set_takeD)
qed simp

lemma append_witness_entry_no_rewrite:
  assumes "node_inv n" "append_pre e n"
  shows "no_rewrite n (append_witness_entry e keep n)"
proof -
  let ?m = "acknowledge_witness_index (idx e) n"
  let ?e = "\<lparr>le_log_id = le_log_id e, le_payload = (if keep then le_payload e else []), le_is_command = False\<rparr>"
  have "nd_log ?m = nd_log n" "nd_commit_index ?m = nd_commit_index n"
    by (simp_all add: acknowledge_witness_index_def)
  moreover from this have "no_rewrite ?m (append_entry ?e ?m)"
    using assms by (intro append_entry_no_rewrite acknowledge_witness_index_inv) (auto simp: append_pre_def)
  ultimately show ?thesis by (simp add: append_witness_entry_def no_rewrite_def)
qed

lemma truncate_log_from_no_rewrite: "no_rewrite n (truncate_log_from i n)"
  by (auto simp: truncate_log_from_def no_rewrite_def dest: in_set_takeD split: option.split)

lemma drop_no_rewrite:
  "nd_commit_index n \<le> nd_commit_index m \<Longrightarrow> nd_log m = drop p (nd_log n) \<Longrightarrow> no_rewrite n m"
  by (auto simp: no_rewrite_def dest: in_set_dropD)

lemma node_exec_no_rewrite:
  assumes "node_inv n" "node_pre c n"
  shows "no_rewrite n (node_exec c n)"
proof (cases c)
  case (CAdvanceCommit i)
  then show ?thesis by (simp add: no_rewrite_def)
next
  case (CAcknowledge i)
  then show ?thesis by (simp add: no_rewrite_def acknowledge_witness_index_def)
next
  case (CInstallSnapshot s)
  then show ?thesis by (auto intro!: drop_no_rewrite simp: install_snapshot_log)
next
  case (CCompact i)
  then show ?thesis by (auto intro!: drop_no_rewrite simp: compact_log_through_def Let_def)
qed (use assms in \<open>auto intro: append_entry_no_rewrite append_witness_entry_no_rewrite
    truncate_log_from_no_rewrite\<close>)

interpretation node_ops: safe_log_op node_exec node_pre
  by unfold_locales (auto intro: node_exec_inv node_exec_no_rewrite)

section \<open>Terms along the log\<close>

lemma log_term_at_above_snapshot:
  assumes "node_inv n" "snapshot_index n < i"
  shows "log_term_at n i = map_option (\<lambda>p. trm (nd_log n ! p)) (log_position n i)"
  using assms by (auto simp: log_term_at_def snapshot_index_def split: option.splits)

lemma log_term_at_mem:
  assumes "node_inv n" "snapshot_index n < i"
  shows "log_term_at n i = Some t \<longleftrightarrow> (\<exists>e \<in> set (nd_log n). idx e = i \<and> trm e = t)"
proof -
  have srt: "log_sorted (nd_log n)" by (rule node_inv_sorted [OF assms(1)])
  have "log_term_at n i = Some t \<longleftrightarrow> (\<exists>p. log_position n i = Some p \<and> trm (nd_log n ! p) = t)"
    unfolding log_term_at_above_snapshot [OF assms] by auto
  also have "\<dots> \<longleftrightarrow> (\<exists>p < length (nd_log n). idx (nd_log n ! p) = i \<and> trm (nd_log n ! p) = t)"
    unfolding log_position_Some [OF srt] by blast
  finally show ?thesis by (auto simp: in_set_conv_nth Bex_def)
qed

text \<open>Between the commit index and the end of the log every index has a term.\<close>

lemma log_term_at_tail:
  assumes "node_inv n" "nd_replica_role n \<noteq> WitnessRole" "nd_commit_index n < i" "i \<le> match_index n"
  shows "log_term_at n i \<noteq> None"
proof -
  have snap: "snapshot_index n < i" using assms(1,3) by (auto simp: node_inv_def)
  have last: "nd_log n \<noteq> [] \<and> i \<le> idx (last (nd_log n))"
    by (rule match_index_beyond_snapshot [OF assms(2) snap assms(4)])
  then have c: "contiguous_from (idx (hd (nd_log n))) (nd_log n)" "idx (hd (nd_log n)) \<le> nd_commit_index n + 1"
    using assms(1) by (auto simp: node_inv_def)
  then have "\<exists>e \<in> set (nd_log n). idx e = i"
    unfolding contiguous_from_mem [OF c(1)] using contiguous_from_last [OF c(1)] last assms(3) by auto
  then show ?thesis using log_term_at_mem [OF assms(1) snap] by auto
qed

lemma conflict_scan_spec:
  assumes "nd_commit_index n \<le> i" "i < u64_max"
  shows "nd_commit_index n < conflict_scan n t i" (is ?A)
    and "conflict_scan n t i \<le> i + 1" (is ?B)
    and "\<And>j. conflict_scan n t i \<le> j \<Longrightarrow> j \<le> i \<Longrightarrow> log_term_at n j = Some t" (is "\<And>j. ?C1 j \<Longrightarrow> ?C2 j \<Longrightarrow> ?C j")
    and "conflict_scan n t i = nd_commit_index n + 1 \<or> log_term_at n (conflict_scan n t i - 1) \<noteq> Some t" (is ?D)
proof -
  have "?A \<and> ?B \<and> (\<forall>j. ?C1 j \<longrightarrow> ?C2 j \<longrightarrow> ?C j) \<and> ?D"
    using assms
  proof (induction i rule: less_induct)
    case (less i)
    show ?case
    proof (cases "nd_commit_index n < i \<and> log_term_at n i = Some t")
      case True
      then have eq: "conflict_scan n t i = conflict_scan n t (i - 1)"
        by (subst conflict_scan.simps) simp
      have ih: "nd_commit_index n < conflict_scan n t (i - 1) \<and> conflict_scan n t (i - 1) \<le> i - 1 + 1
        \<and> (\<forall>j. conflict_scan n t (i - 1) \<le> j \<longrightarrow> j \<le> i - 1 \<longrightarrow> log_term_at n j = Some t)
        \<and> (conflict_scan n t (i - 1) = nd_commit_index n + 1
           \<or> log_term_at n (conflict_scan n t (i - 1) - 1) \<noteq> Some t)"
        by (rule less.IH) (use True less.prems in auto)
      have "log_term_at n j = Some t" if "conflict_scan n t (i - 1) \<le> j" "j \<le> i" for j
        using ih that True by (cases "j = i") auto
      with ih True show ?thesis unfolding eq by auto
    next
      case False
      then have "conflict_scan n t i = i + 1"
        using less.prems by (subst conflict_scan.simps) auto
      with False less.prems show ?thesis by auto
    qed
  qed
  then show ?A ?B "\<And>j. ?C1 j \<Longrightarrow> ?C2 j \<Longrightarrow> ?C j" ?D by auto
qed

section \<open>Properties\<close>

definition sample_log_entry :: "nat \<Rightarrow> nat \<Rightarrow> log_entry" where
  "sample_log_entry t i = \<lparr>le_log_id = \<lparr>li_term = t, li_index = i\<rparr>, le_payload = [1, 2], le_is_command = True\<rparr>"

definition sample_cmds :: "node_cmd list" where
  "sample_cmds = [CAppend (sample_log_entry 1 1), CAppend (sample_log_entry 1 2), CAppend (sample_log_entry 1 3),
     CAdvanceCommit 2, CAppend (sample_log_entry 2 3)]"

definition sample_node :: node where
  "sample_node = fold node_exec sample_cmds (node_new 1 VoterRole False)"

lemma sample_cmds_enabled: "node_ops.enabled sample_cmds (node_new 1 VoterRole False)"
  unfolding sample_cmds_def node_ops.enabled.simps by code_simp

lemma sample_node_run: "node_ops.run sample_cmds (node_new 1 VoterRole False) = sample_node"
  unfolding sample_cmds_def node_ops.run.simps sample_node_def by simp

lemma sample_node_inv: "node_inv sample_node"
  using node_ops.run_safe [OF node_inv_new sample_cmds_enabled] unfolding sample_node_run by blast

text \<open>
  C1: Whatever sequence of appends, truncations, commit advances, witness acknowledgements,
  snapshot installs and compactions a fresh replica performs (each under its precondition), the
  replica invariant holds at the end, and between any two points of the sequence no entry at or
  below the commit index of the earlier point is replaced and the commit index never goes back.
\<close>

theorem node_history_safe:
  assumes "node_ops.enabled (as @ bs) (node_new i role ap)"
  defines "n \<equiv> node_ops.run as (node_new i role ap)"
    and "m \<equiv> node_ops.run (as @ bs) (node_new i role ap)"
  shows "node_inv m \<and> nd_commit_index n \<le> nd_commit_index m
    \<and> (\<forall>e \<in> set (nd_log m). idx e \<le> nd_commit_index n \<longrightarrow> e \<in> set (nd_log n))"
proof -
  have e: "node_ops.enabled as (node_new i role ap)" "node_ops.enabled bs n"
    using assms(1) by (simp_all add: node_ops.enabled_append n_def)
  have "node_inv n" using node_ops.run_safe [OF node_inv_new e(1)] by (simp add: n_def)
  then have "node_inv m \<and> no_rewrite n m"
    using node_ops.run_safe [OF _ e(2)] by (simp add: m_def n_def node_ops.run_append)
  then show ?thesis by (simp add: no_rewrite_def)
qed

theorem node_history_safe_witness:
  "node_inv (node_ops.run sample_cmds (node_new 1 VoterRole False))
   \<and> nd_commit_index (node_ops.run (take 4 sample_cmds) (node_new 1 VoterRole False)) = 2
   \<and> nd_log (node_ops.run sample_cmds (node_new 1 VoterRole False))
     = [sample_log_entry 1 1, sample_log_entry 1 2, sample_log_entry 2 3]"
proof -
  have split: "take 4 sample_cmds @ drop 4 sample_cmds = sample_cmds" by simp
  have "nd_commit_index (node_ops.run (take 4 sample_cmds) (node_new 1 VoterRole False)) = 2"
    unfolding sample_cmds_def by (simp only: take_Cons_numeral numeral_eq_Suc pred_numeral_simps take_Suc_Cons take_0
        node_ops.run.simps arith_simps BitM.simps) code_simp
  moreover have "nd_log (node_ops.run sample_cmds (node_new 1 VoterRole False))
     = [sample_log_entry 1 1, sample_log_entry 1 2, sample_log_entry 2 3]"
    unfolding sample_node_run by code_simp
  ultimately show ?thesis
    using node_history_safe [of "take 4 sample_cmds" "drop 4 sample_cmds" 1 VoterRole False] sample_cmds_enabled
    unfolding split by blast
qed

text \<open>
  C18: Appending an entry above the commit index: afterwards the replica holds that entry's term
  at its index, keeps every entry below it, and keeps an entry above it only when the entry was
  already there in the same term, so the append was a duplicate.
\<close>

theorem append_entry_effect:
  assumes "node_inv n" "append_pre e n" "nd_commit_index n < idx e"
    and "nd_replica_role n \<noteq> WitnessRole"
  shows "log_term_at (append_entry e n) (idx e) = Some (trm e)
    \<and> (\<forall>x. idx x < idx e \<longrightarrow> x \<in> set (nd_log (append_entry e n)) \<longleftrightarrow> x \<in> set (nd_log n))
    \<and> (\<forall>x \<in> set (nd_log (append_entry e n)). idx e < idx x \<longrightarrow> log_term_at n (idx e) = Some (trm e))"
proof -
  have inv: "node_inv (append_entry e n)" using append_entry_inv assms by blast
  from assms(1,2) show ?thesis
  proof (cases rule: append_entry_cases)
    case 1
    then have "\<exists>x \<in> set (nd_log n). idx x = idx e \<and> trm x = trm e" using assms(3) by auto
    moreover have "snapshot_index n < idx e" using assms(1,3) by (auto simp: node_inv_def)
    ultimately have "log_term_at n (idx e) = Some (trm e)" using log_term_at_mem [OF assms(1)] by blast
    then show ?thesis using 1(1) by simp
  next
    case (2 p)
    let ?m = "append_entry e n"
    have log: "nd_log ?m = take p (nd_log n) @ [e]" "snapshot_index ?m = snapshot_index n"
      unfolding 2(1) cut_and_push_def [symmetric] by simp_all
    then have snap: "snapshot_index ?m < idx e" using assms(1,3) by (auto simp: node_inv_def)
    have tm: "log_term_at ?m (idx e) = Some (trm e)"
      unfolding log_term_at_mem [OF inv snap] log(1) by auto
    have srt: "log_sorted (nd_log ?m)" by (rule node_inv_sorted [OF inv])
    have low: "idx x < idx e" if "x \<in> set (take p (nd_log n))" for x
      using srt that unfolding log(1) by auto
    have "x \<in> set (take p (nd_log n))" if x: "x \<in> set (nd_log n)" "idx x < idx e" for x
    proof -
      have ne: "nd_log n \<noteq> []" using x(1) by auto
      obtain q where q: "q < length (nd_log n)" "x = nd_log n ! q" using x(1) by (auto simp: in_set_conv_nth)
      have "idx x = idx (hd (nd_log n)) + q"
        using contiguous_from_nth [of "idx (hd (nd_log n))" "nd_log n" q] assms(1) ne q by (simp add: node_inv_def)
      then have "q < p" using x(2) 2(4) [OF ne] by simp
      then show ?thesis using q by (auto simp: in_set_conv_nth intro!: exI [of _ q])
    qed
    moreover have "\<not> idx e < idx x" if "x \<in> set (nd_log ?m)" for x using low [of x] that log(1) by auto
    ultimately show ?thesis using tm low log(1) by (auto dest: in_set_takeD)
  qed
qed

theorem append_entry_effect_witness:
  "log_term_at (append_entry (sample_log_entry 3 3) sample_node) 3 = Some 3"
proof -
  have "append_pre (sample_log_entry 3 3) sample_node" "nd_commit_index sample_node < idx (sample_log_entry 3 3)"
    "nd_replica_role sample_node \<noteq> WitnessRole"
    by code_simp+
  from append_entry_effect [OF sample_node_inv this] show ?thesis by (simp add: sample_log_entry_def)
qed

text \<open>
  C24: The conflict index a follower answers a mismatching append with lies above its commit
  index and at most at the rejected index; every entry from it up to the rejected index carries
  the rejected term; and it cannot be moved lower without leaving that term or the uncommitted
  part of the log. The scan always returns.
\<close>

theorem conflict_next_index_spec:
  assumes "node_inv n" "nd_replica_role n \<noteq> WitnessRole" "match_index n < u64_max"
    and "nd_commit_index n < prev" "prev \<le> match_index n"
  shows "nd_commit_index n < conflict_next_index n prev \<and> conflict_next_index n prev \<le> prev
    \<and> (\<forall>j. conflict_next_index n prev \<le> j \<longrightarrow> j \<le> prev \<longrightarrow> log_term_at n j = log_term_at n prev)
    \<and> (conflict_next_index n prev = nd_commit_index n + 1
       \<or> log_term_at n (conflict_next_index n prev - 1) \<noteq> log_term_at n prev)"
proof -
  obtain t where t: "log_term_at n prev = Some t" using log_term_at_tail [OF assms(1,2,4,5)] by auto
  have eq: "conflict_next_index n prev = conflict_scan n t (prev - 1)"
    using assms(4,5) t by (simp add: conflict_next_index_def Let_def conflict_scan.simps [of n t prev])
  have pre: "nd_commit_index n \<le> prev - 1" "prev - 1 < u64_max" using assms(3-5) by auto
  have "log_term_at n j = Some t" if "conflict_scan n t (prev - 1) \<le> j" "j \<le> prev" for j
    using conflict_scan_spec(3) [OF pre that(1)] that(2) t by (cases "j = prev") auto
  then show ?thesis
    using conflict_scan_spec(1,2,4) [OF pre, of t] assms(4) unfolding eq t by auto
qed

theorem conflict_next_index_spec_witness:
  "nd_commit_index sample_node < conflict_next_index sample_node 3 \<and> conflict_next_index sample_node 3 \<le> 3"
proof -
  have "nd_replica_role sample_node \<noteq> WitnessRole" "match_index sample_node < u64_max"
    "nd_commit_index sample_node < 3" "3 \<le> match_index sample_node"
    by code_simp+
  from conflict_next_index_spec [OF sample_node_inv this] show ?thesis by blast
qed

text \<open>
  C25: The election restriction. A candidate whose last log position passes the freshness test
  of a voter is at least as up to date as every entry that voter retains, when terms do not
  decrease along the voter's log.
\<close>

theorem fresh_candidate_covers_log:
  assumes "node_inv n" "nd_replica_role n = VoterRole" "sorted (map trm (nd_log n))"
    and "is_fresh_candidate_log n (Some c)" "e \<in> set (nd_log n)"
  shows "trm e < li_term c \<or> (trm e = li_term c \<and> idx e \<le> li_index c)"
proof -
  have ne: "nd_log n \<noteq> []" using assms(5) by auto
  let ?l = "last (nd_log n)"
  have c: "contiguous_from (idx (hd (nd_log n))) (nd_log n)" "snapshot_index n < idx (hd (nd_log n))"
    using assms(1) ne by (auto simp: node_inv_def)
  obtain q where q: "q < length (nd_log n)" "e = nd_log n ! q" using assms(5) by (auto simp: in_set_conv_nth)
  have le: "idx e \<le> idx ?l" "trm e \<le> trm ?l"
    using log_sorted_nth_le [OF contiguous_from_sorted [OF c(1)], of q "length (nd_log n) - 1"] q ne
      sorted_nth_mono [OF assms(3), of q "length (nd_log n) - 1"]
    by (auto simp: last_conv_nth)
  have snap: "snapshot_index n < idx ?l"
    using c contiguous_from_last [OF c(1) ne] ne by (cases "nd_log n") auto
  then have match: "match_index n = idx ?l"
    using assms(2) ne by (simp add: match_index_def last_retained_index_def)
  have "log_term_at n (idx ?l) = Some (trm ?l)"
    unfolding log_term_at_mem [OF assms(1) snap] using ne by auto
  then show ?thesis using assms(4) le unfolding is_fresh_candidate_log_def match by auto
qed

theorem fresh_candidate_covers_log_witness:
  "trm (sample_log_entry 1 2) < 2 \<or> (trm (sample_log_entry 1 2) = 2 \<and> idx (sample_log_entry 1 2) \<le> 3)"
proof -
  have "nd_replica_role sample_node = VoterRole" "sorted (map trm (nd_log sample_node))"
    "is_fresh_candidate_log sample_node (Some \<lparr>li_term = 2, li_index = 3\<rparr>)"
    "sample_log_entry 1 2 \<in> set (nd_log sample_node)"
    by code_simp+
  from fresh_candidate_covers_log [OF sample_node_inv this] show ?thesis by simp
qed

text \<open>
  Compacting a fully applied log that no snapshot covers leaves a replica that still reports
  its commit index but accounts for no log position at all: its match index is zero and it
  accepts the log of any candidate as fresh.
\<close>

theorem compaction_forgets_position:
  assumes "node_inv n" "nd_replica_role n = VoterRole" "nd_installed_snapshot n = None"
    and "nd_log n \<noteq> []" "idx (last (nd_log n)) \<le> nd_safety_applied_index n" "idx (last (nd_log n)) \<le> i"
  shows "nd_commit_index (snd (compact_log_through i n)) = idx (last (nd_log n))
    \<and> match_index (snd (compact_log_through i n)) = 0
    \<and> is_fresh_candidate_log (snd (compact_log_through i n)) c"
proof -
  let ?m = "snd (compact_log_through i n)" and ?j = "min i (nd_safety_applied_index n)"
  have m: "?m = snd (discard_log_through ?j n)"
    using assms(2) by (simp add: compact_log_through_def Let_def)
  have cont: "nd_log n \<noteq> [] \<longrightarrow> contiguous_from (idx (hd (nd_log n))) (nd_log n)"
    using assms(1) by (simp add: node_inv_def)
  from cont have nil: "nd_log ?m = []"
  proof (cases rule: discard_log_shape [of n ?j])
    case 2
    have "log_sorted (nd_log ?m)" unfolding m using contiguous_from_sorted [OF 2(4)] .
    moreover have "hd (nd_log ?m) \<in> set (nd_log ?m)" unfolding m using 2(1) by simp
    ultimately have "idx (hd (nd_log ?m)) < Suc (idx (last (nd_log n)))"
      unfolding m using log_sorted_last_less 2(5) by (metis lessI)
    then have False unfolding m 2(3) using assms(5,6) by linarith
    then show ?thesis ..
  qed (simp add: m)
  have snap: "nd_installed_snapshot ?m = None" unfolding m using assms(3) by simp
  have "nd_commit_index n \<le> idx (last (nd_log n))"
    using node_inv_commit_le_match [OF assms(1)] assms(2-4)
    by (simp add: match_index_def last_retained_index_def snapshot_index_def)
  then have "nd_commit_index n = idx (last (nd_log n))" using assms(1,5) by (auto simp: node_inv_def)
  moreover have "match_index ?m = 0"
    using nil snap assms(2) unfolding m by (simp add: match_index_def last_retained_index_def snapshot_index_def)
  moreover from this have "is_fresh_candidate_log ?m c"
    by (auto simp: is_fresh_candidate_log_def log_term_at_def split: option.split)
  ultimately show ?thesis unfolding m by simp
qed

theorem compaction_forgets_position_witness:
  "nd_commit_index (advance_commit 3 sample_node) = 3
   \<and> is_fresh_candidate_log (snd (compact_log_through 3 (advance_commit 3 sample_node))) None"
proof -
  have "nd_replica_role (advance_commit 3 sample_node) = VoterRole"
    "nd_installed_snapshot (advance_commit 3 sample_node) = None" "nd_log (advance_commit 3 sample_node) \<noteq> []"
    "idx (last (nd_log (advance_commit 3 sample_node))) \<le> nd_safety_applied_index (advance_commit 3 sample_node)"
    "idx (last (nd_log (advance_commit 3 sample_node))) \<le> 3"
    "nd_commit_index (advance_commit 3 sample_node) = 3"
    by code_simp+
  with compaction_forgets_position [OF advance_commit_inv [OF sample_node_inv]] show ?thesis by blast
qed

end
