(* ===== verification/MR_Log_Buffer.thy ===== *)
theory MR_Log_Buffer
  imports MR_Node
begin

text \<open>
  The in-memory log buffer of \<^verbatim>\<open>log_buffer.rs\<close>: a sentinel followed by the retained entries,
  with two cursors into it (\<^verbatim>\<open>flushing_offset\<close>, up to which storage has the entries, and
  \<^verbatim>\<open>waiting_offset\<close>, up to which they were handed to storage). The abstract specification is
  a base position and the list of entries after it.
\<close>

section \<open>State and operations\<close>

record log_buffer_flush =
  lf_entries :: "log_entry list"
  lf_first_index :: log_index
  lf_last_index :: log_index

record log_buffer_release =
  lr_released_entries :: "log_entry list"
  lr_released_until :: log_index

record log_buffer =
  lb_cache_memory_limit :: u64
  lb_initial_state :: log_id
  lb_flushing :: bool
  lb_flushing_offset :: nat
  lb_waiting_offset :: nat
  lb_log_buffer_bytes :: u64
  lb_entries :: "log_entry list"

definition entry_size :: "log_entry \<Rightarrow> nat" where
  "entry_size e = 24 + length (le_payload e)"

definition ratio :: "nat \<Rightarrow> nat" where
  "ratio v = sat_mul v 9 div 10"

definition lb_new :: "u64 \<Rightarrow> log_id \<Rightarrow> log_buffer" where
  "lb_new cache_memory_limit initial_state =
     (let dummy = \<lparr>le_log_id = initial_state, le_payload = [], le_is_command = False\<rparr>
      in \<lparr>lb_cache_memory_limit = max cache_memory_limit 1, lb_initial_state = initial_state,
          lb_flushing = False, lb_flushing_offset = 1, lb_waiting_offset = 1,
          lb_log_buffer_bytes = entry_size dummy, lb_entries = [dummy]\<rparr>)"

definition actual_first_index :: "log_buffer \<Rightarrow> log_index" where
  "actual_first_index b = li_index (lb_initial_state b)"

definition lb_last_index :: "log_buffer \<Rightarrow> log_index" where
  "lb_last_index b = actual_first_index b + length (lb_entries b) - 1"

definition lb_last_term :: "log_buffer \<Rightarrow> raft_term" where
  "lb_last_term b = trm (last (lb_entries b))"

definition lb_range :: "log_buffer \<Rightarrow> log_index \<times> log_index" where
  "lb_range b = (sat_add (actual_first_index b) 1, sat_add (lb_last_index b) 1)"

definition last_synced_index :: "log_buffer \<Rightarrow> log_index" where
  "last_synced_index b = wrap_sub (actual_first_index b + lb_flushing_offset b) 1"

definition lb_is_busy :: "log_buffer \<Rightarrow> bool" where
  "lb_is_busy b = (lb_cache_memory_limit b \<le> lb_log_buffer_bytes b)"

definition lb_term_at :: "log_buffer \<Rightarrow> log_index \<Rightarrow> raft_term option" where
  "lb_term_at b i =
     (if i < actual_first_index b \<or> lb_last_index b < i then None
      else (let k = i - actual_first_index b
            in if k < length (lb_entries b) then Some (trm (lb_entries b ! k)) else None))"

definition lb_append :: "log_entry \<Rightarrow> log_buffer \<Rightarrow> (unit, log_buffer) outcome" where
  "lb_append e b =
     (let expected = sat_add (lb_last_index b) 1
      in if idx e \<noteq> expected
         then (Inl (InvalidRequest (''log buffer append expects index '' @ show_nat expected
                                    @ '', got '' @ show_nat (idx e))), b)
         else (Inr (), b\<lparr>lb_log_buffer_bytes := sat_add (lb_log_buffer_bytes b) (entry_size e),
                         lb_entries := lb_entries b @ [e]\<rparr>))"

primrec append_many :: "log_entry list \<Rightarrow> log_buffer \<Rightarrow> (unit, log_buffer) outcome" where
  "append_many [] b = (Inr (), b)"
| "append_many (e # es) b = and_then (lb_append e b) (\<lambda>_ b'. append_many es b')"

definition flush :: "log_buffer \<Rightarrow> (log_buffer_flush option, log_buffer) outcome" where
  "flush b =
     (if lb_flushing b \<or> length (lb_entries b) = lb_flushing_offset b then (Inr None, b)
      else if lb_flushing_offset b \<noteq> lb_waiting_offset b
      then (Inl (InvalidRequest ''log buffer has entries already waiting for storage flush''), b)
      else (let flushed = drop (lb_waiting_offset b) (lb_entries b);
                first = (if flushed = [] then 0 else idx (hd flushed));
                last = (if flushed = [] then 0 else idx (last flushed))
            in (Inr (Some \<lparr>lf_entries = flushed, lf_first_index = first, lf_last_index = last\<rparr>),
                b\<lparr>lb_waiting_offset := length (lb_entries b), lb_flushing := True\<rparr>)))"

definition apply_append_result :: "log_index \<Rightarrow> log_index \<Rightarrow> log_buffer \<Rightarrow> (log_index, log_buffer) outcome" where
  "apply_append_result first_index last_index b =
     (if first_index = 0 \<or> last_index < first_index
      then (Inl (InvalidRequest (''invalid stabled range: '' @ show_nat first_index @ ''..=''
                                 @ show_nat last_index)), b)
      else if first_index < actual_first_index b
      then (Inl (InvalidRequest (''append result first index '' @ show_nat first_index
              @ '' is before first retained index '' @ show_nat (actual_first_index b))), b)
      else
        (let first_offset = first_index - actual_first_index b;
             written_size = last_index - first_index + 1;
             last_pending_offset = sat_add first_offset written_size;
             b' = b\<lparr>lb_flushing := False\<rparr>
         in if lb_waiting_offset b' = last_pending_offset
            then (Inr last_index, b'\<lparr>lb_flushing_offset := lb_waiting_offset b'\<rparr>)
            else if last_pending_offset \<le> lb_waiting_offset b'
            then (Inl (InvalidRequest ''log buffer append result can only be rolled back''), b')
            else if first_offset \<noteq> lb_flushing_offset b' \<or> lb_flushing_offset b' = lb_waiting_offset b'
            then (if first_offset < lb_flushing_offset b'
                  then (Inl (InvalidRequest ''log buffer stabled offset moved past append result''), b')
                  else (Inr 0, b'))
            else (Inr (first_index + (lb_waiting_offset b' - lb_flushing_offset b') - 1),
                  b'\<lparr>lb_flushing_offset := lb_waiting_offset b'\<rparr>)))"

text \<open>The byte-limited scan of \<^verbatim>\<open>read_entries\<close>: how many of the entries fit.\<close>

fun limited_length :: "nat \<Rightarrow> nat \<Rightarrow> nat \<Rightarrow> log_entry list \<Rightarrow> nat" where
  "limited_length limit_bytes bytes max_length (e # es) =
     (if bytes < limit_bytes \<and> 0 < max_length
      then Suc (limited_length limit_bytes (sat_add bytes (entry_size e)) (max_length - 1) es) else 0)"
| "limited_length limit_bytes bytes max_length [] = 0"

definition read_entries :: "log_buffer \<Rightarrow> log_index \<Rightarrow> log_index \<Rightarrow> nat \<Rightarrow> log_entry list result" where
  "read_entries b from to limit_bytes =
     (if to < from \<or> from \<le> actual_first_index b \<or> lb_last_index b < to
      then Inl (InvalidRequest (''log buffer range '' @ show_nat from @ ''..='' @ show_nat to
             @ '' is outside retained range ('' @ show_nat (fst (lb_range b)) @ '', ''
             @ show_nat (snd (lb_range b)) @ '')''))
      else (let offset = from - actual_first_index b;
                max_length = to - from + 1;
                len = (if limit_bytes = 0 then max_length
                       else limited_length limit_bytes 0 max_length (drop offset (lb_entries b)))
            in Inr (take len (drop offset (lb_entries b)))))"

definition truncate_from_index :: "log_index \<Rightarrow> log_buffer \<Rightarrow> (unit, log_buffer) outcome" where
  "truncate_from_index index b =
     (if index \<le> actual_first_index b
      then (Inl (InvalidRequest (''truncate index '' @ show_nat index
              @ '' must be after first retained index '' @ show_nat (actual_first_index b))), b)
      else if sat_add (lb_last_index b) 1 < index then (Inr (), b)
      else (let truncate_offset = index - actual_first_index b
            in (Inr (), b\<lparr>lb_waiting_offset := min (lb_waiting_offset b) truncate_offset,
                          lb_flushing_offset := min (lb_flushing_offset b) truncate_offset,
                          lb_log_buffer_bytes := foldr (\<lambda>e n. n - entry_size e)
                             (drop truncate_offset (lb_entries b)) (lb_log_buffer_bytes b),
                          lb_entries := take truncate_offset (lb_entries b)\<rparr>)))"

definition reset_initial_state :: "log_id \<Rightarrow> log_buffer \<Rightarrow> (unit, log_buffer) outcome" where
  "reset_initial_state initial_state b =
     (if li_index initial_state \<le> actual_first_index b
      then (Inl (InvalidRequest (''reset initial index '' @ show_nat (li_index initial_state)
              @ '' must be after first retained index '' @ show_nat (actual_first_index b))), b)
      else (Inr (), lb_new (lb_cache_memory_limit b) initial_state))"

definition mark_all_stabled :: "log_buffer \<Rightarrow> log_buffer" where
  "mark_all_stabled b = b\<lparr>lb_flushing_offset := length (lb_entries b),
     lb_waiting_offset := length (lb_entries b), lb_flushing := False\<rparr>"

definition drain_until :: "log_index \<Rightarrow> log_buffer \<Rightarrow> (log_buffer_release option, log_buffer) outcome" where
  "drain_until index b =
     (let first_index = actual_first_index b
      in if index \<le> first_index then (Inr None, b)
         else if lb_last_index b < index
         then (Inl (InvalidRequest (''drain index '' @ show_nat index
                 @ '' exceeds last retained index '' @ show_nat (lb_last_index b))), b)
         else (let drain_length = index - first_index;
                   released = take drain_length (lb_entries b);
                   rest = drop drain_length (lb_entries b)
               in (Inr (Some \<lparr>lr_released_entries = released, lr_released_until = index\<rparr>),
                   b\<lparr>lb_log_buffer_bytes := fold (\<lambda>e n. n - entry_size e) released (lb_log_buffer_bytes b),
                     lb_entries := rest, lb_initial_state := le_log_id (hd rest),
                     lb_flushing_offset := lb_flushing_offset b - drain_length,
                     lb_waiting_offset := lb_waiting_offset b - drain_length\<rparr>)))"

definition find_releasable_index :: "log_buffer \<Rightarrow> log_index \<Rightarrow> log_index \<Rightarrow> log_index option" where
  "find_releasable_index b replicate_index applied_index =
     (let first_index = actual_first_index b;
          hint_index = (if first_index < applied_index
                           \<and> ratio (lb_cache_memory_limit b) \<le> lb_log_buffer_bytes b
                        then applied_index
                        else if first_index < replicate_index then replicate_index else 0)
      in if hint_index = 0 then None
         else (let drain_length = ratio (hint_index - first_index)
               in if 0 < drain_length then Some (first_index + drain_length) else None))"

definition release_memory :: "log_index \<Rightarrow> log_index \<Rightarrow> log_buffer \<Rightarrow> (log_buffer_release option, log_buffer) outcome" where
  "release_memory replicate_index applied_index b =
     (if applied_index < replicate_index
      then (Inl (InvalidRequest (''replicate index '' @ show_nat replicate_index
              @ '' must not exceed applied index '' @ show_nat applied_index)), b)
      else case find_releasable_index b replicate_index applied_index of
             None \<Rightarrow> (Inr None, b)
           | Some recommend_index \<Rightarrow> drain_until recommend_index b)"

section \<open>Invariant\<close>

definition buffer_bytes :: "log_entry list \<Rightarrow> nat" where
  "buffer_bytes es = sum_list (map entry_size es)"

text \<open>
  What every call keeps; the stronger \<open>lb_inv\<close> has the flush cursor past the sentinel, which a
  drain past the last synced index gives up.
\<close>

definition lb_shape :: "log_buffer \<Rightarrow> bool" where
  "lb_shape b \<longleftrightarrow> lb_entries b \<noteq> []
     \<and> contiguous_from (actual_first_index b) (lb_entries b)
     \<and> le_log_id (hd (lb_entries b)) = lb_initial_state b
     \<and> lb_flushing_offset b \<le> lb_waiting_offset b
     \<and> lb_waiting_offset b \<le> length (lb_entries b)
     \<and> lb_log_buffer_bytes b = buffer_bytes (lb_entries b)"

definition lb_inv :: "log_buffer \<Rightarrow> bool" where
  "lb_inv b \<longleftrightarrow> lb_shape b \<and> 1 \<le> lb_flushing_offset b"

lemma lb_inv_shape: "lb_inv b \<Longrightarrow> lb_shape b"
  by (simp add: lb_inv_def)

lemma buffer_bytes_simps [simp]:
  "buffer_bytes [] = 0" "buffer_bytes (e # es) = entry_size e + buffer_bytes es"
  "buffer_bytes (xs @ ys) = buffer_bytes xs + buffer_bytes ys"
  by (simp_all add: buffer_bytes_def)

lemma foldr_release: "foldr (\<lambda>e n. n - entry_size e) es n = n - buffer_bytes es"
  by (induction es) auto

lemma fold_release: "fold (\<lambda>e n. n - entry_size e) es n = n - buffer_bytes es"
  by (induction es arbitrary: n) auto

lemma buffer_bytes_take_drop:
  "buffer_bytes es - buffer_bytes (drop k es) = buffer_bytes (take k es)"
  "buffer_bytes es - buffer_bytes (take k es) = buffer_bytes (drop k es)"
proof -
  have "buffer_bytes es = buffer_bytes (take k es) + buffer_bytes (drop k es)"
    by (simp flip: buffer_bytes_simps(3))
  then show "buffer_bytes es - buffer_bytes (drop k es) = buffer_bytes (take k es)"
    and "buffer_bytes es - buffer_bytes (take k es) = buffer_bytes (drop k es)" by linarith+
qed

lemma lb_shape_last: "lb_shape b \<Longrightarrow> lb_last_index b = idx (last (lb_entries b))"
  using contiguous_from_last [of "actual_first_index b" "lb_entries b"]
  by (simp add: lb_shape_def lb_last_index_def)

lemma lb_inv_new [simp]: "lb_inv (lb_new c l)"
  by (simp add: lb_inv_def lb_shape_def lb_new_def Let_def actual_first_index_def)

lemma lb_append_ok:
  assumes "lb_last_index b < u64_max"
  shows "lb_append e b = (Inr (), b') \<longleftrightarrow> idx e = lb_last_index b + 1
    \<and> b' = b\<lparr>lb_log_buffer_bytes := sat_add (lb_log_buffer_bytes b) (entry_size e),
              lb_entries := lb_entries b @ [e]\<rparr>"
  using assms by (auto simp: lb_append_def Let_def sat_add_succ)

text \<open>One lemma per call: it keeps the shape, and the flush cursor past the sentinel.\<close>

definition lb_kept :: "log_buffer \<Rightarrow> log_buffer \<Rightarrow> bool" where
  "lb_kept b b' \<longleftrightarrow> lb_shape b' \<and> (1 \<le> lb_flushing_offset b \<longrightarrow> 1 \<le> lb_flushing_offset b')"

lemma lb_kept_refl [simp]: "lb_kept b b = lb_shape b"
  by (simp add: lb_kept_def)

lemma lb_append_kept:
  assumes "lb_shape b" "lb_append e b = (r, b')" "lb_last_index b < u64_max"
    "lb_log_buffer_bytes b + entry_size e \<le> u64_max"
  shows "lb_kept b b'"
proof (cases "idx e = lb_last_index b + 1")
  case True
  then have "b' = b\<lparr>lb_log_buffer_bytes := lb_log_buffer_bytes b + entry_size e, lb_entries := lb_entries b @ [e]\<rparr>"
    using assms(2-) by (simp add: lb_append_def Let_def sat_add_succ sat_add_exact)
  then show ?thesis using assms(1) True
    by (auto simp: lb_kept_def lb_shape_def actual_first_index_def lb_last_index_def)
next
  case False
  then have "b' = b" using assms(2,3) by (auto simp: lb_append_def Let_def sat_add_succ)
  then show ?thesis using assms(1) by simp
qed

lemma flush_kept: "lb_shape b \<Longrightarrow> flush b = (r, b') \<Longrightarrow> lb_kept b b'"
  by (auto simp: flush_def Let_def lb_kept_def lb_shape_def actual_first_index_def split: if_splits)

lemma apply_append_result_shape:
  assumes "apply_append_result f l b = (r, b')"
  shows "b' = b \<or> b' = b\<lparr>lb_flushing := False\<rparr>
    \<or> b' = b\<lparr>lb_flushing := False, lb_flushing_offset := lb_waiting_offset b\<rparr>"
  using assms by (auto simp: apply_append_result_def Let_def split: if_splits)

lemma apply_append_result_kept:
  assumes "lb_shape b" "apply_append_result f l b = (r, b')"
  shows "lb_kept b b'"
  using apply_append_result_shape [OF assms(2)] assms(1)
  by (auto simp: lb_kept_def lb_shape_def actual_first_index_def)

lemma truncate_from_index_kept:
  assumes "lb_shape b" "truncate_from_index i b = (r, b')"
  shows "lb_kept b b'"
proof (cases "i \<le> actual_first_index b \<or> sat_add (lb_last_index b) 1 < i")
  case True
  then show ?thesis using assms by (auto simp: truncate_from_index_def split: if_splits)
next
  case False
  let ?k = "i - actual_first_index b"
  have b': "b' = b\<lparr>lb_waiting_offset := min (lb_waiting_offset b) ?k,
      lb_flushing_offset := min (lb_flushing_offset b) ?k,
      lb_log_buffer_bytes := foldr (\<lambda>e n. n - entry_size e) (drop ?k (lb_entries b)) (lb_log_buffer_bytes b),
      lb_entries := take ?k (lb_entries b)\<rparr>"
    using False assms(2) by (auto simp: truncate_from_index_def Let_def)
  have "lb_log_buffer_bytes b' = buffer_bytes (lb_entries b')"
    using assms(1) by (simp add: b' foldr_release lb_shape_def buffer_bytes_take_drop)
  moreover have "0 < ?k" using False by simp
  ultimately show ?thesis
    using assms(1) unfolding lb_kept_def lb_shape_def by (auto simp: b' actual_first_index_def hd_take)
qed

lemma reset_initial_state_kept: "lb_shape b \<Longrightarrow> reset_initial_state l b = (r, b') \<Longrightarrow> lb_kept b b'"
  using lb_inv_new [of "lb_cache_memory_limit b" l]
  by (auto simp: reset_initial_state_def lb_kept_def lb_inv_def split: if_splits)

lemma mark_all_stabled_kept: "lb_shape b \<Longrightarrow> lb_kept b (mark_all_stabled b)"
  by (auto simp: lb_kept_def lb_shape_def mark_all_stabled_def actual_first_index_def Suc_leI)

lemma last_synced_inv: "lb_inv b \<Longrightarrow> last_synced_index b = actual_first_index b + lb_flushing_offset b - 1"
  by (simp add: last_synced_index_def lb_inv_def wrap_sub_exact)

lemma drain_until_ok:
  assumes "actual_first_index b < i" "i \<le> lb_last_index b"
  defines "k \<equiv> i - actual_first_index b"
  shows "drain_until i b =
    (Inr (Some \<lparr>lr_released_entries = take k (lb_entries b), lr_released_until = i\<rparr>),
     b\<lparr>lb_log_buffer_bytes := lb_log_buffer_bytes b - buffer_bytes (take k (lb_entries b)),
       lb_entries := drop k (lb_entries b), lb_initial_state := le_log_id (hd (drop k (lb_entries b))),
       lb_flushing_offset := lb_flushing_offset b - k, lb_waiting_offset := lb_waiting_offset b - k\<rparr>)"
  using assms by (simp add: drain_until_def Let_def fold_release)

text \<open>
  Draining always keeps the shape. Only up to the last synced index does it keep the flush cursor
  past the sentinel; see \<open>drain_past_flush_resends_sentinel\<close> below.
\<close>

lemma drain_until_kept:
  assumes inv: "lb_shape b" and d: "drain_until i b = (r, b')"
  shows "lb_shape b'" "1 \<le> lb_flushing_offset b \<Longrightarrow> i \<le> last_synced_index b \<Longrightarrow> 1 \<le> lb_flushing_offset b'"
proof -
  have "lb_shape b' \<and> (1 \<le> lb_flushing_offset b \<and> i \<le> last_synced_index b \<longrightarrow> 1 \<le> lb_flushing_offset b')"
  proof (cases "i \<le> actual_first_index b \<or> lb_last_index b < i")
    case True
    then show ?thesis using inv d by (auto simp: drain_until_def Let_def split: if_splits)
  next
    case False
    define k where "k = i - actual_first_index b"
    have k: "k < length (lb_entries b)" "actual_first_index b + k = i"
      using False inv by (auto simp: k_def lb_shape_def lb_last_index_def)
    have b': "b' = b\<lparr>lb_log_buffer_bytes := lb_log_buffer_bytes b - buffer_bytes (take k (lb_entries b)),
         lb_entries := drop k (lb_entries b), lb_initial_state := le_log_id (hd (drop k (lb_entries b))),
         lb_flushing_offset := lb_flushing_offset b - k, lb_waiting_offset := lb_waiting_offset b - k\<rparr>"
      using d drain_until_ok [of b i] False by (simp add: k_def)
    have "idx (lb_entries b ! k) = i"
      using contiguous_from_nth [of "actual_first_index b" "lb_entries b" k] inv k by (simp add: lb_shape_def)
    then have first: "actual_first_index b' = i" using k(1) by (simp add: b' actual_first_index_def hd_drop_conv_nth)
    have "contiguous_from (actual_first_index b + k) (drop k (lb_entries b))"
      using inv k(1) by (intro contiguous_from_drop) (auto simp: lb_shape_def)
    then have "lb_shape b'"
      using inv k unfolding lb_shape_def first by (auto simp: b' buffer_bytes_take_drop diff_le_mono)
    moreover have "1 \<le> lb_flushing_offset b'" if "1 \<le> lb_flushing_offset b" "i \<le> last_synced_index b"
      using that inv False by (simp add: b' k_def last_synced_inv lb_inv_def)
    ultimately show ?thesis by blast
  qed
  then show "lb_shape b'" "1 \<le> lb_flushing_offset b \<Longrightarrow> i \<le> last_synced_index b \<Longrightarrow> 1 \<le> lb_flushing_offset b'"
    by blast+
qed

lemma ratio_less: "0 < v \<Longrightarrow> ratio v < v"
  using sat_mul_le [of v 9] by (simp add: ratio_def)

lemma find_releasable_index_bound:
  assumes "find_releasable_index b r a = Some i" "r \<le> a"
  shows "actual_first_index b < i" "i < a"
    "lb_log_buffer_bytes b < ratio (lb_cache_memory_limit b) \<Longrightarrow> i < r"
  using assms ratio_less [of "a - actual_first_index b"] ratio_less [of "r - actual_first_index b"]
  by (auto simp: find_releasable_index_def Let_def split: if_splits)

lemma release_memory_kept:
  assumes inv: "lb_shape b" and d: "release_memory p a b = (r, b')"
  shows "lb_shape b'" "1 \<le> lb_flushing_offset b \<Longrightarrow> a \<le> last_synced_index b \<Longrightarrow> 1 \<le> lb_flushing_offset b'"
proof -
  have "b' = b \<or> (\<exists>i. i < a \<and> drain_until i b = (r, b'))"
    using d find_releasable_index_bound(2) [of b p a] by (auto simp: release_memory_def split: if_splits option.splits)
  then show "lb_shape b'" "1 \<le> lb_flushing_offset b \<Longrightarrow> a \<le> last_synced_index b \<Longrightarrow> 1 \<le> lb_flushing_offset b'"
    using inv drain_until_kept [OF inv] by (auto dest: less_imp_le order_trans)
qed

section \<open>Reachable buffers\<close>

text \<open>
  One call on a buffer. Appends are taken as long as the last index and the byte counter fit 64
  bits. With \<open>synced_only\<close> the buffer drops entries only up to the last synced index, which the
  code does not check; without it every call is possible.
\<close>

inductive lb_step :: "bool \<Rightarrow> log_buffer \<Rightarrow> log_buffer \<Rightarrow> bool" for synced_only where
  append: "lb_append e b = (r, b') \<Longrightarrow> lb_last_index b < u64_max
     \<Longrightarrow> lb_log_buffer_bytes b + entry_size e \<le> u64_max \<Longrightarrow> lb_step synced_only b b'"
| flush: "flush b = (r, b') \<Longrightarrow> lb_step synced_only b b'"
| ack: "apply_append_result f l b = (r, b') \<Longrightarrow> lb_step synced_only b b'"
| truncate: "truncate_from_index i b = (r, b') \<Longrightarrow> lb_step synced_only b b'"
| reset: "reset_initial_state l b = (r, b') \<Longrightarrow> lb_step synced_only b b'"
| stable: "lb_step synced_only b (mark_all_stabled b)"
| drain: "drain_until i b = (r, b') \<Longrightarrow> synced_only \<longrightarrow> i \<le> last_synced_index b \<Longrightarrow> lb_step synced_only b b'"
| release: "release_memory p a b = (r, b') \<Longrightarrow> synced_only \<longrightarrow> a \<le> last_synced_index b \<Longrightarrow> lb_step synced_only b b'"

definition lb_reached :: "bool \<Rightarrow> log_buffer \<Rightarrow> bool" where
  "lb_reached synced_only b \<longleftrightarrow> lb_shape b \<and> (synced_only \<longrightarrow> 1 \<le> lb_flushing_offset b)"

lemma lb_kept_reached: "lb_reached so b \<Longrightarrow> (lb_shape b \<Longrightarrow> lb_kept b b') \<Longrightarrow> lb_reached so b'"
  by (auto simp: lb_reached_def lb_kept_def)

lemma lb_step_reached: "lb_step so b b' \<Longrightarrow> lb_reached so b \<Longrightarrow> lb_reached so b'"
proof (induction rule: lb_step.induct)
  case (drain i b r b')
  then show ?case using drain_until_kept [of b i r b'] by (auto simp: lb_reached_def)
next
  case (release p a b r b')
  then show ?case using release_memory_kept [of b p a r b'] by (auto simp: lb_reached_def)
qed (erule lb_kept_reached; blast intro: lb_append_kept flush_kept apply_append_result_kept
      truncate_from_index_kept reset_initial_state_kept mark_all_stabled_kept)+

lemma lb_steps_reached: "(lb_step so)\<^sup>*\<^sup>* b b' \<Longrightarrow> lb_reached so b \<Longrightarrow> lb_reached so b'"
  by (induction rule: rtranclp_induct) (auto intro: lb_step_reached)

section \<open>Refinement\<close>

text \<open>
  The abstract buffer: the identity of the last dropped entry and the entries after it. The
  functions below are what appending, truncating, draining and reading mean on it.
\<close>

type_synonym abstract_buffer = "log_id \<times> log_entry list"

definition lb_abs :: "log_buffer \<Rightarrow> abstract_buffer" where
  "lb_abs b = (lb_initial_state b, tl (lb_entries b))"

definition spec_truncate :: "log_index \<Rightarrow> abstract_buffer \<Rightarrow> abstract_buffer" where
  "spec_truncate i a = (fst a, filter (\<lambda>e. idx e < i) (snd a))"

definition spec_drain :: "log_index \<Rightarrow> abstract_buffer \<Rightarrow> abstract_buffer" where
  "spec_drain i a = (case find (\<lambda>e. idx e = i) (snd a) of
     None \<Rightarrow> a | Some e \<Rightarrow> (le_log_id e, filter (\<lambda>x. i < idx x) (snd a)))"

definition spec_read :: "log_index \<Rightarrow> log_index \<Rightarrow> abstract_buffer \<Rightarrow> log_entry list" where
  "spec_read from to a = filter (\<lambda>e. from \<le> idx e \<and> idx e \<le> to) (snd a)"

lemma filter_contiguous_less:
  assumes "contiguous_from k es"
  shows "filter (\<lambda>e. idx e < i) es = take (i - k) es"
proof -
  have "filter (\<lambda>e. idx e < i) es = takeWhile (\<lambda>e. idx e < i) es"
    using log_sorted_takeWhile(2) [OF contiguous_from_sorted [OF assms]] by simp
  also have "\<dots> = take (i - k) es"
    by (rule takeWhile_eq_take_P_nth) (use contiguous_from_nth [OF assms] in force)+
  finally show ?thesis .
qed

lemma filter_contiguous_ge:
  assumes "contiguous_from k es"
  shows "filter (\<lambda>e. i \<le> idx e) es = drop (i - k) es"
proof -
  have "filter (\<lambda>e. i \<le> idx e) (take (i - k) es) = []"
    using assms by (auto simp: filter_empty_conv in_set_conv_nth contiguous_from_nth)
  moreover have "filter (\<lambda>e. i \<le> idx e) (drop (i - k) es) = drop (i - k) es"
    using assms by (auto simp: filter_id_conv in_set_conv_nth contiguous_from_nth)
  ultimately show ?thesis
    by (metis append_self_conv2 append_take_drop_id filter_append)
qed

lemma lb_shape_tl: "lb_shape b \<Longrightarrow> contiguous_from (Suc (actual_first_index b)) (tl (lb_entries b))"
  using contiguous_from_drop [of "actual_first_index b" "lb_entries b" 1]
  by (simp add: lb_shape_def drop_Suc Suc_leI)

lemma append_refines:
  assumes "lb_shape b" "lb_append e b = (Inr (), b')"
  shows "lb_abs b' = (fst (lb_abs b), snd (lb_abs b) @ [e])"
  using assms by (auto simp: lb_append_def Let_def lb_abs_def lb_shape_def split: if_splits)

lemma truncate_refines:
  assumes "lb_shape b" "truncate_from_index i b = (Inr (), b')" "lb_last_index b < u64_max"
  shows "lb_abs b' = spec_truncate i (lb_abs b)"
proof -
  have tl: "filter (\<lambda>e. idx e < i) (tl (lb_entries b)) = take (i - Suc (actual_first_index b)) (tl (lb_entries b))"
    by (rule filter_contiguous_less [OF lb_shape_tl [OF assms(1)]])
  have ne: "lb_entries b \<noteq> []" and i: "actual_first_index b < i"
    using assms(1,2) by (auto simp: lb_shape_def truncate_from_index_def split: if_splits)
  show ?thesis
  proof (cases "lb_last_index b + 1 < i")
    case True
    then have "b' = b" using assms(2,3) i by (simp add: truncate_from_index_def split: if_splits)
    moreover have "length (tl (lb_entries b)) \<le> i - Suc (actual_first_index b)"
      using True ne by (cases "lb_entries b") (auto simp: lb_last_index_def)
    ultimately show ?thesis by (simp add: lb_abs_def spec_truncate_def tl)
  next
    case False
    then have "lb_entries b' = take (i - actual_first_index b) (lb_entries b)" "lb_initial_state b' = lb_initial_state b"
      using assms(2,3) i by (auto simp: truncate_from_index_def Let_def split: if_splits)
    then show ?thesis using i by (simp add: lb_abs_def spec_truncate_def tl tl_take)
  qed
qed

lemma drain_refines:
  assumes "lb_shape b" "actual_first_index b < i" "i \<le> lb_last_index b" "drain_until i b = (r, b')"
  shows "lb_abs b' = spec_drain i (lb_abs b)"
proof -
  let ?f = "actual_first_index b" and ?t = "tl (lb_entries b)"
  define k where "k = i - Suc ?f"
  have ct: "contiguous_from (Suc ?f) ?t" by (rule lb_shape_tl [OF assms(1)])
  have ne: "lb_entries b \<noteq> []" using assms(1) by (simp add: lb_shape_def)
  have k: "k < length ?t" "Suc ?f + k = i" using assms(2,3) ne by (auto simp: k_def lb_last_index_def)
  have dr: "drop (i - ?f) (lb_entries b) = drop k ?t"
    unfolding k_def using assms(2) by (metis Suc_diff_Suc drop_Suc)
  have b': "lb_entries b' = drop k ?t" "lb_initial_state b' = le_log_id (hd (drop k ?t))"
    using assms(4) drain_until_ok [OF assms(2,3)] dr by auto
  have nth: "idx (?t ! k) = i" using contiguous_from_nth [OF ct k(1)] k(2) by simp
  have "find (\<lambda>e. idx e = i) ?t = Some (?t ! k)"
    unfolding find_Some_iff using k(1) nth contiguous_from_nth [OF ct] k(2)
    by (intro exI [of _ k]) auto
  moreover have "filter (\<lambda>x. i < idx x) ?t = drop (Suc k) ?t"
  proof -
    have "i - ?f = Suc k" using k(2) by linarith
    then show ?thesis using filter_contiguous_ge [OF ct, of "Suc i"] by (simp add: Suc_le_eq)
  qed
  ultimately show ?thesis
    using k(1) by (simp add: lb_abs_def spec_drain_def b' hd_drop_conv_nth drop_Suc tl_drop)
qed

lemma read_refines:
  assumes "lb_shape b" "actual_first_index b < from" "from \<le> to" "to \<le> lb_last_index b"
  shows "read_entries b from to 0 = Inr (spec_read from to (lb_abs b))"
proof -
  let ?f = "actual_first_index b" and ?t = "tl (lb_entries b)"
  have ct: "contiguous_from (Suc ?f) ?t" by (rule lb_shape_tl [OF assms(1)])
  have dr: "drop (from - ?f) (lb_entries b) = drop (from - Suc ?f) ?t"
    using assms(2) by (metis Suc_diff_Suc drop_Suc)
  have k: "from - Suc ?f \<le> length ?t" using assms by (auto simp: lb_last_index_def)
  have "contiguous_from (Suc ?f + (from - Suc ?f)) (drop (from - Suc ?f) ?t)"
    by (rule contiguous_from_drop [OF ct k])
  then have c: "contiguous_from from (drop (from - Suc ?f) ?t)" using assms(2) by simp
  have "filter (\<lambda>e. from \<le> idx e \<and> idx e \<le> to) ?t
      = filter (\<lambda>e. idx e < Suc to) (filter (\<lambda>e. from \<le> idx e) ?t)"
    by (simp add: less_Suc_eq_le conj_commute)
  also have "\<dots> = take (Suc to - from) (drop (from - Suc ?f) ?t)"
    unfolding filter_contiguous_ge [OF ct] by (rule filter_contiguous_less [OF c])
  finally show ?thesis
    using assms by (simp add: read_entries_def spec_read_def lb_abs_def dr Suc_diff_le)
qed

section \<open>Reading under a byte limit\<close>

lemma limited_length_le: "limited_length limit bytes m es \<le> m"
  by (induction limit bytes m es rule: limited_length.induct) auto

lemma limited_length_pos: "bytes < limit \<Longrightarrow> 0 < m \<Longrightarrow> es \<noteq> [] \<Longrightarrow> 0 < limited_length limit bytes m es"
  by (cases es) auto

text \<open>Whatever is read, all but its last entry stay below the limit.\<close>

lemma limited_length_bytes:
  assumes "limit \<le> u64_max" "0 < limited_length limit bytes m es"
  shows "bytes + buffer_bytes (take (limited_length limit bytes m es - 1) es) < limit"
  using assms
proof (induction limit bytes m es rule: limited_length.induct)
  case (1 limit bytes m e es)
  show ?case
  proof (cases "0 < limited_length limit (sat_add bytes (entry_size e)) (m - 1) es")
    case True
    have step: "bytes < limit \<and> 0 < m" using 1(3) by (auto split: if_splits)
    then have ih: "sat_add bytes (entry_size e)
        + buffer_bytes (take (limited_length limit (sat_add bytes (entry_size e)) (m - 1) es - 1) es) < limit"
      using 1(1) True 1(2) by blast
    then have "sat_add bytes (entry_size e) = bytes + entry_size e"
      using 1(2) by (auto simp: sat_add_def min_def split: if_splits)
    with ih step True show ?thesis
      by (cases "limited_length limit (sat_add bytes (entry_size e)) (m - 1) es") auto
  next
    case False
    then show ?thesis using 1(3) by (auto split: if_splits)
  qed
qed simp

section \<open>Flush hand-shake\<close>

lemma append_many_offsets:
  assumes "append_many es b = (r, b')"
  shows "lb_flushing_offset b' = lb_flushing_offset b \<and> lb_waiting_offset b' = lb_waiting_offset b
    \<and> lb_initial_state b' = lb_initial_state b \<and> (\<exists>xs. lb_entries b' = lb_entries b @ xs)"
  using assms
proof (induction es arbitrary: b)
  case (Cons e es)
  show ?case
  proof (cases "idx e = sat_add (lb_last_index b) 1")
    case True
    then show ?thesis using Cons by (fastforce simp: lb_append_def Let_def)
  next
    case False
    then show ?thesis using Cons.prems by (auto simp: lb_append_def Let_def)
  qed
qed simp

lemma flush_Some:
  assumes "flush b = (Inr (Some f), b')" "lb_shape b"
  shows "lf_entries f = drop (lb_flushing_offset b) (lb_entries b)" "lf_entries f \<noteq> []"
    "lf_first_index f = actual_first_index b + lb_flushing_offset b"
    "lf_last_index f = lb_last_index b" "lf_first_index f \<le> lf_last_index f"
    "b' = b\<lparr>lb_waiting_offset := length (lb_entries b), lb_flushing := True\<rparr>"
proof -
  have off: "lb_flushing_offset b = lb_waiting_offset b" "length (lb_entries b) \<noteq> lb_flushing_offset b"
    and f: "f = \<lparr>lf_entries = drop (lb_waiting_offset b) (lb_entries b),
      lf_first_index = (if drop (lb_waiting_offset b) (lb_entries b) = [] then 0
                        else idx (hd (drop (lb_waiting_offset b) (lb_entries b)))),
      lf_last_index = (if drop (lb_waiting_offset b) (lb_entries b) = [] then 0
                        else idx (last (drop (lb_waiting_offset b) (lb_entries b))))\<rparr>"
    and "b' = b\<lparr>lb_waiting_offset := length (lb_entries b), lb_flushing := True\<rparr>"
    using assms(1) by (auto simp: flush_def Let_def split: if_splits)
  then show "b' = b\<lparr>lb_waiting_offset := length (lb_entries b), lb_flushing := True\<rparr>" by simp
  have lt: "lb_waiting_offset b < length (lb_entries b)"
    using off assms(2) by (simp add: lb_shape_def)
  show "lf_entries f = drop (lb_flushing_offset b) (lb_entries b)" "lf_entries f \<noteq> []"
    using f off lt by auto
  have c: "contiguous_from (actual_first_index b) (lb_entries b)" using assms(2) by (simp add: lb_shape_def)
  show first: "lf_first_index f = actual_first_index b + lb_flushing_offset b"
    using f off lt contiguous_from_nth [OF c lt] by (simp add: hd_drop_conv_nth)
  show last: "lf_last_index f = lb_last_index b"
    using f lt lb_shape_last [OF assms(2)] by simp
  show "lf_first_index f \<le> lf_last_index f"
    unfolding first last using off lt by (simp add: lb_last_index_def)
qed

section \<open>Properties\<close>

definition sample_entry :: "nat \<Rightarrow> nat \<Rightarrow> log_entry" where
  "sample_entry t i = \<lparr>le_log_id = \<lparr>li_term = t, li_index = i\<rparr>, le_payload = [7, 7], le_is_command = True\<rparr>"

definition sample_buffer :: log_buffer where
  "sample_buffer = snd (append_many [sample_entry 1 1, sample_entry 1 2, sample_entry 2 3]
     (lb_new 64 \<lparr>li_term = 0, li_index = 0\<rparr>))"

lemma sample_buffer_value:
  "sample_buffer = \<lparr>lb_cache_memory_limit = 64, lb_initial_state = \<lparr>li_term = 0, li_index = 0\<rparr>,
     lb_flushing = False, lb_flushing_offset = 1, lb_waiting_offset = 1, lb_log_buffer_bytes = 102,
     lb_entries = [\<lparr>le_log_id = \<lparr>li_term = 0, li_index = 0\<rparr>, le_payload = [], le_is_command = False\<rparr>,
       sample_entry 1 1, sample_entry 1 2, sample_entry 2 3]\<rparr>"
  by code_simp

lemma sample_buffer_inv:
  "lb_inv sample_buffer" "lb_last_index sample_buffer = 3" "actual_first_index sample_buffer = 0" "lb_shape sample_buffer"
  by (simp_all add: sample_buffer_value lb_inv_def lb_shape_def lb_last_index_def actual_first_index_def
      contiguous_from_def sample_entry_def entry_size_def upt_conv_Cons)

text \<open>
  C15: Every log buffer reached from \<^verbatim>\<open>LogBuffer::new\<close> by any sequence of calls, drains past the
  synced index and memory releases included, keeps its indexes contiguous after the sentinel, its
  two flush cursors ordered inside the buffer and its byte counter exact, as long as indexes and
  bytes fit 64 bits. When entries are dropped only once they are synced, the flush cursor moreover
  never falls back onto the sentinel.
\<close>

theorem log_buffer_reachable_inv:
  assumes "(lb_step synced_only)\<^sup>*\<^sup>* (lb_new c l) b"
  shows "lb_entries b \<noteq> [] \<and> contiguous_from (actual_first_index b) (lb_entries b)
    \<and> le_log_id (hd (lb_entries b)) = lb_initial_state b
    \<and> lb_flushing_offset b \<le> lb_waiting_offset b \<and> lb_waiting_offset b \<le> length (lb_entries b)
    \<and> lb_log_buffer_bytes b = buffer_bytes (lb_entries b)
    \<and> (synced_only \<longrightarrow> 1 \<le> lb_flushing_offset b)"
  using lb_steps_reached [OF assms] lb_inv_new [of c l] by (simp add: lb_reached_def lb_inv_def lb_shape_def)

lemma append_step:
  "lb_last_index b < u64_max \<and> lb_log_buffer_bytes b + entry_size e \<le> u64_max \<Longrightarrow> lb_step so b (snd (lb_append e b))"
  by (rule lb_step.append [of e b "fst (lb_append e b)"]) simp_all

lemma sample_buffer_steps: "(lb_step so)\<^sup>*\<^sup>* (lb_new 64 \<lparr>li_term = 0, li_index = 0\<rparr>) sample_buffer"
proof -
  let ?b0 = "lb_new 64 \<lparr>li_term = 0, li_index = 0\<rparr>"
  let ?b1 = "snd (lb_append (sample_entry 1 1) ?b0)"
  let ?b2 = "snd (lb_append (sample_entry 1 2) ?b1)"
  have "lb_step so ?b0 ?b1" by (rule append_step) code_simp
  moreover have "lb_step so ?b1 ?b2" by (rule append_step) code_simp
  moreover have "lb_step so ?b2 (snd (lb_append (sample_entry 2 3) ?b2))" by (rule append_step) code_simp
  moreover have "snd (lb_append (sample_entry 2 3) ?b2) = sample_buffer" by code_simp
  ultimately show ?thesis by (simp del: One_nat_def)
qed

theorem log_buffer_reachable_inv_witness:
  "(lb_step False)\<^sup>*\<^sup>* (lb_new 64 \<lparr>li_term = 0, li_index = 0\<rparr>) (snd (drain_until 2 sample_buffer))
   \<and> lb_flushing_offset (snd (drain_until 2 sample_buffer)) = 0
   \<and> lb_log_buffer_bytes (snd (drain_until 2 sample_buffer)) = buffer_bytes (lb_entries (snd (drain_until 2 sample_buffer)))
   \<and> 1 \<le> lb_flushing_offset sample_buffer"
proof -
  have "lb_step False sample_buffer (snd (drain_until 2 sample_buffer))"
    by (rule lb_step.drain [of 2 _ "fst (drain_until 2 sample_buffer)"]) simp_all
  with sample_buffer_steps have run: "(lb_step False)\<^sup>*\<^sup>* (lb_new 64 \<lparr>li_term = 0, li_index = 0\<rparr>) (snd (drain_until 2 sample_buffer))"
    by (rule rtranclp.rtrancl_into_rtrancl)
  have "lb_flushing_offset (snd (drain_until 2 sample_buffer)) = 0" by code_simp
  with run log_buffer_reachable_inv [OF run] log_buffer_reachable_inv [OF sample_buffer_steps [of True]] show ?thesis by blast
qed

text \<open>
  C14: On such a buffer the four log operations compute their specification on the abstract
  buffer (position of the last dropped entry, entries after it): append extends, truncate keeps
  exactly the entries below the index, drain keeps exactly the entries above it and moves the
  base to it, and an unlimited read returns exactly the requested index range.
\<close>

theorem log_buffer_refines:
  assumes "lb_shape b" "lb_last_index b < u64_max"
  shows "(lb_append e b = (Inr (), b1) \<longrightarrow> lb_abs b1 = (fst (lb_abs b), snd (lb_abs b) @ [e]))
    \<and> (truncate_from_index i b = (Inr (), b2) \<longrightarrow> lb_abs b2 = spec_truncate i (lb_abs b))
    \<and> (actual_first_index b < j \<and> j \<le> lb_last_index b \<and> drain_until j b = (r, b3) \<longrightarrow> lb_abs b3 = spec_drain j (lb_abs b))
    \<and> (actual_first_index b < from \<and> from \<le> to \<and> to \<le> lb_last_index b
         \<longrightarrow> read_entries b from to 0 = Inr (spec_read from to (lb_abs b)))"
  using assms append_refines truncate_refines drain_refines read_refines by blast

theorem log_buffer_refines_witness:
  "lb_abs (snd (lb_append (sample_entry 2 4) sample_buffer)) = (fst (lb_abs sample_buffer), snd (lb_abs sample_buffer) @ [sample_entry 2 4])
   \<and> lb_abs (snd (truncate_from_index 3 sample_buffer)) = spec_truncate 3 (lb_abs sample_buffer)
   \<and> lb_abs (snd (drain_until 2 sample_buffer)) = spec_drain 2 (lb_abs sample_buffer)
   \<and> read_entries sample_buffer 1 2 0 = Inr [sample_entry 1 1, sample_entry 1 2]"
proof -
  have ap: "lb_append (sample_entry 2 4) sample_buffer = (Inr (), snd (lb_append (sample_entry 2 4) sample_buffer))"
    and tr: "truncate_from_index 3 sample_buffer = (Inr (), snd (truncate_from_index 3 sample_buffer))"
    by code_simp+
  have dr: "drain_until 2 sample_buffer = (fst (drain_until 2 sample_buffer), snd (drain_until 2 sample_buffer))"
    by simp
  have rd: "spec_read 1 2 (lb_abs sample_buffer) = [sample_entry 1 1, sample_entry 1 2]"
    by code_simp
  have "lb_last_index sample_buffer < u64_max" by (simp add: sample_buffer_inv u64_max_def)
  from log_buffer_refines [OF sample_buffer_inv(4) this, of "sample_entry 2 4" "snd (lb_append (sample_entry 2 4) sample_buffer)"
      3 "snd (truncate_from_index 3 sample_buffer)" 2 "fst (drain_until 2 sample_buffer)" "snd (drain_until 2 sample_buffer)" 1 2]
  show ?thesis unfolding rd using ap tr dr by (simp add: sample_buffer_inv(2,3))
qed

text \<open>
  C22: The flush hand-shake. A flush hands out exactly the entries after the last synced index;
  when storage reports that range back, however many entries were appended meanwhile, the
  report is accepted in full and the synced index becomes the last index flushed.
\<close>

theorem flush_acknowledged:
  assumes "lb_inv b" "lb_last_index b < u64_max" "flush b = (Inr (Some f), b1)"
    and "append_many es b1 = (r, b2)"
  shows "lf_entries f = spec_read (last_synced_index b + 1) (lb_last_index b) (lb_abs b)
    \<and> (\<exists>b3. apply_append_result (lf_first_index f) (lf_last_index f) b2 = (Inr (lf_last_index f), b3)
          \<and> last_synced_index b3 = lf_last_index f \<and> lb_entries b3 = lb_entries b2)"
proof -
  note f = flush_Some [OF assms(3) lb_inv_shape [OF assms(1)]]
  have ne: "lb_entries b \<noteq> []" "1 \<le> lb_flushing_offset b" using assms(1) by (auto simp: lb_inv_def lb_shape_def)
  have sync: "last_synced_index b + 1 = lf_first_index f"
    unfolding f(3) last_synced_inv [OF assms(1)] using ne by simp
  have "read_entries b (lf_first_index f) (lb_last_index b) 0
      = Inr (spec_read (lf_first_index f) (lb_last_index b) (lb_abs b))"
    by (rule read_refines [OF lb_inv_shape [OF assms(1)]]) (use f(3,4,5) ne in auto)
  moreover have "read_entries b (lf_first_index f) (lb_last_index b) 0 = Inr (lf_entries f)"
    using f ne by (simp add: read_entries_def lb_last_index_def)
  ultimately have "lf_entries f = spec_read (lf_first_index f) (lb_last_index b) (lb_abs b)" by simp
  moreover
  have b2: "lb_flushing_offset b2 = lb_flushing_offset b" "lb_waiting_offset b2 = length (lb_entries b)"
    "lb_initial_state b2 = lb_initial_state b"
    using append_many_offsets [OF assms(4)] f(6) by auto
  have first: "actual_first_index b2 = actual_first_index b" using b2(3) by (simp add: actual_first_index_def)
  have len: "lf_last_index f - lf_first_index f + 1 = length (lb_entries b) - lb_flushing_offset b"
    "lb_flushing_offset b \<le> length (lb_entries b)"
    using f(3,4,5) assms(1) ne by (auto simp: lb_last_index_def lb_inv_def)
  have "sat_add (lb_flushing_offset b) (length (lb_entries b) - lb_flushing_offset b) = length (lb_entries b)"
    using len(2) assms(2) ne by (intro sat_add_exact [THEN trans]) (auto simp: lb_last_index_def)
  then have "apply_append_result (lf_first_index f) (lf_last_index f) b2
      = (Inr (lf_last_index f), b2\<lparr>lb_flushing := False, lb_flushing_offset := length (lb_entries b)\<rparr>)"
    using f(3,5) ne len by (simp add: apply_append_result_def Let_def first b2)
  moreover have "last_synced_index (b2\<lparr>lb_flushing := False, lb_flushing_offset := length (lb_entries b)\<rparr>)
      = lf_last_index f"
    using f(4) ne first by (simp add: last_synced_index_def actual_first_index_def lb_last_index_def wrap_sub_exact Suc_leI trans_le_add2)
  ultimately show ?thesis unfolding sync by auto
qed

theorem flush_acknowledged_witness:
  "\<exists>f b1. flush sample_buffer = (Inr (Some f), b1)
     \<and> lf_entries f = [sample_entry 1 1, sample_entry 1 2, sample_entry 2 3]
     \<and> fst (apply_append_result 1 3 (snd (append_many [sample_entry 2 4] b1))) = Inr 3"
proof -
  have f: "flush sample_buffer = (Inr (Some \<lparr>lf_entries = [sample_entry 1 1, sample_entry 1 2, sample_entry 2 3],
      lf_first_index = 1, lf_last_index = 3\<rparr>), snd (flush sample_buffer))"
    by code_simp
  moreover have "append_many [sample_entry 2 4] (snd (flush sample_buffer))
      = (Inr (), snd (append_many [sample_entry 2 4] (snd (flush sample_buffer))))"
    by code_simp
  moreover have "lb_last_index sample_buffer < u64_max" by (simp add: sample_buffer_inv u64_max_def)
  ultimately show ?thesis
    using flush_acknowledged [OF sample_buffer_inv(1) _ f] by fastforce
qed

text \<open>
  C30: A byte-limited read returns a non-empty prefix of the requested range whose entries but
  the last fit strictly below the limit, so a reader always makes progress and overshoots by at
  most one entry.
\<close>

theorem read_entries_limited:
  assumes "lb_shape b" "actual_first_index b < from" "from \<le> to" "to \<le> lb_last_index b"
    and "0 < limit" "limit \<le> u64_max"
  shows "\<exists>n. 0 < n \<and> read_entries b from to limit = Inr (take n (spec_read from to (lb_abs b)))
    \<and> buffer_bytes (take (n - 1) (spec_read from to (lb_abs b))) < limit"
proof -
  let ?d = "drop (from - actual_first_index b) (lb_entries b)"
  let ?n = "limited_length limit 0 (to - from + 1) ?d"
  have spec: "spec_read from to (lb_abs b) = take (to - from + 1) ?d"
    using read_refines [OF assms(1-4)] assms(2-4) by (simp add: read_entries_def)
  have "?d \<noteq> []" using assms(1-4) by (auto simp: lb_last_index_def lb_shape_def)
  then have pos: "0 < ?n" using assms(5) by (simp add: limited_length_pos)
  have "take ?n (spec_read from to (lb_abs b)) = take ?n ?d"
    and "take (?n - 1) (spec_read from to (lb_abs b)) = take (?n - 1) ?d"
    using limited_length_le [of limit 0 "to - from + 1" ?d] by (auto simp: spec min_def)
  then show ?thesis
    using pos limited_length_bytes [OF assms(6) pos] assms(2-5)
    by (intro exI [of _ ?n]) (simp add: read_entries_def Let_def)
qed

theorem read_entries_limited_witness:
  "\<exists>n. 0 < n \<and> read_entries sample_buffer 1 3 30 = Inr (take n [sample_entry 1 1, sample_entry 1 2, sample_entry 2 3])"
proof -
  have "spec_read 1 3 (lb_abs sample_buffer) = [sample_entry 1 1, sample_entry 1 2, sample_entry 2 3]"
    by code_simp
  moreover have "30 \<le> u64_max" by (simp add: u64_max_def)
  ultimately show ?thesis
    using read_entries_limited [of sample_buffer 1 3 30] sample_buffer_inv by auto
qed

text \<open>
  C31: Releasing memory stays below the applied index, and below the replicated index unless the
  buffer is under memory pressure; what is released is exactly the prefix up to that point.
\<close>

theorem release_memory_bounded:
  assumes "lb_shape b" "release_memory r a b = (Inr (Some rel), b')"
  shows "lr_released_until rel < a
    \<and> (lb_log_buffer_bytes b < ratio (lb_cache_memory_limit b) \<longrightarrow> lr_released_until rel < r)
    \<and> lr_released_entries rel @ lb_entries b' = lb_entries b
    \<and> actual_first_index b' = lr_released_until rel"
proof -
  obtain i where i: "find_releasable_index b r a = Some i" "r \<le> a" "drain_until i b = (Inr (Some rel), b')"
    using assms(2) by (auto simp: release_memory_def split: if_splits option.splits)
  note bd = find_releasable_index_bound [OF i(1,2)]
  have last: "i \<le> lb_last_index b" using i(3) bd(1) by (auto simp: drain_until_def Let_def split: if_splits)
  note d = drain_until_ok [OF bd(1) last]
  have "i - actual_first_index b < length (lb_entries b)"
    using last bd(1) assms(1) by (auto simp: lb_last_index_def lb_shape_def)
  then have "actual_first_index b' = i"
    using d i(3) bd(1) contiguous_from_nth [of "actual_first_index b" "lb_entries b" "i - actual_first_index b"] assms(1)
    by (auto simp: actual_first_index_def hd_drop_conv_nth lb_shape_def)
  then show ?thesis using d i(3) bd by auto
qed

theorem release_memory_bounded_witness:
  "\<exists>rel b'. release_memory 2 3 sample_buffer = (Inr (Some rel), b') \<and> lr_released_until rel < 3"
proof -
  have "\<exists>rel. fst (release_memory 2 3 sample_buffer) = Inr (Some rel)"
    by (rule exI [of _ "\<lparr>lr_released_entries = take 2 (lb_entries sample_buffer), lr_released_until = 2\<rparr>"]) code_simp
  then obtain rel where "release_memory 2 3 sample_buffer = (Inr (Some rel), snd (release_memory 2 3 sample_buffer))"
    by (metis prod.collapse)
  with release_memory_bounded [OF sample_buffer_inv(4) this] show ?thesis by blast
qed

text \<open>
  Draining past the last synced index drops the flush cursor to the sentinel: the next
  flush hands storage the entry whose index was just reported as released.
\<close>

theorem drain_past_flush_resends_sentinel:
  assumes "lb_inv b" "\<not> lb_flushing b" "lb_waiting_offset b = lb_flushing_offset b"
    and "last_synced_index b < i" "i \<le> lb_last_index b"
  shows "\<exists>rel b' f b''. drain_until i b = (Inr (Some rel), b') \<and> lr_released_until rel = i
    \<and> flush b' = (Inr (Some f), b'') \<and> lf_first_index f = i"
proof -
  let ?k = "i - actual_first_index b"
  have k: "actual_first_index b < i" "lb_flushing_offset b \<le> ?k" "?k < length (lb_entries b)"
    using assms by (auto simp: last_synced_inv lb_last_index_def lb_inv_def)
  have "idx (lb_entries b ! ?k) = i"
    using contiguous_from_nth [of "actual_first_index b" "lb_entries b" ?k] assms(1) k by (simp add: lb_inv_def lb_shape_def)
  then show ?thesis
    using drain_until_ok [OF k(1) assms(5)] k assms(2,3)
    by (simp add: flush_def Let_def hd_drop_conv_nth)
qed

theorem drain_past_flush_resends_sentinel_witness:
  "\<exists>rel b' f b''. drain_until 2 sample_buffer = (Inr (Some rel), b') \<and> lr_released_until rel = 2
     \<and> flush b' = (Inr (Some f), b'') \<and> lf_first_index f = 2"
proof -
  have "\<not> lb_flushing sample_buffer" "lb_waiting_offset sample_buffer = lb_flushing_offset sample_buffer"
    "last_synced_index sample_buffer < 2"
    by code_simp+
  then show ?thesis using drain_past_flush_resends_sentinel [of sample_buffer 2] sample_buffer_inv by simp
qed

end
