(* ===== verification/MR_Quorum_Select.thy ===== *)
theory MR_Quorum_Select
  imports MR_Search
begin

text \<open>
  Selecting the greatest value held by a quorum. The source does it in two ways, once for lease
  ends (\<^verbatim>\<open>lease.rs\<close>) and once for match indexes (\<^verbatim>\<open>facade/cluster_runtime.rs\<close>): an order statistic on
  a fixed array for small groups, and repeated counting for larger ones. The locale
  \<open>quorum_selection\<close> is the contract both meet; from it they compute the same value.
\<close>

section \<open>The contract\<close>

definition holders :: "nat \<Rightarrow> nat list \<Rightarrow> nat" where
  "holders v xs = length (filter (\<lambda>x. v \<le> x) xs)"

lemma holders_le: "holders v xs \<le> length xs"
  by (simp add: holders_def)

lemma holders_antimono: "v \<le> w \<Longrightarrow> holders w xs \<le> holders v xs"
  unfolding holders_def by (induction xs) auto

lemma holders_mono: "list_all2 (\<le>) xs ys \<Longrightarrow> holders v xs \<le> holders v ys"
  unfolding holders_def by (induction rule: list_all2_induct) auto

lemma holders_sort [simp]: "holders v (sort xs) = holders v xs"
  unfolding holders_def by (simp add: filter_sort)

locale quorum_selection =
  fixes select :: "nat \<Rightarrow> nat list \<Rightarrow> nat option"
  assumes select_defined: "0 < q \<Longrightarrow> q \<le> length xs \<Longrightarrow> select q xs \<noteq> None"
    and select_undefined: "length xs < q \<Longrightarrow> select q xs = None"
    and select_held: "0 < q \<Longrightarrow> select q xs = Some v \<Longrightarrow> v \<in> set xs \<and> q \<le> holders v xs"
    and select_greatest: "0 < q \<Longrightarrow> select q xs = Some v \<Longrightarrow> q \<le> holders w xs \<Longrightarrow> w \<le> v"
begin

lemma select_iff:
  assumes "0 < q"
  shows "select q xs = Some v \<longleftrightarrow>
    v \<in> set xs \<and> q \<le> holders v xs \<and> (\<forall>w. q \<le> holders w xs \<longrightarrow> w \<le> v)" (is "_ \<longleftrightarrow> ?R")
proof
  assume ?R
  then have "q \<le> length xs" using holders_le le_trans by blast
  then obtain u where u: "select q xs = Some u" using select_defined [OF assms] by blast
  with \<open>?R\<close> have "u = v"
    using select_held [OF assms u] select_greatest [OF assms u] by (intro antisym) blast+
  with u show "select q xs = Some v" by simp
qed (use select_held [OF assms] select_greatest [OF assms] in blast)

text \<open>Values that only grow can only raise the selected value.\<close>

lemma select_mono:
  assumes "0 < q" "list_all2 (\<le>) xs ys" "select q xs = Some v"
  shows "\<exists>w. select q ys = Some w \<and> v \<le> w"
proof -
  have "q \<le> holders v ys"
    using select_held [OF assms(1,3)] holders_mono [OF assms(2)] le_trans by blast
  moreover from this obtain w where "select q ys = Some w"
    using select_defined [OF assms(1), of ys] holders_le le_trans by blast
  ultimately show ?thesis using select_greatest [OF assms(1)] by blast
qed

end

section \<open>The two selections\<close>

definition order_statistic :: "nat \<Rightarrow> nat list \<Rightarrow> nat option" where
  "order_statistic quorum xs =
     (if length xs < quorum then None else Some (select_nth xs (length xs - quorum)))"

definition count_step :: "nat \<Rightarrow> nat list \<Rightarrow> nat \<Rightarrow> nat option \<Rightarrow> nat option" where
  "count_step quorum xs candidate best =
     (if (case best of Some current \<Rightarrow> candidate \<le> current | None \<Rightarrow> False) then best
      else if quorum \<le> holders candidate xs then Some candidate else best)"

definition repeated_counting :: "nat \<Rightarrow> nat list \<Rightarrow> nat option" where
  "repeated_counting quorum xs =
     (if length xs < quorum then None else fold (count_step quorum xs) xs None)"

lemma order_statistic_held:
  assumes "0 < q" "q \<le> length xs"
  shows "q \<le> holders (sort xs ! (length xs - q)) xs"
proof -
  let ?ys = "sort xs" and ?i = "length xs - q"
  have "drop ?i ?ys = filter (\<lambda>x. ?ys ! ?i \<le> x) (drop ?i ?ys)"
  proof (rule filter_True [symmetric], rule ballI)
    fix x assume "x \<in> set (drop ?i ?ys)"
    then obtain j where "j < length (drop ?i ?ys)" "x = drop ?i ?ys ! j" by (auto simp: in_set_conv_nth)
    then show "?ys ! ?i \<le> x" using sorted_nth_mono [of ?ys ?i "?i + j"] by auto
  qed
  then have "q = length (filter (\<lambda>x. ?ys ! ?i \<le> x) (drop ?i ?ys))"
    using assms(2) by (metis diff_diff_cancel length_drop length_sort)
  also have "\<dots> \<le> holders (?ys ! ?i) ?ys"
    unfolding holders_def by (metis append_take_drop_id filter_append length_append le_add2)
  finally show ?thesis by simp
qed

lemma order_statistic_greatest:
  assumes "0 < q" "q \<le> length xs" "q \<le> holders w xs"
  shows "w \<le> sort xs ! (length xs - q)"
proof (rule ccontr)
  let ?ys = "sort xs" and ?i = "length xs - q"
  assume nle: "\<not> w \<le> ?ys ! ?i"
  have "\<not> w \<le> x" if x: "x \<in> set (take (Suc ?i) ?ys)" for x
  proof -
    obtain j where "j < length (take (Suc ?i) ?ys)" "x = take (Suc ?i) ?ys ! j"
      using x by (auto simp: in_set_conv_nth)
    then have "j \<le> ?i" "x = ?ys ! j" by auto
    then have "x \<le> ?ys ! ?i" using sorted_nth_mono [of ?ys j ?i] assms(1,2) by simp
    then show ?thesis using nle by simp
  qed
  then have low: "filter (\<lambda>x. w \<le> x) (take (Suc ?i) ?ys) = []" by (simp add: filter_empty_conv)
  have "holders w ?ys = length (filter (\<lambda>x. w \<le> x) (drop (Suc ?i) ?ys))"
    unfolding holders_def by (metis low append_take_drop_id filter_append append_Nil)
  also have "\<dots> \<le> length xs - Suc ?i" by (metis length_filter_le length_drop length_sort)
  finally show False using assms by simp
qed

interpretation order: quorum_selection order_statistic
proof unfold_locales
  show "v \<in> set xs \<and> q \<le> holders v xs" if "0 < q" "order_statistic q xs = Some v" for q xs v
  proof -
    have v: "q \<le> length xs" "v = sort xs ! (length xs - q)"
      using that(2) by (auto simp: order_statistic_def select_nth_def split: if_splits)
    have "length xs - q < length (sort xs)" using that(1) v(1) by simp
    then have "v \<in> set (sort xs)" unfolding v(2) by (rule nth_mem)
    then show ?thesis using order_statistic_held [OF that(1) v(1)] v(2) by simp
  qed
  show "w \<le> v" if "0 < q" "order_statistic q xs = Some v" "q \<le> holders w xs" for q xs v w
    using that order_statistic_greatest [of q xs w]
    by (auto simp: order_statistic_def select_nth_def split: if_splits)
qed (auto simp: order_statistic_def)

text \<open>After scanning a prefix, the best value is the greatest one of it held by a quorum.\<close>

lemma fold_count_step_None:
  "fold (count_step q xs) cs best = None \<longleftrightarrow> best = None \<and> (\<forall>c \<in> set cs. \<not> q \<le> holders c xs)"
  by (induction cs arbitrary: best) (auto simp: count_step_def split: option.splits)

lemma fold_count_step_source:
  "fold (count_step q xs) cs best = Some v \<Longrightarrow> best = Some v \<or> v \<in> set cs \<and> q \<le> holders v xs"
proof (induction cs arbitrary: best)
  case (Cons c cs)
  then have "count_step q xs c best = Some v \<or> v \<in> set cs \<and> q \<le> holders v xs" by simp
  then show ?case by (auto simp: count_step_def split: if_splits)
qed simp

lemma fold_count_step_above:
  "fold (count_step q xs) cs best = Some v \<Longrightarrow>
     (\<forall>u. best = Some u \<longrightarrow> u \<le> v) \<and> (\<forall>c \<in> set cs. q \<le> holders c xs \<longrightarrow> c \<le> v)"
proof (induction cs arbitrary: best)
  case (Cons c cs)
  let ?b = "count_step q xs c best"
  have ih: "\<forall>u. ?b = Some u \<longrightarrow> u \<le> v" "\<forall>c \<in> set cs. q \<le> holders c xs \<longrightarrow> c \<le> v"
    using Cons.IH [of ?b] Cons.prems by auto
  have "u \<le> v" if "best = Some u" for u
    using ih(1) that by (auto simp: count_step_def split: if_splits)
  moreover have "c \<le> v" if "q \<le> holders c xs"
    using ih(1) that by (auto simp: count_step_def split: if_splits option.splits)
  ultimately show ?case using ih(2) by auto
qed simp

lemma holders_below_member:
  assumes "0 < q" "q \<le> holders w xs"
  shows "\<exists>c \<in> set xs. w \<le> c \<and> q \<le> holders c xs"
proof -
  let ?s = "{x \<in> set xs. w \<le> x}"
  have "filter (\<lambda>x. w \<le> x) xs \<noteq> []" using assms by (auto simp: holders_def)
  then have ne: "?s \<noteq> {}" by (auto simp: filter_empty_conv)
  define c where "c = Min ?s"
  have c: "c \<in> ?s" unfolding c_def by (rule Min_in) (use ne in auto)
  have "filter (\<lambda>x. w \<le> x) xs = filter (\<lambda>x. c \<le> x) xs"
    using c by (intro filter_cong) (auto simp: c_def)
  then show ?thesis using c assms(2) by (auto simp: holders_def)
qed

lemma holders_Min: "xs \<noteq> [] \<Longrightarrow> holders (Min (set xs)) xs = length xs"
  unfolding holders_def by (simp add: filter_id_conv)

interpretation counting: quorum_selection repeated_counting
proof unfold_locales
  show "repeated_counting q xs \<noteq> None" if "0 < q" "q \<le> length xs" for q xs
  proof -
    have ne: "xs \<noteq> []" using that by auto
    then have "Min (set xs) \<in> set xs" "q \<le> holders (Min (set xs)) xs"
      using that(2) by (auto simp: holders_Min)
    then show ?thesis
      using that by (auto simp: repeated_counting_def fold_count_step_None)
  qed
  show "v \<in> set xs \<and> q \<le> holders v xs" if "0 < q" "repeated_counting q xs = Some v" for q xs v
    using that fold_count_step_source [of q xs xs None v] by (simp add: repeated_counting_def split: if_splits)
  show "w \<le> v" if h: "0 < q" "repeated_counting q xs = Some v" "q \<le> holders w xs" for q xs v w
  proof -
    obtain c where "c \<in> set xs" "w \<le> c" "q \<le> holders c xs"
      using holders_below_member [OF h(1,3)] by blast
    then show ?thesis
      using h(2) fold_count_step_above [of q xs xs None v] le_trans
      by (auto simp: repeated_counting_def split: if_splits)
  qed
qed (simp add: repeated_counting_def)

lemma selections_agree: "0 < q \<Longrightarrow> repeated_counting q xs = order_statistic q xs"
  by (metis counting.select_iff order.select_iff not_Some_eq)

end
