(* ===== verification/MR_BTree_Map.thy ===== *)
theory MR_BTree_Map
  imports MR_Prelude
begin

text \<open>
  The ordered map of Rust's standard library (\<^verbatim>\<open>std::collections::BTreeMap\<close>, keyed by an
  unsigned integer) as an association list in strictly increasing key order, so that iteration
  visits the entries in the order the source visits them. The interface other components use is
  the locale \<open>ordered_map\<close>; the operations below are its interpretation.
\<close>

section \<open>The interface\<close>

locale ordered_map =
  fixes empty :: "'m"
    and lookup :: "'m \<Rightarrow> nat \<Rightarrow> 'v option"
    and insert :: "nat \<Rightarrow> 'v \<Rightarrow> 'm \<Rightarrow> 'm"
    and remove :: "nat \<Rightarrow> 'm \<Rightarrow> 'm"
    and keys :: "'m \<Rightarrow> nat list"
    and invar :: "'m \<Rightarrow> bool"
  assumes lookup_empty: "lookup empty k = None"
    and lookup_insert: "invar m \<Longrightarrow> lookup (insert k v m) k' = (if k' = k then Some v else lookup m k')"
    and lookup_remove: "invar m \<Longrightarrow> lookup (remove k m) k' = (if k' = k then None else lookup m k')"
    and keys_lookup: "invar m \<Longrightarrow> k \<in> set (keys m) \<longleftrightarrow> lookup m k \<noteq> None"
    and keys_sorted: "invar m \<Longrightarrow> sorted_wrt (<) (keys m)"
    and invar_empty: "invar empty"
    and invar_insert: "invar m \<Longrightarrow> invar (insert k v m)"
    and invar_remove: "invar m \<Longrightarrow> invar (remove k m)"
begin

lemma keys_distinct: "invar m \<Longrightarrow> distinct (keys m)"
  using keys_sorted strict_sorted_iff by blast

lemma keys_insert: "invar m \<Longrightarrow> set (keys (insert k v m)) = Set.insert k (set (keys m))"
  by (auto simp: keys_lookup invar_insert lookup_insert split: if_splits)

lemma keys_remove: "invar m \<Longrightarrow> set (keys (remove k m)) = set (keys m) - {k}"
  by (auto simp: keys_lookup invar_remove lookup_remove split: if_splits)

text \<open>Strictly increasing keys are determined by their set: iteration order is canonical.\<close>

lemma keys_canonical:
  assumes "invar m" "invar m'" "set (keys m) = set (keys m')"
  shows "keys m = keys m'"
  using assms keys_sorted strict_sorted_equal by blast

lemma length_keys_remove:
  assumes "invar m" "lookup m k = Some v"
  shows "length (keys m) = Suc (length (keys (remove k m)))"
proof -
  have "k \<in> set (keys m)" using assms by (simp add: keys_lookup)
  then have "card (set (keys m)) = Suc (card (set (keys m) - {k}))"
    by (metis card_Suc_Diff1 List.finite_set)
  then show ?thesis
    using assms(1) by (simp add: keys_remove keys_distinct distinct_card invar_remove flip: keys_remove)
qed

end

section \<open>The operations\<close>

type_synonym 'v btree = "(nat \<times> 'v) list"

definition bt_get :: "'v btree \<Rightarrow> nat \<Rightarrow> 'v option" where
  "bt_get m k = map_of m k"

fun bt_insert :: "nat \<Rightarrow> 'v \<Rightarrow> 'v btree \<Rightarrow> 'v btree" where
  "bt_insert k v [] = [(k, v)]"
| "bt_insert k v ((k', v') # m) =
     (if k < k' then (k, v) # (k', v') # m
      else if k = k' then (k, v) # m
      else (k', v') # bt_insert k v m)"

definition bt_remove :: "nat \<Rightarrow> 'v btree \<Rightarrow> 'v btree" where
  "bt_remove k m = filter (\<lambda>e. fst e \<noteq> k) m"

definition bt_keys :: "'v btree \<Rightarrow> nat list" where
  "bt_keys m = map fst m"

definition bt_values :: "'v btree \<Rightarrow> 'v list" where
  "bt_values m = map snd m"

text \<open>\<^verbatim>\<open>get_mut\<close> followed by a write, and a write to every value (\<^verbatim>\<open>values_mut\<close>).\<close>

definition bt_modify :: "nat \<Rightarrow> ('v \<Rightarrow> 'v) \<Rightarrow> 'v btree \<Rightarrow> 'v btree" where
  "bt_modify k f m = map (\<lambda>(k', v). (k', if k' = k then f v else v)) m"

definition bt_map_values :: "('v \<Rightarrow> 'v) \<Rightarrow> 'v btree \<Rightarrow> 'v btree" where
  "bt_map_values f m = map (\<lambda>(k, v). (k, f v)) m"

definition bt_contains_key :: "'v btree \<Rightarrow> nat \<Rightarrow> bool" where
  "bt_contains_key m k = (bt_get m k \<noteq> None)"

definition bt_invar :: "'v btree \<Rightarrow> bool" where
  "bt_invar m = sorted_wrt (<) (map fst m)"

lemma bt_invar_Nil [simp]: "bt_invar []"
  by (simp add: bt_invar_def)

lemma bt_invar_Cons [simp]:
  "bt_invar ((k, v) # m) \<longleftrightarrow> (\<forall>k' \<in> fst ` set m. k < k') \<and> bt_invar m"
  by (auto simp: bt_invar_def)

lemma bt_invar_distinct: "bt_invar m \<Longrightarrow> distinct (map fst m)"
  unfolding bt_invar_def using strict_sorted_iff by blast

lemma fst_set_bt_insert: "fst ` set (bt_insert k v m) = insert k (fst ` set m)"
  by (induction k v m rule: bt_insert.induct) auto

lemma bt_invar_insert [simp]: "bt_invar m \<Longrightarrow> bt_invar (bt_insert k v m)"
  by (induction k v m rule: bt_insert.induct) (auto simp: fst_set_bt_insert)

lemma bt_get_insert [simp]:
  "bt_invar m \<Longrightarrow> bt_get (bt_insert k v m) k' = (if k' = k then Some v else bt_get m k')"
  unfolding bt_get_def by (induction k v m rule: bt_insert.induct) auto

lemma bt_get_remove [simp]:
  "bt_get (bt_remove k m) k' = (if k' = k then None else bt_get m k')"
  unfolding bt_get_def bt_remove_def by (induction m) auto

lemma bt_invar_remove [simp]: "bt_invar m \<Longrightarrow> bt_invar (bt_remove k m)"
  unfolding bt_invar_def bt_remove_def by (induction m) auto

lemma bt_keys_get: "k \<in> set (bt_keys m) \<longleftrightarrow> bt_get m k \<noteq> None"
  by (auto simp: bt_keys_def bt_get_def map_of_eq_None_iff)

interpretation bt: ordered_map "[] :: 'v btree" bt_get bt_insert bt_remove bt_keys bt_invar
proof unfold_locales
  show "bt_get [] k = None" for k
    by (simp add: bt_get_def)
  show "sorted_wrt (<) (bt_keys m)" if "bt_invar m" for m :: "'v btree"
    using that by (simp add: bt_invar_def bt_keys_def)
qed (simp_all add: bt_keys_get)

subsection \<open>Point-wise and bulk writes\<close>

lemma bt_get_modify [simp]:
  "bt_get (bt_modify k f m) k' = (if k' = k then map_option f (bt_get m k) else bt_get m k')"
  unfolding bt_get_def bt_modify_def by (induction m) auto

lemma bt_keys_modify [simp]: "bt_keys (bt_modify k f m) = bt_keys m"
  by (simp add: bt_keys_def bt_modify_def case_prod_beta comp_def)

lemma bt_invar_modify [simp]: "bt_invar (bt_modify k f m) = bt_invar m"
  by (simp add: bt_invar_def bt_modify_def case_prod_beta comp_def)

lemma bt_get_map_values [simp]: "bt_get (bt_map_values f m) k = map_option f (bt_get m k)"
  unfolding bt_get_def bt_map_values_def by (induction m) auto

lemma bt_keys_map_values [simp]: "bt_keys (bt_map_values f m) = bt_keys m"
  by (simp add: bt_keys_def bt_map_values_def case_prod_beta comp_def)

lemma bt_invar_map_values [simp]: "bt_invar (bt_map_values f m) = bt_invar m"
  by (simp add: bt_invar_def bt_map_values_def case_prod_beta comp_def)

lemma bt_values_map_values [simp]: "bt_values (bt_map_values f m) = map f (bt_values m)"
  by (simp add: bt_values_def bt_map_values_def case_prod_beta comp_def)

lemma bt_get_values: "bt_get m k = Some v \<Longrightarrow> v \<in> set (bt_values m)"
  unfolding bt_get_def bt_values_def by (metis imageE map_of_SomeD image_eqI set_map snd_conv)

lemma bt_values_get:
  "bt_invar m \<Longrightarrow> v \<in> set (bt_values m) \<Longrightarrow> \<exists>k. bt_get m k = Some v"
  using bt_invar_distinct by (fastforce simp: bt_values_def bt_get_def)

lemma length_bt_values [simp]: "length (bt_values m) = length m"
  by (simp add: bt_values_def)

lemma length_bt_keys [simp]: "length (bt_keys m) = length m"
  by (simp add: bt_keys_def)

end
