(* ===== verification/MR_Lease.thy ===== *)
theory MR_Lease
  imports MR_BTree_Map MR_Membership MR_Quorum_Select
begin

text \<open>
  Leader and follower leases (\<^verbatim>\<open>lease.rs\<close>). The two selection paths for the lease end are shown
  equal, and a transition system of one leader and its followers (items and confirmations
  delivered late, repeatedly or never, terms reset, peers replaced, followers restarted) gives
  the safety property: while the leader reports itself in lease, a majority of those who voted
  when the lease end was selected have not run out of the promise they made.
\<close>

section \<open>Leader lease\<close>

record lease_peer =
  lp_node_id :: node_id
  lp_role :: replica_role

record peer_lease_info =
  pi_role :: replica_role
  pi_max_send_epoch_ms :: u64
  pi_lease_end_ms :: "u64 option"

record leader_lease =
  ll_peer_id :: node_id
  ll_lease_duration_ms :: u64
  ll_current_term :: raft_term
  ll_peers :: "peer_lease_info btree"
  ll_last_active_lease_end_ms :: "u64 option"
  ll_have_new_confirm :: bool

record leader_lease_status =
  ls_in_lease :: bool
  ls_lease_end_ms :: "u64 option"
  ls_quorum_size :: nat
  ls_voting_peer_count :: nat
  ls_reason :: string

definition leader_lease_new :: "node_id \<Rightarrow> u64 \<Rightarrow> leader_lease" where
  "leader_lease_new peer_id lease_duration_ms =
     \<lparr>ll_peer_id = peer_id, ll_lease_duration_ms = lease_duration_ms, ll_current_term = 0,
      ll_peers = [], ll_last_active_lease_end_ms = None, ll_have_new_confirm = False\<rparr>"

definition leader_lease_reset :: "raft_term \<Rightarrow> leader_lease \<Rightarrow> leader_lease" where
  "leader_lease_reset new_term l =
     l\<lparr>ll_current_term := new_term, ll_have_new_confirm := False,
       ll_peers := bt_map_values (\<lambda>i. i\<lparr>pi_max_send_epoch_ms := 0, pi_lease_end_ms := None\<rparr>) (ll_peers l)\<rparr>"

definition need_reset_node_role :: "replica_role \<Rightarrow> replica_role \<Rightarrow> bool" where
  "need_reset_node_role before after =
     (before \<noteq> after \<and> (\<not> participates_in_quorum before \<or> \<not> participates_in_quorum after)
      \<and> (before = LearnerRole \<or> after = LearnerRole))"

definition update_member :: "lease_peer \<Rightarrow> leader_lease \<Rightarrow> leader_lease" where
  "update_member p l =
     (let reset_role = (case bt_get (ll_peers l) (lp_node_id p) of
            Some info \<Rightarrow> need_reset_node_role (pi_role info) (lp_role p) | None \<Rightarrow> True)
      in if reset_role
         then l\<lparr>ll_peers := bt_insert (lp_node_id p)
                  \<lparr>pi_role = lp_role p, pi_max_send_epoch_ms = 0, pi_lease_end_ms = None\<rparr> (ll_peers l)\<rparr>
         else l\<lparr>ll_peers := bt_modify (lp_node_id p) (\<lambda>i. i\<lparr>pi_role := lp_role p\<rparr>) (ll_peers l)\<rparr>)"

definition update_members :: "lease_peer list \<Rightarrow> leader_lease \<Rightarrow> leader_lease" where
  "update_members peers l =
     (let l' = fold update_member peers l; live = map lp_node_id peers
      in l'\<lparr>ll_peers := filter (\<lambda>(node_id, _). List.member live node_id) (ll_peers l')\<rparr>)"

definition on_recv_lease_confirm ::
  "raft_term \<Rightarrow> node_id \<Rightarrow> u64 \<Rightarrow> u64 \<Rightarrow> leader_lease \<Rightarrow> bool \<times> leader_lease" where
  "on_recv_lease_confirm term from epoch_id lease_duration_ms l =
     (if term \<noteq> ll_current_term l \<or> from = ll_peer_id l then (False, l)
      else case bt_get (ll_peers l) from of
        None \<Rightarrow> (False, l)
      | Some info \<Rightarrow>
          (if epoch_id \<le> pi_max_send_epoch_ms info then (False, l)
           else (let new_end = sat_add epoch_id lease_duration_ms;
                     longer = (case pi_lease_end_ms info of Some old \<Rightarrow> old < new_end | None \<Rightarrow> True);
                     info' = info\<lparr>pi_max_send_epoch_ms := epoch_id,
                       pi_lease_end_ms := (if longer then Some new_end else pi_lease_end_ms info)\<rparr>
                 in (True, l\<lparr>ll_peers := bt_modify from (\<lambda>_. info') (ll_peers l),
                             ll_have_new_confirm := True\<rparr>))))"

definition peer_lease_end_ms :: "leader_lease \<Rightarrow> u64 \<Rightarrow> node_id \<times> peer_lease_info \<Rightarrow> u64" where
  "peer_lease_end_ms l now_ms p =
     (if fst p = ll_peer_id l then sat_add now_ms (ll_lease_duration_ms l)
      else (case pi_lease_end_ms (snd p) of Some e \<Rightarrow> e | None \<Rightarrow> 0))"

definition voting_peers :: "leader_lease \<Rightarrow> (node_id \<times> peer_lease_info) list" where
  "voting_peers l = filter (\<lambda>p. participates_in_quorum (pi_role (snd p))) (ll_peers l)"

definition voting_ends :: "leader_lease \<Rightarrow> u64 \<Rightarrow> u64 list" where
  "voting_ends l now_ms = map (peer_lease_end_ms l now_ms) (voting_peers l)"

definition INLINE_LEASE_ENDS :: nat where
  "INLINE_LEASE_ENDS = 16"

definition valid_lease_end_ms_by_counting :: "leader_lease \<Rightarrow> u64 \<Rightarrow> u64 option" where
  "valid_lease_end_ms_by_counting l now_ms =
     (let ends = voting_ends l now_ms; voting_peer_count = length (voting_peers l)
      in if voting_peer_count = 0 then None
         else fold (count_step (voting_peer_count div 2 + 1) ends) ends None)"

definition valid_lease_end_ms :: "leader_lease \<Rightarrow> u64 \<Rightarrow> u64 option" where
  "valid_lease_end_ms l now_ms =
     (let ends = voting_ends l now_ms; end_count = length ends
      in if INLINE_LEASE_ENDS < end_count then valid_lease_end_ms_by_counting l now_ms
         else if end_count = 0 then None
         else (let quorum = end_count div 2 + 1; safe_idx = end_count - quorum
               in Some (select_nth ends safe_idx)))"

definition maybe_renew_lease_point :: "u64 \<Rightarrow> leader_lease \<Rightarrow> bool \<times> leader_lease" where
  "maybe_renew_lease_point now_ms l =
     (if 1 < length (ll_peers l) \<and> \<not> ll_have_new_confirm l then (False, l)
      else (True, l\<lparr>ll_last_active_lease_end_ms := valid_lease_end_ms l now_ms,
                    ll_have_new_confirm := False\<rparr>))"

definition lease_active :: "leader_lease \<Rightarrow> u64 \<Rightarrow> bool" where
  "lease_active l now_ms = (case ll_last_active_lease_end_ms l of Some e \<Rightarrow> now_ms < e | None \<Rightarrow> False)"

definition in_lease :: "raft_term \<Rightarrow> u64 \<Rightarrow> leader_lease \<Rightarrow> bool \<times> leader_lease" where
  "in_lease term now_ms l =
     (if term \<noteq> ll_current_term l then (False, l)
      else if lease_active l now_ms then (True, l)
      else case maybe_renew_lease_point now_ms l of
             (False, l') \<Rightarrow> (False, l')
           | (True, l') \<Rightarrow> (lease_active l' now_ms, l'))"

definition status_with_reason :: "leader_lease \<Rightarrow> u64 \<Rightarrow> string \<Rightarrow> leader_lease_status" where
  "status_with_reason l now_ms reason =
     \<lparr>ls_in_lease = lease_active l now_ms, ls_lease_end_ms = ll_last_active_lease_end_ms l,
      ls_quorum_size = length (voting_peers l) div 2 + 1,
      ls_voting_peer_count = length (voting_peers l), ls_reason = reason\<rparr>"

definition status_for_mismatched_term :: "leader_lease \<Rightarrow> leader_lease_status" where
  "status_for_mismatched_term l =
     \<lparr>ls_in_lease = False, ls_lease_end_ms = None,
      ls_quorum_size = length (voting_peers l) div 2 + 1,
      ls_voting_peer_count = length (voting_peers l), ls_reason = ''term_mismatch''\<rparr>"

definition lease_status :: "raft_term \<Rightarrow> u64 \<Rightarrow> leader_lease \<Rightarrow> leader_lease_status \<times> leader_lease" where
  "lease_status term now_ms l =
     (if term \<noteq> ll_current_term l then (status_for_mismatched_term l, l)
      else if lease_active l now_ms then (status_with_reason l now_ms ''active'', l)
      else case maybe_renew_lease_point now_ms l of
             (True, l') \<Rightarrow> (status_with_reason l' now_ms ''renewed'', l')
           | (False, l') \<Rightarrow> (status_with_reason l' now_ms ''insufficient_confirmations'', l'))"

section \<open>Follower lease\<close>

record follower_lease =
  fl_peer_id :: node_id
  fl_lease_duration_ms :: u64
  fl_current_term :: raft_term
  fl_received_lease_end_ms :: "u64 option"
  fl_max_received_epoch_id :: u64

definition follower_lease_new :: "node_id \<Rightarrow> u64 \<Rightarrow> u64 \<Rightarrow> u64 \<Rightarrow> follower_lease" where
  "follower_lease_new peer_id lease_duration_ms last_lease_duration_ms now_ms =
     \<lparr>fl_peer_id = peer_id, fl_lease_duration_ms = lease_duration_ms, fl_current_term = 0,
      fl_received_lease_end_ms = (if 0 < last_lease_duration_ms
        then Some (sat_add now_ms last_lease_duration_ms) else None),
      fl_max_received_epoch_id = 0\<rparr>"

definition follower_lease_reset :: "raft_term \<Rightarrow> follower_lease \<Rightarrow> follower_lease" where
  "follower_lease_reset new_term f = f\<lparr>fl_current_term := new_term, fl_max_received_epoch_id := 0\<rparr>"

definition follower_in_lease :: "follower_lease \<Rightarrow> raft_term \<Rightarrow> u64 \<Rightarrow> bool" where
  "follower_in_lease f term now_ms =
     (if term \<noteq> fl_current_term f then False
      else (case fl_received_lease_end_ms f of Some e \<Rightarrow> now_ms < e | None \<Rightarrow> False))"

definition on_recv_lease_item :: "raft_term \<Rightarrow> u64 \<Rightarrow> u64 \<Rightarrow> follower_lease \<Rightarrow> bool \<times> follower_lease" where
  "on_recv_lease_item term epoch_id now_ms f =
     (if term \<noteq> fl_current_term f then (False, f)
      else if epoch_id \<le> fl_max_received_epoch_id f then (False, f)
      else (True, f\<lparr>fl_max_received_epoch_id := epoch_id,
                    fl_received_lease_end_ms := Some (sat_add now_ms (fl_lease_duration_ms f))\<rparr>))"

definition max_met_epoch_id :: "follower_lease \<Rightarrow> raft_term \<Rightarrow> u64" where
  "max_met_epoch_id f term = (if term \<noteq> fl_current_term f then 0 else fl_max_received_epoch_id f)"

section \<open>Selecting the lease end\<close>

lemma length_voting_ends [simp]: "length (voting_ends l now) = length (voting_peers l)"
  by (simp add: voting_ends_def)

lemma valid_lease_end_ms_eq:
  "valid_lease_end_ms l now =
     (if voting_peers l = [] then None
      else order_statistic (length (voting_peers l) div 2 + 1) (voting_ends l now))"
proof (cases "voting_peers l = []")
  case False
  let ?n = "length (voting_peers l)" and ?e = "voting_ends l now"
  have q: "\<not> ?n < ?n div 2 + 1"
  proof -
    have "0 < ?n" using False by simp
    then show ?thesis by linarith
  qed
  have "valid_lease_end_ms_by_counting l now = repeated_counting (?n div 2 + 1) ?e"
    using False q by (simp add: valid_lease_end_ms_by_counting_def repeated_counting_def Let_def)
  then show ?thesis
    using False q selections_agree [of "?n div 2 + 1" ?e]
    by (simp add: valid_lease_end_ms_def order_statistic_def Let_def)
qed (simp add: valid_lease_end_ms_def Let_def INLINE_LEASE_ENDS_def)

lemma valid_lease_end_ms_held:
  assumes "valid_lease_end_ms l now = Some e"
  shows "length (voting_peers l) div 2 + 1 \<le> holders e (voting_ends l now)"
  using assms order.select_held unfolding valid_lease_end_ms_eq by (auto split: if_splits)

section \<open>One leader and its followers\<close>

text \<open>
  One replica's leader lease, each follower's lease, the time, and the confirmations sent so
  far, which may be delivered in any order, again, or never. Terms and membership change freely:
  both leases may be reset to any term and the peers replaced at any time. An item is received
  no earlier than the send time that is its epoch. A follower restarts with a lease at least as
  long as the one it ran with, which is what the last lease duration is handed over for.
\<close>

record lease_world =
  lw_leader :: leader_lease
  lw_followers :: "node_id \<Rightarrow> follower_lease"
  lw_now :: u64
  lw_confirms :: "(node_id \<times> raft_term \<times> u64 \<times> u64) set"

inductive lease_world_step :: "lease_world \<Rightarrow> lease_world \<Rightarrow> bool" where
  tick: "lw_now w \<le> now' \<Longrightarrow> lease_world_step w (w\<lparr>lw_now := now'\<rparr>)"
| item: "epoch \<le> lw_now w \<Longrightarrow> on_recv_lease_item t epoch (lw_now w) (lw_followers w p) = (True, f') \<Longrightarrow>
     lease_world_step w (w\<lparr>lw_followers := (lw_followers w)(p := f'),
       lw_confirms := insert (p, t, epoch, fl_lease_duration_ms f') (lw_confirms w)\<rparr>)"
| confirm: "(p, t, epoch, d) \<in> lw_confirms w \<Longrightarrow>
     on_recv_lease_confirm t p epoch d (lw_leader w) = (r, l') \<Longrightarrow>
     lease_world_step w (w\<lparr>lw_leader := l'\<rparr>)"
| query: "in_lease t (lw_now w) (lw_leader w) = (r, l') \<Longrightarrow> lease_world_step w (w\<lparr>lw_leader := l'\<rparr>)"
| status: "lease_status t (lw_now w) (lw_leader w) = (s, l') \<Longrightarrow> lease_world_step w (w\<lparr>lw_leader := l'\<rparr>)"
| leader_reset: "lease_world_step w (w\<lparr>lw_leader := leader_lease_reset t (lw_leader w)\<rparr>)"
| members: "lease_world_step w (w\<lparr>lw_leader := update_members peers (lw_leader w)\<rparr>)"
| follower_reset: "lease_world_step w (w\<lparr>lw_followers :=
     (lw_followers w)(p := follower_lease_reset t (lw_followers w p))\<rparr>)"
| restart: "fl_lease_duration_ms (lw_followers w p) \<le> dl \<Longrightarrow> fl_lease_duration_ms (lw_followers w p) \<le> d \<Longrightarrow> 0 < dl \<Longrightarrow>
     lease_world_step w (w\<lparr>lw_followers := (lw_followers w)(p := follower_lease_new p d dl (lw_now w))\<rparr>)"

text \<open>The leader starts with no peers and no confirmation has been sent; the followers are arbitrary.\<close>

definition lease_world_start :: "lease_world \<Rightarrow> bool" where
  "lease_world_start w \<longleftrightarrow> lw_leader w = leader_lease_new (ll_peer_id (lw_leader w)) (ll_lease_duration_ms (lw_leader w))
     \<and> lw_confirms w = {}"

definition promised :: "lease_world \<Rightarrow> node_id \<Rightarrow> u64 \<Rightarrow> bool" where
  "promised w p e \<longleftrightarrow> e \<le> sat_add (lw_now w) (fl_lease_duration_ms (lw_followers w p))
     \<and> (\<exists>x. fl_received_lease_end_ms (lw_followers w p) = Some x \<and> e \<le> x)"

text \<open>The voters of a leader lease that are the leader or have promised up to \<^term>\<open>e\<close>.\<close>

definition backers :: "leader_lease \<Rightarrow> lease_world \<Rightarrow> u64 \<Rightarrow> (node_id \<times> peer_lease_info) list" where
  "backers l w e = filter (\<lambda>p. fst p = ll_peer_id l \<or> promised w (fst p) e) (voting_peers l)"

text \<open>Where and when a lease end was selected, and that it is still backed by a majority of the voters of that moment.\<close>

definition selected_at :: "lease_world \<Rightarrow> lease_world \<Rightarrow> u64 \<Rightarrow> lease_world \<Rightarrow> bool" where
  "selected_at w0 w e w1 \<longleftrightarrow> lease_world_step\<^sup>*\<^sup>* w0 w1 \<and> lease_world_step\<^sup>*\<^sup>* w1 w
     \<and> valid_lease_end_ms (lw_leader w1) (lw_now w1) = Some e
     \<and> length (voting_peers (lw_leader w1)) div 2 + 1 \<le> length (backers (lw_leader w1) w e)"

definition ends_promised :: "lease_world \<Rightarrow> bool" where
  "ends_promised w \<longleftrightarrow>
     (\<forall>(p, t, e, d) \<in> lw_confirms w. promised w p (sat_add e d))
     \<and> (\<forall>p i e. (p, i) \<in> set (ll_peers (lw_leader w)) \<and> pi_lease_end_ms i = Some e \<longrightarrow> promised w p e)"

definition lease_world_inv :: "lease_world \<Rightarrow> lease_world \<Rightarrow> bool" where
  "lease_world_inv w0 w \<longleftrightarrow> lease_world_step\<^sup>*\<^sup>* w0 w \<and> ends_promised w
     \<and> (\<forall>e. ll_last_active_lease_end_ms (lw_leader w) = Some e \<and> 0 < e \<longrightarrow> (\<exists>w1. selected_at w0 w e w1))"

lemma sat_add_mono: "a \<le> b \<Longrightarrow> sat_add a c \<le> sat_add b c"
  by (simp add: sat_add_def)

lemma sat_add_mono2: "b \<le> c \<Longrightarrow> sat_add a b \<le> sat_add a c"
  by (simp add: sat_add_def)

lemma item_promises:
  assumes "on_recv_lease_item t epoch now f = (True, f')"
  shows "f' = f\<lparr>fl_max_received_epoch_id := epoch, fl_received_lease_end_ms := Some (sat_add now (fl_lease_duration_ms f))\<rparr>"
  using assms by (auto simp: on_recv_lease_item_def split: if_splits)

text \<open>No step takes a promise back.\<close>

lemma lease_world_step_promised:
  assumes "lease_world_step w w'" "promised w p e"
  shows "promised w' p e"
  using assms
proof (induction rule: lease_world_step.induct)
  case (tick w now')
  have "sat_add (lw_now w) d \<le> sat_add now' d" for d by (rule sat_add_mono [OF tick(1)])
  then show ?case using tick(2) unfolding promised_def by (auto intro: le_trans)
next
  case (item epoch w t q f')
  then show ?case using item_promises [OF item(2)] by (auto simp: promised_def)
next
  case (restart w q dl d)
  have "sat_add (lw_now w) (fl_lease_duration_ms (lw_followers w q)) \<le> sat_add (lw_now w) x" if "x = dl \<or> x = d" for x
    using restart(1,2) that by (auto intro: sat_add_mono2)
  then show ?case using restart(3,4) unfolding promised_def by (auto simp: follower_lease_new_def intro: le_trans)
qed (auto simp: promised_def follower_lease_reset_def)

lemma promised_down: "promised w p e \<Longrightarrow> e' \<le> e \<Longrightarrow> promised w p e'"
  by (auto simp: promised_def)

lemma backers_mono:
  assumes "lease_world_step w w'"
  shows "length (backers l w e) \<le> length (backers l w' e)"
  unfolding backers_def by (rule length_filter_mono) (use lease_world_step_promised [OF assms] in blast)

lemma selected_at_step:
  assumes "selected_at w0 w e w1" "lease_world_step w w'"
  shows "selected_at w0 w' e w1"
  using assms backers_mono [OF assms(2), of "lw_leader w1" e] unfolding selected_at_def
  by (meson le_trans rtranclp.rtrancl_into_rtrancl)

subsection \<open>What the operations of the leader keep\<close>

text \<open>
  Every lease end recorded for a peer after an operation was recorded for it before; the cached
  end stays, or is selected now.
\<close>

definition ends_kept :: "leader_lease \<Rightarrow> leader_lease \<Rightarrow> bool" where
  "ends_kept l l' \<longleftrightarrow> (\<forall>p i e. (p, i) \<in> set (ll_peers l') \<and> pi_lease_end_ms i = Some e
     \<longrightarrow> (\<exists>i0. (p, i0) \<in> set (ll_peers l) \<and> pi_lease_end_ms i0 = Some e))"

lemma ends_kept_refl [simp]: "ends_kept l l"
  by (auto simp: ends_kept_def)

lemma ends_kept_trans: "ends_kept l l' \<Longrightarrow> ends_kept l' l'' \<Longrightarrow> ends_kept l l''"
  unfolding ends_kept_def by blast

lemma set_bt_insert: "set (bt_insert k v m) \<subseteq> insert (k, v) (set m)"
  by (induction k v m rule: bt_insert.induct) auto

lemma leader_lease_reset_kept:
  "ends_kept l (leader_lease_reset t l)" "ll_last_active_lease_end_ms (leader_lease_reset t l) = ll_last_active_lease_end_ms l"
  by (auto simp: ends_kept_def leader_lease_reset_def bt_map_values_def)

lemma update_member_kept:
  "ends_kept l (update_member p l) \<and> ll_last_active_lease_end_ms (update_member p l) = ll_last_active_lease_end_ms l"
proof -
  have "ends_kept l (l\<lparr>ll_peers := bt_insert k \<lparr>pi_role = r, pi_max_send_epoch_ms = 0, pi_lease_end_ms = None\<rparr> (ll_peers l)\<rparr>)" for k r
    using set_bt_insert [of k "\<lparr>pi_role = r, pi_max_send_epoch_ms = 0, pi_lease_end_ms = None\<rparr>" "ll_peers l"]
    by (auto simp: ends_kept_def)
  moreover have "ends_kept l (l\<lparr>ll_peers := bt_modify k (\<lambda>i. i\<lparr>pi_role := r\<rparr>) (ll_peers l)\<rparr>)" for k r
    by (fastforce simp: ends_kept_def bt_modify_def split: if_splits)
  ultimately show ?thesis by (simp add: update_member_def Let_def)
qed

lemma update_members_kept:
  "ends_kept l (update_members ps l)" "ll_last_active_lease_end_ms (update_members ps l) = ll_last_active_lease_end_ms l"
proof -
  have "ends_kept l (fold update_member ps l)
      \<and> ll_last_active_lease_end_ms (fold update_member ps l) = ll_last_active_lease_end_ms l"
    by (induction ps arbitrary: l) (use update_member_kept ends_kept_trans in \<open>fastforce+\<close>)
  then show "ends_kept l (update_members ps l)"
    "ll_last_active_lease_end_ms (update_members ps l) = ll_last_active_lease_end_ms l"
    by (auto simp: update_members_def Let_def ends_kept_def)
qed

lemma on_recv_lease_confirm_kept:
  assumes "on_recv_lease_confirm t p epoch d l = (r, l')"
  shows "ll_last_active_lease_end_ms l' = ll_last_active_lease_end_ms l"
    and "(q, i) \<in> set (ll_peers l') \<Longrightarrow> pi_lease_end_ms i = Some e \<Longrightarrow>
      q = p \<and> e = sat_add epoch d \<or> (\<exists>i0. (q, i0) \<in> set (ll_peers l) \<and> pi_lease_end_ms i0 = Some e)"
  using assms by (auto simp: on_recv_lease_confirm_def bt_modify_def bt_get_def Let_def dest!: map_of_SomeD
      split: if_splits option.splits)

lemma in_lease_cases:
  assumes "in_lease t now l = (r, l')"
  obtains "l' = l"
  | "l' = l\<lparr>ll_last_active_lease_end_ms := valid_lease_end_ms l now, ll_have_new_confirm := False\<rparr>"
  using assms by (auto simp: in_lease_def maybe_renew_lease_point_def split: if_splits prod.splits bool.splits)

lemma lease_status_cases:
  assumes "lease_status t now l = (s, l')"
  obtains "l' = l"
  | "l' = l\<lparr>ll_last_active_lease_end_ms := valid_lease_end_ms l now, ll_have_new_confirm := False\<rparr>"
  using assms by (auto simp: lease_status_def maybe_renew_lease_point_def split: if_splits prod.splits bool.splits)

subsection \<open>The invariant of the leases\<close>

text \<open>A freshly selected lease end is backed by a majority of the voting peers.\<close>

lemma selected_end_backed:
  assumes inv: "ends_promised w" and sel: "valid_lease_end_ms (lw_leader w) (lw_now w) = Some e" and "0 < e"
  shows "length (voting_peers (lw_leader w)) div 2 + 1 \<le> length (backers (lw_leader w) w e)"
proof -
  let ?l = "lw_leader w" and ?P = "\<lambda>p. e \<le> peer_lease_end_ms (lw_leader w) (lw_now w) p"
  have "fst p = ll_peer_id ?l \<or> promised w (fst p) e" if p: "p \<in> set (voting_peers ?l)" "?P p" for p
  proof (cases "fst p = ll_peer_id ?l")
    case False
    then obtain y where y: "pi_lease_end_ms (snd p) = Some y" "e \<le> y"
      using p(2) assms(3) by (auto simp: peer_lease_end_ms_def split: option.splits)
    have "(fst p, snd p) \<in> set (ll_peers ?l)" using p(1) by (simp add: voting_peers_def)
    then have "promised w (fst p) y" using inv y(1) unfolding ends_promised_def by blast
    then show ?thesis using promised_down y(2) by blast
  qed simp
  then have "filter ?P (voting_peers ?l) = filter ?P (backers ?l w e)"
    unfolding backers_def filter_filter by (intro filter_cong) auto
  then have "length (filter ?P (voting_peers ?l)) \<le> length (backers ?l w e)" by (metis length_filter_le)
  moreover have "holders e (voting_ends ?l (lw_now w)) = length (filter ?P (voting_peers ?l))"
    by (simp add: holders_def voting_ends_def filter_map comp_def)
  ultimately show ?thesis using valid_lease_end_ms_held [OF sel] by simp
qed

lemma ends_promised_kept:
  assumes "ends_promised w" "ends_kept (lw_leader w) l'"
  shows "ends_promised (w\<lparr>lw_leader := l'\<rparr>)"
proof -
  have "promised (w\<lparr>lw_leader := l'\<rparr>) p e \<longleftrightarrow> promised w p e" for p e by (simp add: promised_def)
  then show ?thesis using assms unfolding ends_promised_def ends_kept_def by (auto; blast)
qed

lemma ends_promised_step:
  assumes step: "lease_world_step w w'" and inv: "ends_promised w"
  shows "ends_promised w'"
  using step inv lease_world_step_promised [OF step]
proof (induction rule: lease_world_step.induct)
  case (item epoch w t q f')
  have "promised (w\<lparr>lw_followers := (lw_followers w)(q := f'), lw_confirms := insert (q, t, epoch, fl_lease_duration_ms f') (lw_confirms w)\<rparr>)
      q (sat_add epoch (fl_lease_duration_ms f'))"
    using item_promises [OF item(2)] sat_add_mono [OF item(1)] by (simp add: promised_def)
  then show ?case using item(3,4) unfolding ends_promised_def by auto
next
  case (confirm p t epoch d w r l')
  show ?case using confirm(1,3,4) on_recv_lease_confirm_kept(2) [OF confirm(2)]
    unfolding ends_promised_def by (auto; blast)
next
  case (query t w r l')
  from query(1) have "ll_peers l' = ll_peers (lw_leader w)" by (cases rule: in_lease_cases) auto
  then show ?case using query(2) by (intro ends_promised_kept) (auto simp: ends_kept_def)
next
  case (status t w s l')
  from status(1) have "ll_peers l' = ll_peers (lw_leader w)" by (cases rule: lease_status_cases) auto
  then show ?case using status(2) by (intro ends_promised_kept) (auto simp: ends_kept_def)
next
  case (leader_reset w t)
  then show ?case by (intro ends_promised_kept leader_lease_reset_kept)
next
  case (members w peers)
  then show ?case by (intro ends_promised_kept update_members_kept)
qed (auto simp: ends_promised_def)

text \<open>A step leaves the cached end alone or caches the end selected in the state it starts from.\<close>

lemma step_cached_end:
  assumes "lease_world_step w w'"
  shows "ll_last_active_lease_end_ms (lw_leader w') \<in>
    {ll_last_active_lease_end_ms (lw_leader w), valid_lease_end_ms (lw_leader w) (lw_now w)}"
  using assms
proof (induction rule: lease_world_step.induct)
  case (confirm p t epoch d w r l')
  then show ?case using on_recv_lease_confirm_kept(1) [OF confirm(2)] by simp
next
  case (query t w r l')
  then show ?case by (cases rule: in_lease_cases) auto
next
  case (status t w s l')
  then show ?case by (cases rule: lease_status_cases) auto
qed (simp_all add: leader_lease_reset_kept update_members_kept)

lemma lease_world_inv_step:
  assumes step: "lease_world_step w w'" and inv: "lease_world_inv w0 w"
  shows "lease_world_inv w0 w'"
proof -
  have run: "lease_world_step\<^sup>*\<^sup>* w0 w" and prom: "ends_promised w" using inv by (auto simp: lease_world_inv_def)
  have "\<exists>w1. selected_at w0 w e w1" if "ll_last_active_lease_end_ms (lw_leader w') = Some e" "0 < e" for e
  proof (cases "ll_last_active_lease_end_ms (lw_leader w) = Some e")
    case False
    then have "valid_lease_end_ms (lw_leader w) (lw_now w) = Some e" using step_cached_end [OF step] that(1) by auto
    then have "selected_at w0 w e w" using run selected_end_backed [OF prom _ that(2)] by (simp add: selected_at_def)
    then show ?thesis ..
  qed (use inv that(2) in \<open>simp add: lease_world_inv_def\<close>)
  then show ?thesis
    using run step ends_promised_step [OF step prom] selected_at_step [OF _ step]
    unfolding lease_world_inv_def by (meson rtranclp.rtrancl_into_rtrancl)
qed

lemma lease_world_run_inv:
  assumes "lease_world_step\<^sup>*\<^sup>* w0 w" "lease_world_start w0"
  shows "lease_world_inv w0 w"
  using assms(1)
proof (induction rule: rtranclp_induct)
  case base
  have "ll_peers (lw_leader w0) = []" "ll_last_active_lease_end_ms (lw_leader w0) = None"
    using assms(2) unfolding lease_world_start_def by (metis leader_lease.select_convs leader_lease_new_def)+
  then show ?case using assms(2) by (simp add: lease_world_inv_def ends_promised_def lease_world_start_def)
qed (blast intro: lease_world_inv_step)

section \<open>Properties\<close>

text \<open>
  C26: The lease end of a group of any size is the same whether it is selected as an order
  statistic or by repeated counting: the greatest instant that a majority of the voting peers'
  leases reach.
\<close>

theorem lease_end_is_quorum_maximum:
  assumes "voting_peers l \<noteq> []"
  shows "valid_lease_end_ms_by_counting l now = valid_lease_end_ms l now
    \<and> (valid_lease_end_ms l now = Some e \<longleftrightarrow>
         e \<in> set (voting_ends l now)
         \<and> length (voting_peers l) div 2 + 1 \<le> holders e (voting_ends l now)
         \<and> (\<forall>w. length (voting_peers l) div 2 + 1 \<le> holders w (voting_ends l now) \<longrightarrow> w \<le> e))"
proof -
  let ?n = "length (voting_peers l)"
  have "0 < ?n" using assms by simp
  then have "\<not> ?n < ?n div 2 + 1" by linarith
  then have "valid_lease_end_ms_by_counting l now = repeated_counting (?n div 2 + 1) (voting_ends l now)"
    using assms by (simp add: valid_lease_end_ms_by_counting_def repeated_counting_def Let_def)
  then show ?thesis
    using assms by (simp add: valid_lease_end_ms_eq selections_agree order.select_iff)
qed

text \<open>
  C6: Lease safety across terms and membership changes. Whatever items and confirmations were
  delivered, however late or often, and however the terms were reset and the peers replaced,
  when a leader reports itself in lease, the end of that lease was selected at some moment of
  the run, and a majority of those who were voting peers at that moment are the leader itself or
  followers that are still inside the lease they granted, whatever term they are in by now.
\<close>

theorem leader_lease_backed_by_majority:
  assumes "lease_world_step\<^sup>*\<^sup>* w0 w" "lease_world_start w0"
    and "in_lease t (lw_now w) (lw_leader w) = (True, l')"
  shows "\<exists>e w1. ll_last_active_lease_end_ms l' = Some e \<and> lw_now w < e
    \<and> lease_world_step\<^sup>*\<^sup>* w0 w1 \<and> lease_world_step\<^sup>*\<^sup>* w1 w
    \<and> valid_lease_end_ms (lw_leader w1) (lw_now w1) = Some e
    \<and> length (voting_peers (lw_leader w1)) div 2 + 1
      \<le> length (filter (\<lambda>p. fst p = ll_peer_id (lw_leader w1)
          \<or> follower_in_lease (lw_followers w (fst p)) (fl_current_term (lw_followers w (fst p))) (lw_now w))
          (voting_peers (lw_leader w1)))"
proof -
  have inv: "lease_world_inv w0 w" by (rule lease_world_run_inv [OF assms(1,2)])
  have "lease_active l' (lw_now w)"
    using assms(3) by (auto simp: in_lease_def split: if_splits prod.splits bool.splits)
  then obtain e where e: "ll_last_active_lease_end_ms l' = Some e" "lw_now w < e"
    by (auto simp: lease_active_def split: option.splits)
  obtain w1 where w1: "selected_at w0 w e w1"
  proof (cases "ll_last_active_lease_end_ms (lw_leader w) = Some e")
    case True
    then show thesis using inv e(2) that by (auto simp: lease_world_inv_def)
  next
    case False
    then have "valid_lease_end_ms (lw_leader w) (lw_now w) = Some e"
      using step_cached_end [OF lease_world_step.query [OF assms(3)]] e(1) by simp
    moreover have "ends_promised w" using inv by (simp add: lease_world_inv_def)
    ultimately show thesis using that [of w] assms(1) selected_end_backed [of w e] e(2) by (simp add: selected_at_def)
  qed
  have "length (backers (lw_leader w1) w e) \<le> length (filter (\<lambda>p. fst p = ll_peer_id (lw_leader w1)
      \<or> follower_in_lease (lw_followers w (fst p)) (fl_current_term (lw_followers w (fst p))) (lw_now w)) (voting_peers (lw_leader w1)))"
    unfolding backers_def using e(2) by (auto simp: promised_def follower_in_lease_def intro!: length_filter_mono)
  then show ?thesis using w1 e unfolding selected_at_def by (meson le_trans)
qed

definition sample_lease :: leader_lease where
  "sample_lease = leader_lease_reset 1 (update_members
     [\<lparr>lp_node_id = 1, lp_role = VoterRole\<rparr>, \<lparr>lp_node_id = 2, lp_role = VoterRole\<rparr>,
      \<lparr>lp_node_id = 3, lp_role = WitnessRole\<rparr>] (leader_lease_new 1 50))"

theorem lease_end_is_quorum_maximum_witness:
  "valid_lease_end_ms (snd (on_recv_lease_confirm 1 2 95 50 sample_lease)) 100 = Some 145
   \<and> 2 \<le> holders 145 (voting_ends (snd (on_recv_lease_confirm 1 2 95 50 sample_lease)) 100)"
proof -
  let ?l = "snd (on_recv_lease_confirm 1 2 95 50 sample_lease)"
  have "voting_peers ?l \<noteq> []" "length (voting_peers ?l) div 2 + 1 = 2" "valid_lease_end_ms ?l 100 = Some 145"
    by code_simp+
  with lease_end_is_quorum_maximum [of ?l 100 145] show ?thesis by metis
qed

text \<open>
  The witness run: the leader of three voters is confirmed by follower 2 in term 1 and selects
  the lease end 150; then two voters join and the leader moves to term 2, where it still reports
  itself in lease at 120, backed by two of the three voters it had and by no majority of the
  five it has.
\<close>

definition voter_ids :: "nat list \<Rightarrow> lease_peer list" where
  "voter_ids ids = map (\<lambda>i. \<lparr>lp_node_id = i, lp_role = VoterRole\<rparr>) ids"

definition sample_world :: lease_world where
  "sample_world = \<lparr>lw_leader = leader_lease_new 1 50, lw_followers = (\<lambda>p. follower_lease_reset 1 (follower_lease_new p 50 0 0)),
     lw_now = 100, lw_confirms = {}\<rparr>"

definition grown_lease :: leader_lease where
  "grown_lease = leader_lease_reset 2 (update_members (voter_ids [1, 2, 3, 4, 5])
     (snd (in_lease 1 100 (snd (on_recv_lease_confirm 1 2 100 50
       (leader_lease_reset 1 (update_members (voter_ids [1, 2, 3]) (leader_lease_new 1 50))))))))"

definition granted_followers :: "node_id \<Rightarrow> follower_lease" where
  "granted_followers = (lw_followers sample_world)(2 := snd (on_recv_lease_item 1 100 100 (lw_followers sample_world 2)))"

definition grown_world :: lease_world where
  "grown_world = \<lparr>lw_leader = grown_lease, lw_followers = granted_followers, lw_now = 120, lw_confirms = {(2, 1, 100, 50)}\<rparr>"

lemma lease_world_step_leader:
  assumes "lease_world_step\<^sup>*\<^sup>* w0 w" "lease_world_step w (w\<lparr>lw_leader := l\<rparr>)" "w' = w\<lparr>lw_leader := l\<rparr>"
  shows "lease_world_step\<^sup>*\<^sup>* w0 w'"
  using assms by simp

lemma grown_world_reached: "lease_world_step\<^sup>*\<^sup>* sample_world grown_world"
proof -
  let ?f0 = "lw_followers sample_world 2"
  let ?w = "\<lambda>l fs cs. \<lparr>lw_leader = l, lw_followers = fs, lw_now = 100, lw_confirms = cs\<rparr>"
  let ?C = "{(2, 1, 100, 50)} :: (node_id \<times> raft_term \<times> u64 \<times> u64) set"
  define l0 where "l0 = leader_lease_reset 1 (update_members (voter_ids [1, 2, 3]) (leader_lease_new 1 50))"
  define l1 where "l1 = snd (on_recv_lease_confirm 1 2 100 50 l0)"
  define l2 where "l2 = snd (in_lease 1 100 l1)"
  have "lease_world_step\<^sup>*\<^sup>* sample_world (?w (update_members (voter_ids [1, 2, 3]) (leader_lease_new 1 50)) (lw_followers sample_world) {})"
    using lease_world_step.members [of sample_world "voter_ids [1, 2, 3]"] by (simp add: sample_world_def)
  then have "lease_world_step\<^sup>*\<^sup>* sample_world (?w l0 (lw_followers sample_world) {})"
    by (rule lease_world_step_leader [OF _ lease_world_step.leader_reset [of _ 1]]) (simp add: l0_def)
  moreover have "on_recv_lease_item 1 100 100 ?f0 = (True, granted_followers 2)" "fl_lease_duration_ms (granted_followers 2) = 50"
    by code_simp+
  then have "lease_world_step (?w l0 (lw_followers sample_world) {}) (?w l0 granted_followers ?C)"
    using lease_world_step.item [of 100 "?w l0 (lw_followers sample_world) {}" 1 2 "granted_followers 2"]
    by (simp add: granted_followers_def)
  ultimately have "lease_world_step\<^sup>*\<^sup>* sample_world (?w l0 granted_followers ?C)" by simp
  then have "lease_world_step\<^sup>*\<^sup>* sample_world (?w l1 granted_followers ?C)"
    by (rule lease_world_step_leader [OF _ lease_world_step.confirm [of 2 1 100 50 _ "fst (on_recv_lease_confirm 1 2 100 50 l0)" l1]])
      (simp_all add: l1_def)
  then have "lease_world_step\<^sup>*\<^sup>* sample_world (?w l2 granted_followers ?C)"
    by (rule lease_world_step_leader [OF _ lease_world_step.query [of 1 _ "fst (in_lease 1 100 l1)" l2]]) (simp_all add: l2_def)
  then have "lease_world_step\<^sup>*\<^sup>* sample_world (?w (update_members (voter_ids [1, 2, 3, 4, 5]) l2) granted_followers ?C)"
    by (rule lease_world_step_leader [OF _ lease_world_step.members]) simp
  then have "lease_world_step\<^sup>*\<^sup>* sample_world (?w grown_lease granted_followers ?C)"
    by (rule lease_world_step_leader [OF _ lease_world_step.leader_reset [of _ 2]])
      (simp add: grown_lease_def l0_def l1_def l2_def)
  moreover have "lease_world_step (?w grown_lease granted_followers ?C) grown_world"
    using lease_world_step.tick [of "?w grown_lease granted_followers ?C" 120] by (simp add: grown_world_def)
  ultimately show ?thesis by simp
qed

theorem leader_lease_backed_by_majority_witness:
  "fst (in_lease 2 120 grown_lease) \<and> length (voting_peers grown_lease) = 5
   \<and> (\<exists>w1. lease_world_step\<^sup>*\<^sup>* sample_world w1 \<and> lease_world_step\<^sup>*\<^sup>* w1 grown_world
      \<and> valid_lease_end_ms (lw_leader w1) (lw_now w1) = Some 150
      \<and> length (voting_peers (lw_leader w1)) div 2 + 1
        \<le> length (filter (\<lambda>p. fst p = ll_peer_id (lw_leader w1)
            \<or> follower_in_lease (granted_followers (fst p)) (fl_current_term (granted_followers (fst p))) 120)
            (voting_peers (lw_leader w1))))"
proof -
  have 1: "fst (in_lease 2 120 grown_lease)" "length (voting_peers grown_lease) = 5"
    "ll_last_active_lease_end_ms (snd (in_lease 2 120 grown_lease)) = Some 150"
    by code_simp+
  have q: "in_lease 2 (lw_now grown_world) (lw_leader grown_world) = (True, snd (in_lease 2 120 grown_lease))"
    using 1(1) by (simp add: grown_world_def prod_eq_iff)
  have "lease_world_start sample_world" by (simp add: lease_world_start_def sample_world_def leader_lease_new_def)
  from leader_lease_backed_by_majority [OF grown_world_reached this q] 1 show ?thesis
    by (auto simp: grown_world_def)
qed

end
