(* ===== verification/MR_Rate_Limit.thy ===== *)
theory MR_Rate_Limit
  imports MR_Prelude
begin

text \<open>
  The byte quota limiter of \<^verbatim>\<open>rate_limit.rs\<close> and its refiller. The trait \<^verbatim>\<open>RateLimiter\<close> is the
  locale \<open>rate_limiter\<close>: what a reservation, a limited reservation and a refill do to the
  available bytes; conservation over any sequence of calls is proved in it once.
\<close>

section \<open>The trait\<close>

record rate_limit_decision =
  rd_allowed :: bool
  rd_requested_bytes :: u64
  rd_granted_bytes :: u64
  rd_available_before :: u64
  rd_available_after :: u64
  rd_reason :: string

datatype limiter_call = ReserveBytes u64 | ReserveLimitedBytes u64 | RefillBytes u64

locale rate_limiter =
  fixes reserve :: "u64 \<Rightarrow> 's \<Rightarrow> rate_limit_decision \<times> 's"
    and reserve_limited :: "u64 \<Rightarrow> 's \<Rightarrow> rate_limit_decision \<times> 's"
    and refill :: "u64 \<Rightarrow> 's \<Rightarrow> 's"
    and available :: "'s \<Rightarrow> u64"
    and capacity :: "'s \<Rightarrow> u64"
  assumes reserve_spends: "reserve r s = (d, s') \<Longrightarrow>
      available s' + rd_granted_bytes d = available s \<and> capacity s' = capacity s"
    and reserve_whole: "reserve r s = (d, s') \<Longrightarrow> rd_granted_bytes d = (if rd_allowed d then r else 0)"
    and limited_spends: "reserve_limited r s = (d, s') \<Longrightarrow>
      available s' + rd_granted_bytes d = available s \<and> capacity s' = capacity s"
    and refill_adds: "available s \<le> capacity s \<Longrightarrow> capacity s \<le> u64_max \<Longrightarrow>
      available (refill b s) = min (available s + b) (capacity s) \<and> capacity (refill b s) = capacity s"
begin

fun call :: "limiter_call \<Rightarrow> 's \<Rightarrow> u64 \<times> 's" where
  "call (ReserveBytes r) s = (case reserve r s of (d, s') \<Rightarrow> (rd_granted_bytes d, s'))"
| "call (ReserveLimitedBytes r) s = (case reserve_limited r s of (d, s') \<Rightarrow> (rd_granted_bytes d, s'))"
| "call (RefillBytes b) s = (0, refill b s)"

primrec calls :: "limiter_call list \<Rightarrow> 's \<Rightarrow> u64 \<times> 's" where
  "calls [] s = (0, s)"
| "calls (c # cs) s = (case call c s of (g, s') \<Rightarrow> (case calls cs s' of (g', s'') \<Rightarrow> (g + g', s'')))"

primrec refilled :: "limiter_call list \<Rightarrow> u64" where
  "refilled [] = 0"
| "refilled (c # cs) = (case c of RefillBytes b \<Rightarrow> b | _ \<Rightarrow> 0) + refilled cs"

lemma call_bounded:
  assumes "available s \<le> capacity s" "capacity s \<le> u64_max" "call c s = (g, s')"
  shows "available s' \<le> capacity s' \<and> capacity s' = capacity s
    \<and> g + available s' \<le> available s + refilled [c]"
proof (cases c)
  case (ReserveBytes r)
  obtain d where "reserve r s = (d, s')" "g = rd_granted_bytes d"
    using assms(3) ReserveBytes by (auto split: prod.splits)
  with reserve_spends [of r s d s'] assms(1) show ?thesis by (auto simp: ReserveBytes)
next
  case (ReserveLimitedBytes r)
  obtain d where "reserve_limited r s = (d, s')" "g = rd_granted_bytes d"
    using assms(3) ReserveLimitedBytes by (auto split: prod.splits)
  with limited_spends [of r s d s'] assms(1) show ?thesis by (auto simp: ReserveLimitedBytes)
next
  case (RefillBytes b)
  then show ?thesis using assms refill_adds [OF assms(1,2), of b] by auto
qed

lemma calls_bounded:
  assumes "available s \<le> capacity s" "capacity s \<le> u64_max" "calls cs s = (g, s')"
  shows "available s' \<le> capacity s' \<and> capacity s' = capacity s
    \<and> g + available s' \<le> available s + refilled cs"
  using assms
proof (induction cs arbitrary: s g)
  case (Cons c cs)
  obtain g1 s1 g2 where c: "call c s = (g1, s1)" "calls cs s1 = (g2, s')" "g = g1 + g2"
    using Cons.prems(3) by (auto split: prod.splits)
  have 1: "available s1 \<le> capacity s1 \<and> capacity s1 = capacity s \<and> g1 + available s1 \<le> available s + refilled [c]"
    by (rule call_bounded [OF Cons.prems(1,2) c(1)])
  then have "available s' \<le> capacity s' \<and> capacity s' = capacity s1 \<and> g2 + available s' \<le> available s1 + refilled cs"
    using Cons.IH [OF _ _ c(2)] Cons.prems(2) by simp
  with 1 c(3) show ?case by auto
qed simp

end

section \<open>The byte quota limiter\<close>

record rate_limiter_stats =
  rs_total_granted_bytes :: u64
  rs_total_rejected_bytes :: u64
  rs_total_refilled_bytes :: u64
  rs_grant_count :: u64
  rs_rejection_count :: u64

record byte_quota_limiter =
  bq_capacity_bytes :: u64
  bq_available_bytes :: u64
  bq_stats :: rate_limiter_stats

definition with_available :: "u64 \<Rightarrow> u64 \<Rightarrow> byte_quota_limiter" where
  "with_available capacity_bytes available_bytes =
     \<lparr>bq_capacity_bytes = capacity_bytes, bq_available_bytes = min available_bytes capacity_bytes,
      bq_stats = \<lparr>rs_total_granted_bytes = 0, rs_total_rejected_bytes = 0, rs_total_refilled_bytes = 0,
                  rs_grant_count = 0, rs_rejection_count = 0\<rparr>\<rparr>"

definition limiter_new :: "u64 \<Rightarrow> byte_quota_limiter" where
  "limiter_new capacity_bytes = with_available capacity_bytes capacity_bytes"

definition limiter_decision :: "bool \<Rightarrow> u64 \<Rightarrow> u64 \<Rightarrow> u64 \<Rightarrow> u64 \<Rightarrow> string \<Rightarrow> rate_limit_decision" where
  "limiter_decision allowed requested granted available_before available_after reason =
     \<lparr>rd_allowed = allowed, rd_requested_bytes = requested, rd_granted_bytes = granted,
      rd_available_before = available_before, rd_available_after = available_after, rd_reason = reason\<rparr>"

definition count_rejection :: "u64 \<Rightarrow> byte_quota_limiter \<Rightarrow> byte_quota_limiter" where
  "count_rejection requested l =
     l\<lparr>bq_stats := (bq_stats l)\<lparr>rs_rejection_count := sat_add (rs_rejection_count (bq_stats l)) 1,
        rs_total_rejected_bytes := sat_add (rs_total_rejected_bytes (bq_stats l)) requested\<rparr>\<rparr>"

definition count_grant :: "u64 \<Rightarrow> byte_quota_limiter \<Rightarrow> byte_quota_limiter" where
  "count_grant granted l =
     l\<lparr>bq_stats := (bq_stats l)\<lparr>rs_grant_count := sat_add (rs_grant_count (bq_stats l)) 1,
        rs_total_granted_bytes := sat_add (rs_total_granted_bytes (bq_stats l)) granted\<rparr>\<rparr>"

definition reserve_bytes :: "u64 \<Rightarrow> byte_quota_limiter \<Rightarrow> rate_limit_decision \<times> byte_quota_limiter" where
  "reserve_bytes requested l =
     (let available_before = bq_available_bytes l
      in if requested = 0
         then (limiter_decision True requested 0 available_before available_before ''zero_request'', l)
         else if bq_capacity_bytes l < requested
         then (limiter_decision False requested 0 available_before available_before
                 ''request_exceeds_capacity'', count_rejection requested l)
         else if bq_available_bytes l < requested
         then (limiter_decision False requested 0 available_before available_before
                 ''quota_unavailable'', count_rejection requested l)
         else (let l' = count_grant requested (l\<lparr>bq_available_bytes := bq_available_bytes l - requested\<rparr>)
               in (limiter_decision True requested requested available_before (bq_available_bytes l')
                     ''granted'', l')))"

definition reserve_limited_bytes :: "u64 \<Rightarrow> byte_quota_limiter \<Rightarrow> rate_limit_decision \<times> byte_quota_limiter" where
  "reserve_limited_bytes requested l =
     (let available_before = bq_available_bytes l
      in if requested = 0
         then (limiter_decision True requested 0 available_before available_before ''zero_request'', l)
         else if bq_capacity_bytes l = 0 \<or> bq_available_bytes l = 0
         then (limiter_decision False requested 0 available_before available_before
                 ''quota_unavailable'', count_rejection requested l)
         else (let granted = min requested (bq_available_bytes l);
                   l' = count_grant granted (l\<lparr>bq_available_bytes := bq_available_bytes l - granted\<rparr>)
               in (limiter_decision True requested granted available_before (bq_available_bytes l')
                     (if granted = requested then ''granted'' else ''partial_granted''), l')))"

definition refill_bytes :: "u64 \<Rightarrow> byte_quota_limiter \<Rightarrow> byte_quota_limiter" where
  "refill_bytes bytes l =
     (let available_before = bq_available_bytes l;
          l' = l\<lparr>bq_available_bytes := min (sat_add (bq_available_bytes l) bytes) (bq_capacity_bytes l)\<rparr>
      in l'\<lparr>bq_stats := (bq_stats l')\<lparr>rs_total_refilled_bytes :=
              sat_add (rs_total_refilled_bytes (bq_stats l')) (bq_available_bytes l' - available_before)\<rparr>\<rparr>)"

text \<open>The refiller: its own two wrapping counters around the shared limiter.\<close>

record rate_limiter_refiller =
  rr_limiter :: byte_quota_limiter
  rr_refills :: u64
  rr_bytes_restored :: u64

definition refill_now :: "rate_limiter_refiller \<Rightarrow> u64 \<times> rate_limiter_refiller" where
  "refill_now r =
     (let l = rr_limiter r; missing = bq_capacity_bytes l - bq_available_bytes l;
          l' = (if 0 < missing then refill_bytes missing l else l)
      in (missing, r\<lparr>rr_limiter := l', rr_refills := wrap_add (rr_refills r) 1,
                     rr_bytes_restored := wrap_add (rr_bytes_restored r) missing\<rparr>))"

lemmas limiter_defs = reserve_bytes_def reserve_limited_bytes_def refill_bytes_def limiter_decision_def
  count_rejection_def count_grant_def Let_def

interpretation quota: rate_limiter reserve_bytes reserve_limited_bytes refill_bytes
  bq_available_bytes bq_capacity_bytes
proof unfold_locales
  show "bq_available_bytes (refill_bytes b s) = min (bq_available_bytes s + b) (bq_capacity_bytes s)
      \<and> bq_capacity_bytes (refill_bytes b s) = bq_capacity_bytes s"
    if "bq_available_bytes s \<le> bq_capacity_bytes s" "bq_capacity_bytes s \<le> u64_max" for s b
    using that by (auto simp: refill_bytes_def Let_def sat_add_def min_def)
qed (auto simp: limiter_defs split: if_splits)

section \<open>Properties\<close>

text \<open>
  C28: The limiter conserves bytes. Over any sequence of whole reservations, limited
  reservations and refills, what was granted plus what is left never exceeds what was
  available at the start plus what was refilled, and the available bytes never exceed the
  capacity, which never changes.
\<close>

theorem limiter_conserves_bytes:
  assumes "capacity \<le> u64_max" "quota.calls cs (with_available capacity avail) = (granted, l)"
  shows "granted + bq_available_bytes l \<le> min avail capacity + quota.refilled cs
    \<and> bq_available_bytes l \<le> capacity \<and> bq_capacity_bytes l = capacity"
  using quota.calls_bounded [OF _ _ assms(2)] assms(1) by (simp add: with_available_def)

theorem limiter_conserves_bytes_witness:
  "fst (quota.calls [ReserveBytes 60, ReserveLimitedBytes 90, RefillBytes 20, ReserveBytes 30] (with_available 100 100)) = 100
   \<and> bq_available_bytes (snd (quota.calls [ReserveBytes 60, ReserveLimitedBytes 90, RefillBytes 20, ReserveBytes 30]
        (with_available 100 100))) \<le> 100"
proof -
  let ?r = "quota.calls [ReserveBytes 60, ReserveLimitedBytes 90, RefillBytes 20, ReserveBytes 30] (with_available 100 100)"
  have "fst ?r = 100"
    unfolding quota.calls.simps quota.call.simps by code_simp
  moreover have "?r = (fst ?r, snd ?r)" by (rule prod.collapse [symmetric])
  moreover have "100 \<le> u64_max" by (simp add: u64_max_def)
  ultimately show ?thesis using limiter_conserves_bytes by blast
qed

text \<open>
  C32: After a refill tick every reservation up to the capacity succeeds in full, so a configured
  limiter that is refilled cannot stay empty; without bytes a whole reservation is refused and
  leaves the quota as it was.
\<close>

theorem refill_restores_service:
  assumes "bq_available_bytes (rr_limiter r) \<le> bq_capacity_bytes (rr_limiter r)"
    and "bq_capacity_bytes (rr_limiter r) \<le> u64_max" "n \<le> bq_capacity_bytes (rr_limiter r)"
  shows "bq_available_bytes (rr_limiter (snd (refill_now r))) = bq_capacity_bytes (rr_limiter r)
    \<and> rd_allowed (fst (reserve_bytes n (rr_limiter (snd (refill_now r)))))
    \<and> (bq_available_bytes (rr_limiter r) < n \<longrightarrow>
         \<not> rd_allowed (fst (reserve_bytes n (rr_limiter r)))
         \<and> bq_available_bytes (snd (reserve_bytes n (rr_limiter r))) = bq_available_bytes (rr_limiter r))"
proof -
  let ?l = "rr_limiter r"
  have "bq_available_bytes (rr_limiter (snd (refill_now r))) = bq_capacity_bytes ?l
      \<and> bq_capacity_bytes (rr_limiter (snd (refill_now r))) = bq_capacity_bytes ?l"
    using assms(1,2) quota.refill_adds [OF assms(1,2), of "bq_capacity_bytes ?l - bq_available_bytes ?l"]
    by (auto simp: refill_now_def Let_def)
  then show ?thesis using assms(3) by (auto simp: limiter_defs)
qed

theorem refill_restores_service_witness:
  "rd_allowed (fst (reserve_bytes 80 (rr_limiter (snd (refill_now
     \<lparr>rr_limiter = with_available 100 5, rr_refills = 0, rr_bytes_restored = 0\<rparr>)))))"
  using refill_restores_service [of "\<lparr>rr_limiter = with_available 100 5, rr_refills = 0, rr_bytes_restored = 0\<rparr>" 80]
  by (simp add: with_available_def u64_max_def)

end
