(* ===== verification/MR_Unique_Id.thy ===== *)
theory MR_Unique_Id
  imports MR_Prelude "HOL-Library.Word"
begin

text \<open>
  The packed unique identifiers of \<^verbatim>\<open>unique_id.rs\<close>: 16 bits of member, 40 bits of timestamp and
  8 bits of counter in one 64-bit word. The atomic increment makes concurrent calls a sequence,
  so the generator is a state that each call advances.
\<close>

unbundle bit_operations_syntax

section \<open>The generator\<close>

definition MEMBER_BITS :: nat where "MEMBER_BITS = 16"
definition TIMESTAMP_BITS :: nat where "TIMESTAMP_BITS = 40"
definition COUNTER_BITS :: nat where "COUNTER_BITS = 8"

definition low_mask :: "nat \<Rightarrow> 64 word" where
  "low_mask bits = push_bit bits 1 - 1"

record unique_id_generator =
  ug_member_prefix :: "64 word"
  ug_timestamp_and_counter :: "64 word"

record unique_id_parts =
  up_member_id :: "64 word"
  up_timestamp_millis :: "64 word"
  up_counter :: "64 word"

definition generator_new :: "64 word \<Rightarrow> 64 word \<Rightarrow> unique_id_generator" where
  "generator_new member_id time_millis =
     \<lparr>ug_member_prefix = push_bit (TIMESTAMP_BITS + COUNTER_BITS) (member_id AND low_mask MEMBER_BITS),
      ug_timestamp_and_counter = push_bit COUNTER_BITS (time_millis AND low_mask TIMESTAMP_BITS)\<rparr>"

definition low_bits :: "64 word \<Rightarrow> nat \<Rightarrow> 64 word" where
  "low_bits v bits = (if 64 \<le> bits then v else v AND low_mask bits)"

definition next_id :: "unique_id_generator \<Rightarrow> 64 word \<times> unique_id_generator" where
  "next_id g =
     (let tc = ug_timestamp_and_counter g + 1
      in (ug_member_prefix g OR low_bits tc (TIMESTAMP_BITS + COUNTER_BITS),
          g\<lparr>ug_timestamp_and_counter := tc\<rparr>))"

definition decode :: "64 word \<Rightarrow> unique_id_parts" where
  "decode i =
     \<lparr>up_member_id = drop_bit (TIMESTAMP_BITS + COUNTER_BITS) i AND low_mask MEMBER_BITS,
      up_timestamp_millis = drop_bit COUNTER_BITS i AND low_mask TIMESTAMP_BITS,
      up_counter = i AND low_mask COUNTER_BITS\<rparr>"

text \<open>The identifiers of the first \<open>n\<close> calls, in order.\<close>

fun generate :: "nat \<Rightarrow> unique_id_generator \<Rightarrow> 64 word list" where
  "generate 0 g = []"
| "generate (Suc n) g = (let (i, g') = next_id g in i # generate n g')"

section \<open>Bit fields\<close>

lemma low_mask_eq: "low_mask n = mask n"
  by (simp add: low_mask_def mask_eq_exp_minus_1 push_bit_eq_mult)

lemma and_low_mask: "v AND low_mask n = take_bit n v"
  by (simp add: low_mask_eq take_bit_eq_mask)

lemma bits_def [simp]: "MEMBER_BITS = 16" "TIMESTAMP_BITS = 40" "COUNTER_BITS = 8"
  by (simp_all add: MEMBER_BITS_def TIMESTAMP_BITS_def COUNTER_BITS_def)

lemma next_id_eq:
  "next_id g = (ug_member_prefix g OR take_bit 48 (ug_timestamp_and_counter g + 1),
     g\<lparr>ug_timestamp_and_counter := ug_timestamp_and_counter g + 1\<rparr>)"
  by (simp add: next_id_def low_bits_def and_low_mask Let_def)

lemma take_bit_prefix: "take_bit 48 (push_bit 48 a OR b) = take_bit 48 (b :: 64 word)"
  by (rule bit_word_eqI) (auto simp: bit_simps)

lemma drop_bit_prefix:
  "take_bit 16 (drop_bit 48 (push_bit 48 (take_bit 16 a) OR take_bit 48 b)) = take_bit 16 (a :: 64 word)"
  by (rule bit_word_eqI) (auto simp: bit_simps)

lemma take_drop_split:
  "push_bit 8 (take_bit 40 (drop_bit 8 i)) OR take_bit 8 i = take_bit 48 (i :: 64 word)"
  by (rule bit_word_eqI) (auto simp: bit_simps)

lemma generate_nth:
  "k < n \<Longrightarrow> generate n g ! k =
     ug_member_prefix g OR take_bit 48 (ug_timestamp_and_counter g + of_nat (Suc k))"
  by (induction n g arbitrary: k rule: generate.induct)
    (auto simp: next_id_eq nth_Cons add.assoc split: nat.split)

lemma length_generate [simp]: "length (generate n g) = n"
  by (induction n g rule: generate.induct) (auto split: prod.split)

lemma unat_take_bit_48: "unat (take_bit 48 (w :: 64 word)) = unat w mod 2 ^ 48"
  by (simp only: unsigned_take_bit_eq take_bit_nat_def)

lemma unat_shift_mod: "unat (w + of_nat i :: 64 word) mod 2 ^ 48 = (unat w + i) mod 2 ^ 48"
proof -
  have dvd: "(2 :: nat) ^ 48 dvd 2 ^ 64" by (rule le_imp_power_dvd) simp
  have "unat (w + of_nat i :: 64 word) = (unat w + i mod 2 ^ 64) mod 2 ^ 64"
    by (simp add: unat_word_ariths unat_of_nat)
  also have "\<dots> = (unat w + i) mod 2 ^ 64" by (rule mod_add_right_eq)
  finally show ?thesis by (simp only: mod_mod_cancel [OF dvd])
qed

lemma take_bit_48_shift_inj:
  assumes "take_bit 48 (w + of_nat i) = take_bit 48 (w + of_nat j :: 64 word)" "i \<le> j" "j < i + 2 ^ 48"
  shows "i = j"
proof -
  have "(unat w + i) mod 2 ^ 48 = (unat w + j) mod 2 ^ 48"
    unfolding unat_shift_mod [symmetric] unat_take_bit_48 [symmetric] assms(1) ..
  then have "2 ^ 48 dvd (unat w + j) - (unat w + i)" 
    using assms(2) by (subst mod_eq_dvd_iff_nat [symmetric]) simp_all
  then have "2 ^ 48 dvd j - i" by simp
  moreover have "j - i < 2 ^ 48" using assms(2,3) by linarith
  ultimately have "j - i = 0" using dvd_imp_le by fastforce
  then show ?thesis using assms(2) by simp
qed

section \<open>Properties\<close>

text \<open>
  C29: The identifiers of up to 2^48 consecutive calls are pairwise distinct, and each
  decodes to the low 16 bits of the generator's member id, so generators of different members
  do not collide.
\<close>

theorem generated_ids_unique:
  assumes "n \<le> 2 ^ 48"
  shows "distinct (generate n (generator_new m t))
    \<and> (\<forall>i \<in> set (generate n (generator_new m t)). up_member_id (decode i) = take_bit 16 m)"
proof -
  let ?g = "generator_new m t" and ?tc = "ug_timestamp_and_counter (generator_new m t)"
  have prefix: "ug_member_prefix ?g = push_bit 48 (take_bit 16 m)"
    by (simp add: generator_new_def and_low_mask)
  have nth: "generate n ?g ! k = push_bit 48 (take_bit 16 m) OR take_bit 48 (?tc + of_nat (Suc k))" if "k < n" for k
    using generate_nth [OF that, of ?g] by (simp add: prefix)
  have "generate n ?g ! i \<noteq> generate n ?g ! j" if ij: "i < j" "j < n" for i j
  proof
    assume "generate n ?g ! i = generate n ?g ! j"
    then have "take_bit 48 (push_bit 48 (take_bit 16 m) OR take_bit 48 (?tc + of_nat (Suc i)))
        = take_bit 48 (push_bit 48 (take_bit 16 m) OR take_bit 48 (?tc + of_nat (Suc j)))"
      using nth [of i] nth [of j] ij by simp
    then have "take_bit 48 (?tc + of_nat (Suc i)) = take_bit 48 (?tc + of_nat (Suc j))"
      unfolding take_bit_prefix by simp
    then have "Suc i = Suc j" by (rule take_bit_48_shift_inj) (use ij assms in auto)
    then show False using ij by simp
  qed
  then have "distinct (generate n ?g)"
    unfolding distinct_conv_nth by (metis length_generate linorder_neqE_nat)
  moreover have "up_member_id (decode i) = take_bit 16 m" if "i \<in> set (generate n ?g)" for i
    using that nth drop_bit_prefix by (auto simp: in_set_conv_nth decode_def and_low_mask)
  ultimately show ?thesis by blast
qed

theorem generated_ids_unique_witness:
  "distinct (generate 300 (generator_new 70000 123456))"
proof -
  have "(300 :: nat) \<le> 2 ^ 48" by simp
  from generated_ids_unique [OF this] show ?thesis by blast
qed

text \<open>
  Decoding an identifier loses nothing: its three fields put back together are the
  identifier.
\<close>

theorem decode_fields_rebuild:
  "push_bit 48 (up_member_id (decode i)) OR
   (push_bit 8 (up_timestamp_millis (decode i)) OR up_counter (decode i)) = i"
proof -
  have "push_bit 48 (take_bit 16 (drop_bit 48 i)) OR take_bit 48 i = i"
    by (rule bit_word_eqI) (auto simp: bit_simps)
  then show ?thesis by (simp add: decode_def and_low_mask take_drop_split)
qed

end
