(* ===== verification/MR_Checksum.thy ===== *)
theory MR_Checksum
  imports MR_Prelude "HOL-Library.Word"
begin

text \<open>
  The incremental checksums of \<^verbatim>\<open>checksum.rs\<close>: CRC-32C and 32-bit Murmur3 on machine words, and
  the context that feeds them chunk by chunk. However the input is cut into chunks, and however
  often a read is interrupted, the context computes the one-shot checksum. Walking directories
  and opening files is not modelled; a reader is the list of what its reads return.
\<close>

unbundle bit_operations_syntax

type_synonym byte = "8 word"

section \<open>CRC-32C\<close>

definition crc_shift :: "32 word \<Rightarrow> 32 word" where
  "crc_shift v = (let m = 0 - (v AND 1) in drop_bit 1 v XOR (0x82f63b78 AND m))"

definition crc_byte :: "byte \<Rightarrow> 32 word \<Rightarrow> 32 word" where
  "crc_byte b v = (crc_shift ^^ 8) (v XOR ucast b)"

definition crc32c_extend :: "32 word \<Rightarrow> byte list \<Rightarrow> 32 word" where
  "crc32c_extend crc d = NOT (fold crc_byte d (NOT crc))"

definition matrixraft_crc32c :: "byte list \<Rightarrow> 32 word" where
  "matrixraft_crc32c d = crc32c_extend 0 d"

section \<open>Murmur3\<close>

fun le_blocks :: "byte list \<Rightarrow> 32 word list" where
  "le_blocks (a # b # c # d # r) =
     (ucast a OR push_bit 8 (ucast b) OR push_bit 16 (ucast c) OR push_bit 24 (ucast d)) # le_blocks r"
| "le_blocks _ = []"

definition murmur3_x86_32_mix_block :: "32 word \<Rightarrow> 32 word \<Rightarrow> 32 word" where
  "murmur3_x86_32_mix_block block hash =
     (let k = word_rotl 15 (block * 0xcc9e2d51) * 0x1b873593
      in word_rotl 13 (hash XOR k) * 5 + 0xe6546b64)"

definition fmix32 :: "32 word \<Rightarrow> 32 word" where
  "fmix32 h0 =
     (let h1 = (h0 XOR drop_bit 16 h0) * 0x85ebca6b; h2 = (h1 XOR drop_bit 13 h1) * 0xc2b2ae35
      in h2 XOR drop_bit 16 h2)"

definition murmur_tail :: "byte list \<Rightarrow> 32 word" where
  "murmur_tail tail = (case tail of
     [a, b, c] \<Rightarrow> push_bit 16 (ucast c) XOR push_bit 8 (ucast b) XOR ucast a
   | [a, b] \<Rightarrow> push_bit 8 (ucast b) XOR ucast a
   | [a] \<Rightarrow> ucast a
   | _ \<Rightarrow> 0)"

definition murmur3_x86_32_finalize :: "32 word \<Rightarrow> byte list \<Rightarrow> u64 \<Rightarrow> 32 word" where
  "murmur3_x86_32_finalize hash tail len =
     (let k1 = murmur_tail tail;
          h = (if k1 \<noteq> 0 then hash XOR (word_rotl 15 (k1 * 0xcc9e2d51) * 0x1b873593) else hash)
      in fmix32 (h XOR of_nat len))"

definition body_length :: "byte list \<Rightarrow> nat" where
  "body_length d = length d div 4 * 4"

definition murmur3_x86_32 :: "byte list \<Rightarrow> 32 word \<Rightarrow> 32 word" where
  "murmur3_x86_32 d seed =
     murmur3_x86_32_finalize (fold murmur3_x86_32_mix_block (le_blocks (take (body_length d) d)) seed)
       (drop (body_length d) d) (length d)"

definition matrixraft_murmur32 :: "byte list \<Rightarrow> 32 word" where
  "matrixraft_murmur32 d = murmur3_x86_32 d 0"

section \<open>The context\<close>

datatype checksum_type = Invalid | Crc32 | Murmur32

definition checksum_type_from_name :: "string \<Rightarrow> checksum_type" where
  "checksum_type_from_name name =
     (if name = ''crc32'' \<or> name = ''crc32c'' then Crc32
      else if name = ''murmur32'' \<or> name = ''murmurhash32'' then Murmur32 else Invalid)"

fun checksum_name :: "checksum_type \<Rightarrow> string" where
  "checksum_name Invalid = ''invalid''"
| "checksum_name Crc32 = ''crc32''"
| "checksum_name Murmur32 = ''murmur32''"

record checksum_context =
  cc_checksum_type :: checksum_type
  cc_finished :: bool
  cc_value :: "32 word"
  cc_length :: u64
  cc_body_bytes :: u64
  cc_tail :: "byte list"
  cc_chunks :: u64

record checksum_result =
  cr_checksum_type :: checksum_type
  cr_checksum_name :: string
  cr_value :: "32 word"
  cr_bytes :: u64
  cr_chunks :: u64

definition context_new :: "checksum_type \<Rightarrow> checksum_context" where
  "context_new ty = \<lparr>cc_checksum_type = ty, cc_finished = False, cc_value = 0, cc_length = 0,
     cc_body_bytes = 0, cc_tail = [], cc_chunks = 0\<rparr>"

definition extend_murmur32 :: "byte list \<Rightarrow> checksum_context \<Rightarrow> checksum_context" where
  "extend_murmur32 d c =
     (let combined = cc_tail c @ d; n = body_length combined
      in c\<lparr>cc_value := fold murmur3_x86_32_mix_block (le_blocks (take n combined)) (cc_value c),
           cc_body_bytes := sat_add (cc_body_bytes c) n, cc_tail := drop n combined\<rparr>)"

text \<open>The error of \<^verbatim>\<open>extend\<close> is a plain string in the source.\<close>

definition context_extend :: "byte list \<Rightarrow> checksum_context \<Rightarrow> (string + unit) \<times> checksum_context" where
  "context_extend d c =
     (if cc_finished c then (Inl ''checksum already finished'', c)
      else if cc_checksum_type c = Invalid then (Inl ''checksum type is invalid'', c)
      else if d = [] then (Inr (), c)
      else (let c' = (if cc_checksum_type c = Crc32
                      then c\<lparr>cc_value := crc32c_extend (cc_value c) d\<rparr> else extend_murmur32 d c)
            in (Inr (), c'\<lparr>cc_length := sat_add (cc_length c') (length d),
                           cc_chunks := sat_add (cc_chunks c') 1\<rparr>)))"

definition context_finalize :: "checksum_context \<Rightarrow> checksum_result \<times> checksum_context" where
  "context_finalize c =
     (let c1 = (if \<not> cc_finished c \<and> cc_checksum_type c = Murmur32
                then c\<lparr>cc_value := murmur3_x86_32_finalize (cc_value c) (cc_tail c)
                         (sat_add (cc_body_bytes c) (length (cc_tail c))), cc_tail := []\<rparr>
                else c);
          c2 = c1\<lparr>cc_finished := True\<rparr>
      in (\<lparr>cr_checksum_type = cc_checksum_type c2, cr_checksum_name = checksum_name (cc_checksum_type c2),
           cr_value = cc_value c2, cr_bytes = cc_length c2, cr_chunks = cc_chunks c2\<rparr>, c2))"

datatype io_error_kind = Interrupted | InvalidInput | OtherIo

text \<open>What successive reads return; an exhausted list is a read of zero bytes.\<close>

datatype read_event = ReadOk "byte list" | ReadErr io_error_kind

fun matrixraft_checksum_extend_from_reader ::
  "read_event list \<Rightarrow> checksum_context \<Rightarrow> (io_error_kind + unit) \<times> checksum_context" where
  "matrixraft_checksum_extend_from_reader [] c = (Inr (), c)"
| "matrixraft_checksum_extend_from_reader (ReadOk d # es) c =
     (if d = [] then (Inr (), c)
      else case context_extend d c of
             (Inl _, c') \<Rightarrow> (Inl InvalidInput, c')
           | (Inr _, c') \<Rightarrow> matrixraft_checksum_extend_from_reader es c')"
| "matrixraft_checksum_extend_from_reader (ReadErr k # es) c =
     (if k = Interrupted then matrixraft_checksum_extend_from_reader es c else (Inl k, c))"

section \<open>Chunking does not matter\<close>

lemma crc32c_extend_append: "crc32c_extend (crc32c_extend v a) b = crc32c_extend v (a @ b)"
  by (simp add: crc32c_extend_def)

lemma le_blocks_append: "length a mod 4 = 0 \<Longrightarrow> le_blocks (a @ b) = le_blocks a @ le_blocks b"
proof (induction a rule: le_blocks.induct)
  case (1 a b c d r)
  then show ?case by simp
qed auto

lemma le_blocks_short: "length d < 4 \<Longrightarrow> le_blocks d = []"
  by (induction d rule: le_blocks.induct) auto

lemma body_length_le [simp]: "body_length d \<le> length d"
  by (simp add: body_length_def)

lemma body_length_mod [simp]: "body_length d mod 4 = 0"
  by (simp add: body_length_def)

lemma length_drop_body: "length (drop (body_length d) d) = length d mod 4"
  by (simp add: body_length_def minus_div_mult_eq_mod)

lemma le_blocks_take_body: "le_blocks (take (body_length d) d) = le_blocks d"
proof -
  have "length (take (body_length d) d) mod 4 = 0" by simp
  then have "le_blocks (take (body_length d) d @ drop (body_length d) d)
      = le_blocks (take (body_length d) d) @ le_blocks (drop (body_length d) d)"
    by (rule le_blocks_append)
  moreover have "le_blocks (drop (body_length d) d) = []"
    by (rule le_blocks_short) (simp add: length_drop_body del: length_drop)
  ultimately show ?thesis by simp
qed

text \<open>What a context holds after the bytes \<open>d\<close>.\<close>

definition fed :: "checksum_type \<Rightarrow> byte list \<Rightarrow> checksum_context \<Rightarrow> bool" where
  "fed ty d c \<longleftrightarrow> cc_checksum_type c = ty \<and> \<not> cc_finished c \<and> cc_length c = length d
     \<and> (ty = Crc32 \<longrightarrow> cc_value c = crc32c_extend 0 d)
     \<and> (ty = Murmur32 \<longrightarrow> cc_value c = fold murmur3_x86_32_mix_block (le_blocks d) 0
          \<and> cc_body_bytes c = body_length d \<and> cc_tail c = drop (body_length d) d)"

lemma fed_new: "fed ty [] (context_new ty)"
  by (simp add: fed_def context_new_def body_length_def crc32c_extend_def)

lemma murmur_fed_extend:
  assumes "cc_value c = fold murmur3_x86_32_mix_block (le_blocks d) 0"
    and "cc_body_bytes c = body_length d" "cc_tail c = drop (body_length d) d"
    and "length (d @ x) \<le> u64_max"
  shows "cc_value (extend_murmur32 x c) = fold murmur3_x86_32_mix_block (le_blocks (d @ x)) 0"
    and "cc_body_bytes (extend_murmur32 x c) = body_length (d @ x)"
    and "cc_tail (extend_murmur32 x c) = drop (body_length (d @ x)) (d @ x)"
proof -
  let ?t = "drop (body_length d) d @ x"
  have split: "d @ x = take (body_length d) d @ ?t" by simp
  have len: "length (take (body_length d) d) = body_length d" by simp
  have body: "body_length (d @ x) = body_length d + body_length ?t"
  proof -
    define q where "q = length d div 4"
    have q: "body_length d = q * 4" by (simp add: body_length_def q_def)
    have "length (d @ x) = q * 4 + length ?t"
      unfolding q [symmetric] using body_length_le [of d] by (simp del: body_length_le)
    then have "length (d @ x) div 4 = q + length ?t div 4" by simp
    then have "length (d @ x) div 4 * 4 = q * 4 + length ?t div 4 * 4" by (simp add: add_mult_distrib)
    then show ?thesis unfolding q by (simp only: body_length_def)
  qed
  have "le_blocks (d @ x) = le_blocks (take (body_length d) d) @ le_blocks ?t"
    by (subst split) (rule le_blocks_append, simp)
  then have "le_blocks (d @ x) = le_blocks d @ le_blocks ?t" by (simp add: le_blocks_take_body)
  then show "cc_value (extend_murmur32 x c) = fold murmur3_x86_32_mix_block (le_blocks (d @ x)) 0"
    using assms by (simp add: extend_murmur32_def Let_def le_blocks_take_body)
  have "body_length (d @ x) \<le> length (d @ x)" by (simp add: body_length_def)
  then show "cc_body_bytes (extend_murmur32 x c) = body_length (d @ x)"
    using assms by (simp add: extend_murmur32_def Let_def body sat_add_def)
  show "cc_tail (extend_murmur32 x c) = drop (body_length (d @ x)) (d @ x)"
    unfolding body using assms(3) by (simp add: extend_murmur32_def Let_def add.commute)
qed

lemma fed_extend:
  assumes "fed ty d c" "ty \<noteq> Invalid" "length (d @ x) \<le> u64_max"
  shows "\<exists>c'. context_extend x c = (Inr (), c') \<and> fed ty (d @ x) c'"
proof (cases "x = []")
  case True
  then show ?thesis using assms(1,2) by (auto simp: context_extend_def fed_def)
next
  case False
  have "sat_add (length d) (length x) = length (d @ x)" using assms(3) by (simp add: sat_add_def)
  moreover have "cc_length (extend_murmur32 x c) = cc_length c"
    "cc_checksum_type (extend_murmur32 x c) = cc_checksum_type c" "cc_finished (extend_murmur32 x c) = cc_finished c"
    by (simp_all add: extend_murmur32_def Let_def)
  ultimately show ?thesis
    using False assms murmur_fed_extend [of c d x]
    by (cases ty) (auto simp: context_extend_def fed_def Let_def crc32c_extend_append)
qed

lemma fed_finalize:
  assumes "fed ty d c" "length d \<le> u64_max"
  shows "cr_value (fst (context_finalize c)) =
      (case ty of Crc32 \<Rightarrow> matrixraft_crc32c d | Murmur32 \<Rightarrow> matrixraft_murmur32 d | Invalid \<Rightarrow> cc_value c)"
    and "cr_bytes (fst (context_finalize c)) = length d"
proof -
  have "sat_add (body_length d) (length (drop (body_length d) d)) = length d"
    using assms(2) body_length_le [of d] by (simp add: sat_add_def del: body_length_le)
  then show "cr_value (fst (context_finalize c)) =
      (case ty of Crc32 \<Rightarrow> matrixraft_crc32c d | Murmur32 \<Rightarrow> matrixraft_murmur32 d | Invalid \<Rightarrow> cc_value c)"
    using assms(1) by (cases ty) (auto simp: context_finalize_def fed_def Let_def matrixraft_crc32c_def
        matrixraft_murmur32_def murmur3_x86_32_def le_blocks_take_body)
  show "cr_bytes (fst (context_finalize c)) = length d"
    using assms(1) by (simp add: context_finalize_def fed_def Let_def)
qed

text \<open>The bytes a reader delivers before its end, when no read fails.\<close>

fun delivered :: "read_event list \<Rightarrow> byte list option" where
  "delivered [] = Some []"
| "delivered (ReadOk d # es) = (if d = [] then Some [] else map_option ((@) d) (delivered es))"
| "delivered (ReadErr k # es) = (if k = Interrupted then delivered es else None)"

lemma reader_fed:
  assumes "fed ty d c" "ty \<noteq> Invalid" "delivered es = Some x" "length (d @ x) \<le> u64_max"
  shows "\<exists>c'. matrixraft_checksum_extend_from_reader es c = (Inr (), c') \<and> fed ty (d @ x) c'"
  using assms
proof (induction es arbitrary: c d x rule: delivered.induct)
  case (2 y es)
  show ?case
  proof (cases "y = []")
    case True
    then show ?thesis using 2 by simp
  next
    case False
    then obtain z where z: "delivered es = Some z" "x = y @ z" using 2(4) by auto
    obtain c1 where c1: "context_extend y c = (Inr (), c1)" "fed ty (d @ y) c1"
      using fed_extend [OF 2(2,3), of y] 2(5) z(2) by auto
    then show ?thesis using 2(1) [OF False c1(2) 2(3) z(1)] 2(5) z(2) False by simp
  qed
next
  case (3 k es)
  then show ?case by (auto split: if_splits)
qed auto

section \<open>Properties\<close>

text \<open>
  C27: Feeding a reader's blocks into a checksum context gives the one-shot checksum of the bytes
  delivered, for CRC-32C and for Murmur3, whatever the block boundaries and however many reads
  were interrupted; the byte count is exact and the call reports success.
\<close>

theorem checksum_reader_one_shot:
  assumes "ty \<noteq> Invalid" "delivered es = Some d" "length d \<le> u64_max"
  shows "\<exists>c. matrixraft_checksum_extend_from_reader es (context_new ty) = (Inr (), c)
    \<and> cr_bytes (fst (context_finalize c)) = length d
    \<and> cr_value (fst (context_finalize c)) = (if ty = Crc32 then matrixraft_crc32c d else matrixraft_murmur32 d)"
proof -
  obtain c where "matrixraft_checksum_extend_from_reader es (context_new ty) = (Inr (), c)" "fed ty d c"
    using reader_fed [OF fed_new assms(1,2)] assms(3) by auto
  then show ?thesis
    using fed_finalize [of ty d c] assms(1,3) by (cases ty) auto
qed

theorem checksum_reader_one_shot_witness:
  "\<exists>c. matrixraft_checksum_extend_from_reader
         [ReadOk [1, 2, 3], ReadErr Interrupted, ReadOk [4, 5, 6, 7, 8, 9]] (context_new Murmur32) = (Inr (), c)
     \<and> cr_value (fst (context_finalize c)) = matrixraft_murmur32 [1, 2, 3, 4, 5, 6, 7, 8, 9]"
proof -
  have "delivered [ReadOk [1, 2, 3], ReadErr Interrupted, ReadOk [4, 5, 6, 7, 8, 9]]
      = Some [1, 2, 3, 4, 5, 6, 7, 8, 9]" by simp
  moreover have "length [1, 2, 3, 4, 5, 6, 7, 8, 9 :: byte] \<le> u64_max" by (simp add: u64_max_def)
  ultimately show ?thesis using checksum_reader_one_shot [of Murmur32] by fastforce
qed

lemma crc_byte_shifts:
  "crc_byte b v = crc_shift (crc_shift (crc_shift (crc_shift (crc_shift (crc_shift (crc_shift
     (crc_shift (v XOR ucast b))))))))"
  by (simp add: crc_byte_def eval_nat_numeral)

text \<open>
  The bit-by-bit CRC loop reproduces the published CRC-32C check value: the checksum of the
  nine bytes \<^verbatim>\<open>123456789\<close> is \<^verbatim>\<open>0xe3069283\<close>.
\<close>

theorem crc32c_check_value:
  "matrixraft_crc32c [0x31, 0x32, 0x33, 0x34, 0x35, 0x36, 0x37, 0x38, 0x39] = 0xe3069283"
  by (simp add: matrixraft_crc32c_def crc32c_extend_def crc_byte_shifts crc_shift_def)

end
