(* ===== verification/MR_Messages.thy ===== *)
theory MR_Messages
  imports MR_Node
begin

text \<open>
  The messages the replication and election handlers exchange
  (\<^verbatim>\<open>facade/api_messages.rs\<close>).
\<close>

datatype snapshot_state = SnapNone | SnapCreating | SnapReceiving | SnapReceived | SnapNotReady

record append_entries_request =
  aq_group_id :: group_id
  aq_term :: raft_term
  aq_leader_id :: node_id
  aq_prev_log_id :: "log_id option"
  aq_entries :: "log_entry list"
  aq_leader_commit :: log_index
  aq_lease_epoch :: u64

record append_entries_response =
  ar_term :: raft_term
  ar_success :: bool
  ar_match_index :: log_index
  ar_rejection_hint :: "log_index option"
  ar_rejected_index :: "log_index option"
  ar_require_snapshot :: "log_index option"
  ar_snapshot_state :: snapshot_state
  ar_lease_confirmation_epoch :: u64
  ar_lease_duration_ms :: u64

record vote_request =
  vq_group_id :: group_id
  vq_term :: raft_term
  vq_candidate_id :: node_id
  vq_last_log_id :: "log_id option"
  vq_pre_vote :: bool
  vq_force :: bool

record vote_response =
  vr_term :: raft_term
  vr_vote_granted :: bool
  vr_reason :: string

end
