(* ===== verification/MR_Pipeline.thy ===== *)
theory MR_Pipeline
  imports MR_BTree_Map MR_Messages
begin

text \<open>
  The per-peer replication pipeline of \<^verbatim>\<open>pipeline.rs\<close>: append queue and in-flight window with
  their byte and entry limits, probe and replicate states, apply window, reorder queue and
  snapshot transfer. The invariant relates every counter of the published status to the queue it
  describes and bounds the memory the queues hold. Evidence artifacts built from the status are
  not modelled.
\<close>

section \<open>State\<close>

datatype progress_state = Probe | Replicate

record pipeline_limits =
  pl_max_inflights_replicate :: u64
  pl_max_memory_replicate_log_bytes :: u64
  pl_max_inflights_apply_task :: u64
  pl_max_apply_batch_bytes :: u64
  pl_enable_reorder_queue :: bool
  pl_reorder_window_size :: u64
  pl_reorder_timeout_us :: u64

record peer_progress =
  pp_peer_id :: u64
  pp_progress_state :: progress_state
  pp_paused :: bool
  pp_old_paused :: bool
  pp_match_index :: u64
  pp_next_index :: u64
  pp_append_requests :: u64
  pp_append_batches :: u64
  pp_max_append_batch_entries :: u64
  pp_max_append_batch_bytes :: u64
  pp_append_accepted :: u64
  pp_append_rejected :: u64
  pp_retry_attempts :: u64
  pp_backoff_ms :: u64
  pp_next_retry_after_ms :: u64
  pp_inflight_entries :: u64
  pp_inflight_bytes :: u64
  pp_append_queue_depth :: u64
  pp_append_queue_limit :: u64
  pp_append_queue_max_depth :: u64
  pp_inflight_bytes_limit :: u64
  pp_apply_inflight_tasks :: u64
  pp_apply_inflight_limit :: u64
  pp_apply_queue_depth :: u64
  pp_apply_queue_max_depth :: u64
  pp_apply_batch_bytes_limit :: u64
  pp_apply_backpressure_rejections :: u64
  pp_memory_backpressure_rejections :: u64
  pp_oversized_log_rejections :: u64
  pp_reorder_queue_depth :: u64
  pp_out_of_order_append_rejections :: u64
  pp_reorder_entries_rejected :: u64
  pp_reorder_entries_converged :: u64
  pp_reorder_entry_timeouts :: u64
  pp_reorder_dropped_packages :: u64
  pp_stale_term_rejections :: u64
  pp_packet_loss_events :: u64
  pp_network_error_probe_transitions :: u64
  pp_snapshot_sending :: bool
  pp_snapshot_installing :: bool
  pp_snapshot_installed_index :: u64
  pp_snapshot_send_attempts :: u64
  pp_snapshot_install_total_chunks :: u64
  pp_snapshot_install_progress_per_mille :: u64
  pp_snapshot_backpressure_rejections :: u64
  pp_snapshot_rate_limit_rejections :: u64
  pp_snapshot_install_rolled_back :: u64
  pp_snapshot_chunk_retry_count :: u64
  pp_snapshot_send_timeouts :: u64
  pp_required_snapshot_index :: log_index
  pp_acked_snapshot_index :: log_index
  pp_snapshot_during_membership_change :: bool
  pp_snapshot_rejoin_after_compacted_log :: bool
  pp_transfer_leader_target :: bool
  pp_transfer_leader_timeouts :: u64
  pp_pre_vote_rejections :: u64
  pp_election_rejections :: u64
  pp_offline_timeout_reached :: bool
  pp_offline_timeout_rejections :: u64
  pp_follower_lag :: log_index
  pp_learner_catchup_rounds :: u64
  pp_learner_caught_up :: bool
  pp_witness_quorum_required :: u64
  pp_witness_quorum_acked :: u64
  pp_witness_quorum_reached :: bool

definition peer_progress_new :: "node_id \<Rightarrow> log_index \<Rightarrow> pipeline_limits \<Rightarrow> peer_progress" where
  "peer_progress_new peer_id next_index limits =
     \<lparr>pp_peer_id = peer_id, pp_progress_state = Probe, pp_paused = False,
      pp_old_paused = False, pp_match_index = next_index - 1, pp_next_index = next_index,
      pp_append_requests = 0, pp_append_batches = 0, pp_max_append_batch_entries = 0,
      pp_max_append_batch_bytes = 0, pp_append_accepted = 0, pp_append_rejected = 0,
      pp_retry_attempts = 0, pp_backoff_ms = 0, pp_next_retry_after_ms = 0,
      pp_inflight_entries = 0, pp_inflight_bytes = 0, pp_append_queue_depth = 0,
      pp_append_queue_limit = pl_max_inflights_replicate limits, pp_append_queue_max_depth = 0,
      pp_inflight_bytes_limit = pl_max_memory_replicate_log_bytes limits,
      pp_apply_inflight_tasks = 0,
      pp_apply_inflight_limit = pl_max_inflights_apply_task limits, pp_apply_queue_depth = 0,
      pp_apply_queue_max_depth = 0,
      pp_apply_batch_bytes_limit = pl_max_apply_batch_bytes limits,
      pp_apply_backpressure_rejections = 0, pp_memory_backpressure_rejections = 0,
      pp_oversized_log_rejections = 0, pp_reorder_queue_depth = 0,
      pp_out_of_order_append_rejections = 0, pp_reorder_entries_rejected = 0,
      pp_reorder_entries_converged = 0, pp_reorder_entry_timeouts = 0,
      pp_reorder_dropped_packages = 0, pp_stale_term_rejections = 0, pp_packet_loss_events = 0,
      pp_network_error_probe_transitions = 0, pp_snapshot_sending = False,
      pp_snapshot_installing = False, pp_snapshot_installed_index = 0,
      pp_snapshot_send_attempts = 0, pp_snapshot_install_total_chunks = 0,
      pp_snapshot_install_progress_per_mille = 0, pp_snapshot_backpressure_rejections = 0,
      pp_snapshot_rate_limit_rejections = 0, pp_snapshot_install_rolled_back = 0,
      pp_snapshot_chunk_retry_count = 0, pp_snapshot_send_timeouts = 0,
      pp_required_snapshot_index = 0, pp_acked_snapshot_index = 0,
      pp_snapshot_during_membership_change = False,
      pp_snapshot_rejoin_after_compacted_log = False, pp_transfer_leader_target = False,
      pp_transfer_leader_timeouts = 0, pp_pre_vote_rejections = 0, pp_election_rejections = 0,
      pp_offline_timeout_reached = False, pp_offline_timeout_rejections = 0,
      pp_follower_lag = 0, pp_learner_catchup_rounds = 0, pp_learner_caught_up = False,
      pp_witness_quorum_required = 0, pp_witness_quorum_acked = 0,
      pp_witness_quorum_reached = False\<rparr>"

record inflight_append =
  ia_first_log_id :: log_id
  ia_last_log_id :: log_id
  ia_entry_count :: u64
  ia_bytes :: u64

record snapshot_transfer_state =
  st_snapshot_id :: string
  st_snapshot_index :: log_index
  st_total_chunks :: u64
  st_acknowledged_chunks :: u64
  st_bytes_sent :: u64
  st_bytes_received :: u64
  st_latest_receiving_elapsed_ms :: u64

record apply_inflight_task =
  at_applied_index :: log_index
  at_batch_bytes :: u64

record queued_append =
  qa_log_id :: log_id
  qa_bytes :: u64

record replication_pipeline =
  rp_peer_id :: node_id
  rp_limits :: pipeline_limits
  rp_status :: peer_progress
  rp_append_queue :: "queued_append list"
  rp_append_queue_bytes :: u64
  rp_inflight :: "inflight_append list"
  rp_apply_inflight :: "apply_inflight_task list"
  rp_reorder_queue :: "u64 btree"
  rp_snapshot_transfer :: "snapshot_transfer_state option"

definition pipeline_new :: "node_id \<Rightarrow> log_index \<Rightarrow> pipeline_limits \<Rightarrow> replication_pipeline" where
  "pipeline_new peer_id next_index limits =
     \<lparr>rp_peer_id = peer_id, rp_limits = limits, rp_status = peer_progress_new peer_id next_index limits,
      rp_append_queue = [], rp_append_queue_bytes = 0, rp_inflight = [], rp_apply_inflight = [],
      rp_reorder_queue = [], rp_snapshot_transfer = None\<rparr>"

definition upd_status :: "(peer_progress \<Rightarrow> peer_progress) \<Rightarrow> replication_pipeline \<Rightarrow> replication_pipeline" where
  "upd_status f p = p\<lparr>rp_status := f (rp_status p)\<rparr>"

definition reset_for_leader_transition ::
  "log_index \<Rightarrow> log_index \<Rightarrow> progress_state \<Rightarrow> replication_pipeline \<Rightarrow> replication_pipeline" where
  "reset_for_leader_transition matched next_index progress_state p =
     p\<lparr>rp_status := (peer_progress_new (rp_peer_id p) next_index (rp_limits p))
          \<lparr>pp_match_index := matched, pp_next_index := next_index, pp_progress_state := progress_state\<rparr>,
       rp_append_queue := [], rp_append_queue_bytes := 0, rp_inflight := [], rp_apply_inflight := [],
       rp_reorder_queue := [], rp_snapshot_transfer := None\<rparr>"

section \<open>Window\<close>

definition inflight_is_full :: "replication_pipeline \<Rightarrow> bool" where
  "inflight_is_full p =
     (pl_max_inflights_replicate (rp_limits p) \<le> pp_inflight_entries (rp_status p))"

definition is_paused :: "replication_pipeline \<Rightarrow> bool" where
  "is_paused p = (case pp_progress_state (rp_status p) of
     Probe \<Rightarrow> pp_paused (rp_status p) | Replicate \<Rightarrow> inflight_is_full p)"

definition inflight_is_empty :: "replication_pipeline \<Rightarrow> bool" where
  "inflight_is_empty p = (case pp_progress_state (rp_status p) of
     Probe \<Rightarrow> False | Replicate \<Rightarrow> rp_inflight p = [])"

definition pause :: "replication_pipeline \<Rightarrow> replication_pipeline" where
  "pause p = upd_status (\<lambda>s. s\<lparr>pp_paused := True\<rparr>) p"

definition set_progress_state :: "progress_state \<Rightarrow> replication_pipeline \<Rightarrow> replication_pipeline" where
  "set_progress_state st p = upd_status (\<lambda>s. s\<lparr>pp_progress_state := st, pp_paused := False\<rparr>) p"

definition free_first_inflight :: "replication_pipeline \<Rightarrow> replication_pipeline" where
  "free_first_inflight p = (case rp_inflight p of
     [] \<Rightarrow> p
   | i # rest \<Rightarrow> upd_status (\<lambda>s. s\<lparr>pp_inflight_entries := pp_inflight_entries s - ia_entry_count i,
                                  pp_inflight_bytes := pp_inflight_bytes s - ia_bytes i\<rparr>)
                (p\<lparr>rp_inflight := rest\<rparr>))"

definition pipeline_resume :: "replication_pipeline \<Rightarrow> replication_pipeline" where
  "pipeline_resume p = (case pp_progress_state (rp_status p) of
     Probe \<Rightarrow> upd_status (\<lambda>s. s\<lparr>pp_paused := False\<rparr>) p
   | Replicate \<Rightarrow> (if inflight_is_full p
        then upd_status (\<lambda>s. s\<lparr>pp_old_paused := True\<rparr>) (free_first_inflight p) else p))"

definition take_empty_append_due_to_old_pause :: "replication_pipeline \<Rightarrow> bool \<times> replication_pipeline" where
  "take_empty_append_due_to_old_pause p =
     (if pp_old_paused (rp_status p) \<and> inflight_is_empty p
      then (True, upd_status (\<lambda>s. s\<lparr>pp_old_paused := False\<rparr>) p) else (False, p))"

definition reset_inflight_window :: "replication_pipeline \<Rightarrow> replication_pipeline" where
  "reset_inflight_window p =
     upd_status (\<lambda>s. s\<lparr>pp_inflight_entries := 0, pp_inflight_bytes := 0\<rparr>) (p\<lparr>rp_inflight := []\<rparr>)"

definition reset_apply_inflight_window :: "replication_pipeline \<Rightarrow> replication_pipeline" where
  "reset_apply_inflight_window p =
     upd_status (\<lambda>s. s\<lparr>pp_apply_inflight_tasks := 0, pp_apply_queue_depth := 0\<rparr>) (p\<lparr>rp_apply_inflight := []\<rparr>)"

fun release_loop :: "log_index \<Rightarrow> inflight_append list \<Rightarrow> replication_pipeline \<Rightarrow> replication_pipeline" where
  "release_loop matched [] p = p\<lparr>rp_inflight := []\<rparr>"
| "release_loop matched (i # rest) p =
     (if li_index (ia_last_log_id i) \<le> matched
      then release_loop matched rest
             (upd_status (\<lambda>s. s\<lparr>pp_inflight_entries := pp_inflight_entries s - ia_entry_count i,
                                pp_inflight_bytes := pp_inflight_bytes s - ia_bytes i\<rparr>) p)
      else p\<lparr>rp_inflight := i # rest\<rparr>)"

definition release_inflight_through :: "log_index \<Rightarrow> replication_pipeline \<Rightarrow> replication_pipeline" where
  "release_inflight_through matched p = release_loop matched (rp_inflight p) p"

section \<open>Queueing and flushing\<close>

definition queue_append :: "log_entry \<Rightarrow> replication_pipeline \<Rightarrow> (unit, replication_pipeline) outcome" where
  "queue_append e p =
     (let bytes = length (le_payload e); s = rp_status p
      in if pl_max_apply_batch_bytes (rp_limits p) < bytes
         then (Inl (InvalidRequest ''append entry exceeds max apply batch bytes''),
               upd_status (\<lambda>s. s\<lparr>pp_oversized_log_rejections := wrap_add (pp_oversized_log_rejections s) 1\<rparr>) p)
         else if pp_append_queue_limit s \<le> length (rp_append_queue p)
         then (Inl (InvalidRequest ''append queue backpressure limit reached''),
               upd_status (\<lambda>s. s\<lparr>pp_apply_backpressure_rejections := wrap_add (pp_apply_backpressure_rejections s) 1\<rparr>) p)
         else if pl_max_memory_replicate_log_bytes (rp_limits p)
                   < wrap_add (wrap_add (pp_inflight_bytes s) (rp_append_queue_bytes p)) bytes
         then (Inl (InvalidRequest ''replication memory backpressure limit reached''),
               upd_status (\<lambda>s. s\<lparr>pp_memory_backpressure_rejections := wrap_add (pp_memory_backpressure_rejections s) 1\<rparr>) p)
         else (let q = rp_append_queue p @ [\<lparr>qa_log_id = le_log_id e, qa_bytes = bytes\<rparr>]
               in (Inr (), upd_status (\<lambda>s. s\<lparr>pp_append_queue_depth := length q,
                                             pp_append_queue_max_depth := max (pp_append_queue_max_depth s) (length q)\<rparr>)
                     (p\<lparr>rp_append_queue := q,
                        rp_append_queue_bytes := sat_add (rp_append_queue_bytes p) bytes\<rparr>))))"

text \<open>
  The inner loop of \<^verbatim>\<open>flush_append_batch_core\<close>: entries are taken off the queue while they fit the
  batch and the memory limit. Its state is the queue, the queue's bytes, and the batch's entry
  count, bytes and last position.
\<close>

fun take_batch :: "u64 \<Rightarrow> u64 \<Rightarrow> u64 \<Rightarrow> u64 \<Rightarrow> queued_append list \<Rightarrow> u64 \<Rightarrow> u64 \<Rightarrow> u64 \<Rightarrow> log_id
    \<Rightarrow> queued_append list \<times> u64 \<times> u64 \<times> u64 \<times> log_id" where
  "take_batch mem inflight_bytes max_entries max_bytes [] qbytes entry_count bytes last_id =
     ([], qbytes, entry_count, bytes, last_id)"
| "take_batch mem inflight_bytes max_entries max_bytes (q # qs) qbytes entry_count bytes last_id =
     (if \<not> entry_count < max_entries
         \<or> (0 < entry_count \<and> max_bytes < wrap_add bytes (qa_bytes q))
         \<or> mem < wrap_add (wrap_add inflight_bytes bytes) (qa_bytes q)
      then (q # qs, qbytes, entry_count, bytes, last_id)
      else take_batch mem inflight_bytes max_entries max_bytes qs (qbytes - qa_bytes q)
             (entry_count + 1) (wrap_add bytes (qa_bytes q)) (qa_log_id q))"

lemma take_batch_length:
  "take_batch mem ib me mb qs qb c b l = (qs', qb', c', b', l') \<Longrightarrow>
     c \<le> c' \<and> length qs' + (c' - c) = length qs \<and> c' \<le> max c me"
  by (induction mem ib me mb qs qb c b l rule: take_batch.induct) (auto split: if_splits)

function flush_loop :: "u64 \<Rightarrow> u64 \<Rightarrow> replication_pipeline \<Rightarrow> inflight_append list \<times> replication_pipeline" where
  "flush_loop max_entries max_bytes p =
     (if is_paused p \<or> pl_max_inflights_replicate (rp_limits p) \<le> pp_inflight_entries (rp_status p)
         \<or> rp_append_queue p = []
      then ([], p)
      else (let first = qa_log_id (hd (rp_append_queue p));
                (q', qb', count, bytes, last_id) =
                  take_batch (pl_max_memory_replicate_log_bytes (rp_limits p)) (pp_inflight_bytes (rp_status p))
                    max_entries max_bytes (rp_append_queue p) (rp_append_queue_bytes p) 0 0 first
            in if count = 0
               then ([], upd_status (\<lambda>s. s\<lparr>pp_memory_backpressure_rejections :=
                            wrap_add (pp_memory_backpressure_rejections s) 1\<rparr>) p)
               else (let i = \<lparr>ia_first_log_id = first, ia_last_log_id = last_id, ia_entry_count = count, ia_bytes = bytes\<rparr>;
                         p1 = upd_status (\<lambda>s. s\<lparr>pp_append_requests := wrap_add (pp_append_requests s) 1,
                                pp_append_batches := wrap_add (pp_append_batches s) 1,
                                pp_max_append_batch_entries := max (pp_max_append_batch_entries s) count,
                                pp_max_append_batch_bytes := max (pp_max_append_batch_bytes s) bytes,
                                pp_inflight_entries := wrap_add (pp_inflight_entries s) count,
                                pp_inflight_bytes := wrap_add (pp_inflight_bytes s) bytes\<rparr>)
                              (p\<lparr>rp_append_queue := q', rp_append_queue_bytes := qb',
                                 rp_inflight := rp_inflight p @ [i]\<rparr>)
                     in if pp_progress_state (rp_status p1) = Probe then ([i], pause p1)
                        else (case flush_loop max_entries max_bytes p1 of (is, p2) \<Rightarrow> (i # is, p2)))))"
  by pat_completeness auto
termination
  by (relation "measure (\<lambda>(_, _, p). length (rp_append_queue p))")
    (auto simp: upd_status_def dest!: take_batch_length [OF sym] split: prod.splits)

definition flush_append_batch :: "u64 \<Rightarrow> u64 \<Rightarrow> replication_pipeline \<Rightarrow> inflight_append list \<times> replication_pipeline" where
  "flush_append_batch max_entries max_bytes p =
     (let max_entries = (if pp_progress_state (rp_status p) = Probe then 1 else max max_entries 1);
          (flushed, p') = flush_loop max_entries (max max_bytes 1) p
      in (flushed, upd_status (\<lambda>s. s\<lparr>pp_append_queue_depth := length (rp_append_queue p')\<rparr>) p'))"

definition flush_append_window :: "replication_pipeline \<Rightarrow> inflight_append list \<times> replication_pipeline" where
  "flush_append_window p = flush_append_batch 1 (pl_max_apply_batch_bytes (rp_limits p)) p"

section \<open>Reorder queue\<close>

text \<open>
  The queue maps an index that arrived early to the time it has waited. The drain loop takes
  entries out as long as the next expected index is there; it ends because each turn removes one.
\<close>

lemma bt_remove_shrinks:
  "bt_get q n = Some v \<Longrightarrow> length (bt_remove n q) < length q"
  by (induction q) (auto simp: bt_get_def bt_remove_def less_Suc_eq_le split: if_splits intro: length_filter_le)

function drain_loop :: "u64 btree \<Rightarrow> log_index \<Rightarrow> log_index \<Rightarrow> u64 \<Rightarrow> u64 btree \<times> log_index \<times> log_index \<times> u64" where
  "drain_loop q matched next converged = (case bt_get q next of
     None \<Rightarrow> (q, matched, next, converged)
   | Some _ \<Rightarrow> drain_loop (bt_remove next q) next (sat_add next 1) (sat_add converged 1))"
  by pat_completeness auto
termination
  by (relation "measure (\<lambda>(q, _). length q)") (auto intro: bt_remove_shrinks)

definition drain_reorder_queue :: "replication_pipeline \<Rightarrow> replication_pipeline" where
  "drain_reorder_queue p =
     (case drain_loop (rp_reorder_queue p) (pp_match_index (rp_status p)) (pp_next_index (rp_status p)) 0 of
        (q, matched, next, converged) \<Rightarrow>
          upd_status (\<lambda>s. s\<lparr>pp_match_index := matched, pp_next_index := next,
                            pp_reorder_entries_converged := sat_add (pp_reorder_entries_converged s) converged,
                            pp_reorder_queue_depth := length q\<rparr>)
            (p\<lparr>rp_reorder_queue := q\<rparr>))"

definition receive_out_of_order :: "log_entry \<Rightarrow> replication_pipeline \<Rightarrow> (unit, replication_pipeline) outcome" where
  "receive_out_of_order e p =
     (let out_of_order = upd_status (\<lambda>s. s\<lparr>pp_out_of_order_append_rejections :=
                           wrap_add (pp_out_of_order_append_rejections s) 1\<rparr>) p
      in if idx e < pp_next_index (rp_status p)
         then (Inl (InvalidRequest ''append is below peer next index''), out_of_order)
         else if idx e = pp_next_index (rp_status p)
         then (case checked_succ (idx e) of
                 None \<Rightarrow> (Inl (InvalidRequest ''append index is the largest representable index''), out_of_order)
               | Some next \<Rightarrow> (Inr (), drain_reorder_queue
                   (upd_status (\<lambda>s. s\<lparr>pp_match_index := idx e, pp_next_index := next\<rparr>) p)))
         else if \<not> pl_enable_reorder_queue (rp_limits p)
         then (Inl (InvalidRequest ''out-of-order append received while reorder queue is disabled''), out_of_order)
         else if pl_reorder_window_size (rp_limits p) \<le> length (rp_reorder_queue p)
         then (Inl (InvalidRequest ''reorder queue window is full''),
               upd_status (\<lambda>s. s\<lparr>pp_reorder_entries_rejected := wrap_add (pp_reorder_entries_rejected s) 1\<rparr>) p)
         else (let q = bt_insert (idx e) 0 (rp_reorder_queue p)
               in (Inr (), upd_status (\<lambda>s. s\<lparr>pp_reorder_queue_depth := length q\<rparr>) (p\<lparr>rp_reorder_queue := q\<rparr>))))"

definition age_reorder_entry :: "u64 \<Rightarrow> u64 \<Rightarrow> u64" where
  "age_reorder_entry elapsed_us age_us = sat_add age_us elapsed_us"

definition tick_reorder_queue :: "u64 \<Rightarrow> replication_pipeline \<Rightarrow> u64 \<times> replication_pipeline" where
  "tick_reorder_queue elapsed_us p =
     (let timeout_us = pl_reorder_timeout_us (rp_limits p);
          aged = bt_map_values (age_reorder_entry elapsed_us) (rp_reorder_queue p);
          kept = filter (\<lambda>(_, age_us). timeout_us = 0 \<or> age_us < timeout_us) aged;
          dropped = length aged - length kept
      in if rp_reorder_queue p = [] then (0, p)
         else if dropped = 0 then (0, p\<lparr>rp_reorder_queue := kept\<rparr>)
         else (dropped, upd_status (\<lambda>s. s\<lparr>pp_reorder_queue_depth := length kept,
                 pp_reorder_entry_timeouts := sat_add (pp_reorder_entry_timeouts s) dropped,
                 pp_reorder_dropped_packages := sat_add (pp_reorder_dropped_packages s) dropped\<rparr>)
               (p\<lparr>rp_reorder_queue := kept\<rparr>)))"

definition expire_reorder_queue :: "replication_pipeline \<Rightarrow> u64 \<times> replication_pipeline" where
  "expire_reorder_queue p =
     (let dropped = length (rp_reorder_queue p)
      in if 0 < dropped
         then (dropped, upd_status (\<lambda>s. s\<lparr>pp_reorder_queue_depth := 0,
                 pp_reorder_entry_timeouts := wrap_add (pp_reorder_entry_timeouts s) dropped,
                 pp_reorder_dropped_packages := wrap_add (pp_reorder_dropped_packages s) dropped\<rparr>)
               (p\<lparr>rp_reorder_queue := []\<rparr>))
         else (0, p))"

section \<open>Apply window\<close>

definition has_apply_inflight_tasks :: "replication_pipeline \<Rightarrow> bool" where
  "has_apply_inflight_tasks p = (rp_apply_inflight p \<noteq> [])"

definition can_install_snapshot_now :: "replication_pipeline \<Rightarrow> bool" where
  "can_install_snapshot_now p = (\<not> has_apply_inflight_tasks p)"

definition begin_apply_task :: "log_index \<Rightarrow> u64 \<Rightarrow> replication_pipeline \<Rightarrow> (unit, replication_pipeline) outcome" where
  "begin_apply_task applied_index batch_bytes p =
     (if pl_max_apply_batch_bytes (rp_limits p) < batch_bytes
      then (Inl (InvalidRequest ''apply batch exceeds max apply batch bytes''),
            upd_status (\<lambda>s. s\<lparr>pp_oversized_log_rejections := wrap_add (pp_oversized_log_rejections s) 1\<rparr>) p)
      else if pl_max_inflights_apply_task (rp_limits p) \<le> pp_apply_inflight_tasks (rp_status p)
      then (Inl (InvalidRequest ''apply inflight task limit reached''),
            upd_status (\<lambda>s. s\<lparr>pp_apply_backpressure_rejections := wrap_add (pp_apply_backpressure_rejections s) 1\<rparr>) p)
      else (let a = rp_apply_inflight p @ [\<lparr>at_applied_index = applied_index, at_batch_bytes = batch_bytes\<rparr>]
            in (Inr (), upd_status (\<lambda>s. s\<lparr>pp_apply_inflight_tasks := length a, pp_apply_queue_depth := length a,
                                          pp_apply_queue_max_depth := max (pp_apply_queue_max_depth s) (length a)\<rparr>)
                  (p\<lparr>rp_apply_inflight := a\<rparr>))))"

definition complete_apply_through :: "log_index \<Rightarrow> replication_pipeline \<Rightarrow> u64 \<times> replication_pipeline" where
  "complete_apply_through applied p =
     (let completed = length (takeWhile (\<lambda>t. at_applied_index t \<le> applied) (rp_apply_inflight p));
          a = dropWhile (\<lambda>t. at_applied_index t \<le> applied) (rp_apply_inflight p)
      in (completed, upd_status (\<lambda>s. s\<lparr>pp_apply_inflight_tasks := length a, pp_apply_queue_depth := length a\<rparr>)
            (p\<lparr>rp_apply_inflight := a\<rparr>)))"

section \<open>Snapshot transfer\<close>

definition wrap_mul :: "nat \<Rightarrow> nat \<Rightarrow> nat" where
  "wrap_mul a b = (a * b) mod (u64_max + 1)"

definition begin_transfer :: "string \<Rightarrow> log_index \<Rightarrow> u64 \<Rightarrow> snapshot_transfer_state" where
  "begin_transfer snapshot_id snap_index total_chunks =
     \<lparr>st_snapshot_id = snapshot_id, st_snapshot_index = snap_index, st_total_chunks = total_chunks,
      st_acknowledged_chunks = 0, st_bytes_sent = 0, st_bytes_received = 0, st_latest_receiving_elapsed_ms = 0\<rparr>"

definition transfer_active :: "replication_pipeline \<Rightarrow> (unit, replication_pipeline) outcome" where
  "transfer_active p =
     (Inl (InvalidRequest ''snapshot transfer is already active''),
      upd_status (\<lambda>s. s\<lparr>pp_snapshot_backpressure_rejections :=
                         wrap_add (pp_snapshot_backpressure_rejections s) 1\<rparr>) p)"

definition begin_snapshot_send :: "string \<Rightarrow> log_index \<Rightarrow> u64 \<Rightarrow> replication_pipeline \<Rightarrow> (unit, replication_pipeline) outcome" where
  "begin_snapshot_send snapshot_id snap_index total_chunks p =
     (if pp_snapshot_sending (rp_status p) \<or> pp_snapshot_installing (rp_status p)
      then transfer_active p
      else (Inr (), upd_status (\<lambda>s. s\<lparr>pp_snapshot_sending := True,
                      pp_snapshot_send_attempts := wrap_add (pp_snapshot_send_attempts s) 1,
                      pp_snapshot_install_total_chunks := total_chunks,
                      pp_snapshot_install_progress_per_mille := 0\<rparr>)
                    (p\<lparr>rp_snapshot_transfer := Some (begin_transfer snapshot_id snap_index total_chunks)\<rparr>)))"

definition begin_snapshot_install :: "string \<Rightarrow> log_index \<Rightarrow> u64 \<Rightarrow> replication_pipeline \<Rightarrow> (unit, replication_pipeline) outcome" where
  "begin_snapshot_install snapshot_id snap_index total_chunks p =
     (if pp_snapshot_sending (rp_status p) \<or> pp_snapshot_installing (rp_status p)
      then transfer_active p
      else (Inr (), upd_status (\<lambda>s. s\<lparr>pp_snapshot_installing := True,
                      pp_snapshot_install_total_chunks := total_chunks,
                      pp_snapshot_install_progress_per_mille := 0\<rparr>)
                    (p\<lparr>rp_snapshot_transfer := Some (begin_transfer snapshot_id snap_index total_chunks)\<rparr>)))"

definition maybe_require_snapshot :: "log_index \<Rightarrow> replication_pipeline \<Rightarrow> bool \<times> replication_pipeline" where
  "maybe_require_snapshot required p =
     (if required = u64_max \<or> required \<le> pp_required_snapshot_index (rp_status p) then (False, p)
      else (True, snd (begin_snapshot_send
              (''required-snapshot-'' @ show_nat (rp_peer_id p) @ ''-'' @ show_nat required) required 1
              (upd_status (\<lambda>s. s\<lparr>pp_required_snapshot_index := required\<rparr>) p))))"

definition is_snapshot_required :: "replication_pipeline \<Rightarrow> bool" where
  "is_snapshot_required p =
     (pp_required_snapshot_index (rp_status p) \<noteq> pp_acked_snapshot_index (rp_status p))"

definition ack_snapshot_require :: "replication_pipeline \<Rightarrow> replication_pipeline" where
  "ack_snapshot_require p =
     upd_status (\<lambda>s. s\<lparr>pp_acked_snapshot_index := pp_required_snapshot_index s\<rparr>) p"

definition record_snapshot_chunk_sent :: "u64 \<Rightarrow> replication_pipeline \<Rightarrow> (unit, replication_pipeline) outcome" where
  "record_snapshot_chunk_sent bytes p = (case rp_snapshot_transfer p of
     None \<Rightarrow> (Inl (InvalidRequest ''snapshot send is not active''), p)
   | Some t \<Rightarrow> (Inr (), p\<lparr>rp_snapshot_transfer := Some (t\<lparr>st_bytes_sent := wrap_add (st_bytes_sent t) bytes\<rparr>)\<rparr>))"

definition clear_transfer :: "replication_pipeline \<Rightarrow> replication_pipeline" where
  "clear_transfer p =
     upd_status (\<lambda>s. s\<lparr>pp_snapshot_sending := False, pp_snapshot_installing := False\<rparr>)
       (p\<lparr>rp_snapshot_transfer := None\<rparr>)"

definition cancel_snapshot_send_for_new_snapshot :: "replication_pipeline \<Rightarrow> bool \<times> replication_pipeline" where
  "cancel_snapshot_send_for_new_snapshot p =
     (if pp_snapshot_sending (rp_status p) then (True, clear_transfer p) else (False, p))"

definition per_mille :: "u64 \<Rightarrow> u64 \<Rightarrow> u64" where
  "per_mille finished chunks = (if chunks = 0 then 1000 else min (wrap_mul finished 1000 div chunks) 1000)"

definition finish_snapshot_install :: "replication_pipeline \<Rightarrow> (unit, replication_pipeline) outcome" where
  "finish_snapshot_install p = (case rp_snapshot_transfer p of
     None \<Rightarrow> (Inl (InvalidRequest ''snapshot transfer is not active''), p)
   | Some t \<Rightarrow> (Inr (), reset_apply_inflight_window
       (upd_status (\<lambda>s. let matched = max (pp_match_index s) (st_snapshot_index t)
                        in s\<lparr>pp_snapshot_installed_index := max (pp_snapshot_installed_index s) (st_snapshot_index t),
                             pp_snapshot_install_progress_per_mille := 1000,
                             pp_match_index := matched, pp_next_index := sat_add matched 1\<rparr>)
          (clear_transfer p))))"

definition acknowledge_snapshot_chunk :: "replication_pipeline \<Rightarrow> (unit, replication_pipeline) outcome" where
  "acknowledge_snapshot_chunk p = (case rp_snapshot_transfer p of
     None \<Rightarrow> (Inl (InvalidRequest ''snapshot transfer is not active''), p)
   | Some t \<Rightarrow>
       (let t' = t\<lparr>st_acknowledged_chunks := wrap_add (st_acknowledged_chunks t) 1\<rparr>;
            p1 = upd_status (\<lambda>s. s\<lparr>pp_snapshot_install_progress_per_mille :=
                                per_mille (st_acknowledged_chunks t') (st_total_chunks t')\<rparr>)
                   (p\<lparr>rp_snapshot_transfer := Some t'\<rparr>)
        in if st_total_chunks t' \<le> st_acknowledged_chunks t' then finish_snapshot_install p1 else (Inr (), p1)))"

definition receive_snapshot_chunk :: "u64 \<Rightarrow> bool \<Rightarrow> replication_pipeline \<Rightarrow> (unit, replication_pipeline) outcome" where
  "receive_snapshot_chunk bytes is_done p = (case rp_snapshot_transfer p of
     None \<Rightarrow> (Inl (InvalidRequest ''snapshot install is not active''), p)
   | Some t \<Rightarrow>
       (let t' = t\<lparr>st_bytes_received := wrap_add (st_bytes_received t) bytes,
                   st_acknowledged_chunks := wrap_add (st_acknowledged_chunks t) 1\<rparr>;
            p1 = upd_status (\<lambda>s. s\<lparr>pp_snapshot_install_progress_per_mille :=
                                per_mille (st_acknowledged_chunks t') (st_total_chunks t')\<rparr>)
                   (p\<lparr>rp_snapshot_transfer := Some t'\<rparr>)
        in if is_done then finish_snapshot_install p1 else (Inr (), p1)))"

definition handle_snapshot_finish :: "bool \<Rightarrow> log_index \<Rightarrow> replication_pipeline \<Rightarrow> (unit, replication_pipeline) outcome" where
  "handle_snapshot_finish accepted committed p = (case rp_snapshot_transfer p of
     None \<Rightarrow> (Inl (InvalidRequest ''snapshot transfer is not active''), p)
   | Some t \<Rightarrow> (Inr (), if accepted
       then ack_snapshot_require
         (upd_status (\<lambda>s. let matched = max (pp_match_index s) committed
                          in s\<lparr>pp_snapshot_installed_index := max (pp_snapshot_installed_index s) (st_snapshot_index t),
                               pp_snapshot_install_progress_per_mille := 1000,
                               pp_match_index := matched, pp_next_index := sat_add matched 1\<rparr>)
            (clear_transfer p))
       else upd_status (\<lambda>s. s\<lparr>pp_snapshot_chunk_retry_count := wrap_add (pp_snapshot_chunk_retry_count s) 1\<rparr>)
              (clear_transfer p)))"

definition update_snapshot_progress :: "bool \<Rightarrow> u64 \<Rightarrow> u64 \<Rightarrow> replication_pipeline \<Rightarrow> bool \<times> replication_pipeline" where
  "update_snapshot_progress remote_receiving elapsed_ms send_timeout_ms p = (case rp_snapshot_transfer p of
     None \<Rightarrow> (False, p)
   | Some t \<Rightarrow>
       (if \<not> pp_snapshot_sending (rp_status p) then (False, p)
        else if remote_receiving
        then (False, p\<lparr>rp_snapshot_transfer := Some (t\<lparr>st_latest_receiving_elapsed_ms := 0\<rparr>)\<rparr>)
        else (let waited = sat_add (st_latest_receiving_elapsed_ms t) elapsed_ms
              in if waited \<le> send_timeout_ms
                 then (False, p\<lparr>rp_snapshot_transfer := Some (t\<lparr>st_latest_receiving_elapsed_ms := waited\<rparr>)\<rparr>)
                 else (True, upd_status (\<lambda>s. s\<lparr>pp_snapshot_install_progress_per_mille := 0,
                               pp_snapshot_send_timeouts := wrap_add (pp_snapshot_send_timeouts s) 1\<rparr>)
                             (clear_transfer p)))))"

definition retry_snapshot_chunk :: "replication_pipeline \<Rightarrow> (unit, replication_pipeline) outcome" where
  "retry_snapshot_chunk p =
     (if rp_snapshot_transfer p = None then (Inl (InvalidRequest ''snapshot transfer is not active''), p)
      else (Inr (), upd_status (\<lambda>s. s\<lparr>pp_snapshot_chunk_retry_count := wrap_add (pp_snapshot_chunk_retry_count s) 1\<rparr>) p))"

definition rollback_snapshot_install :: "replication_pipeline \<Rightarrow> replication_pipeline" where
  "rollback_snapshot_install p =
     upd_status (\<lambda>s. s\<lparr>pp_snapshot_install_rolled_back := wrap_add (pp_snapshot_install_rolled_back s) 1\<rparr>)
       (clear_transfer p)"

definition mark_snapshot_rejoin_after_compacted_log :: "replication_pipeline \<Rightarrow> replication_pipeline" where
  "mark_snapshot_rejoin_after_compacted_log p =
     upd_status (\<lambda>s. s\<lparr>pp_snapshot_rejoin_after_compacted_log := True\<rparr>) p"

section \<open>Responses\<close>

definition next_backoff_ms :: "u64 \<Rightarrow> u64" where
  "next_backoff_ms retry_attempts = min (sat_mul 10 (2 ^ min (retry_attempts - 1) 10)) 5000"

definition require_if_asked :: "append_entries_response \<Rightarrow> replication_pipeline \<Rightarrow> replication_pipeline" where
  "require_if_asked r p = (case ar_require_snapshot r of
     None \<Rightarrow> p | Some required \<Rightarrow> snd (maybe_require_snapshot required p))"

definition handle_append_success :: "append_entries_response \<Rightarrow> replication_pipeline \<Rightarrow> replication_pipeline" where
  "handle_append_success r p0 =
     (let p = upd_status (\<lambda>s. s\<lparr>pp_append_accepted := wrap_add (pp_append_accepted s) 1,
                                 pp_old_paused := is_paused p0\<rparr>) p0;
          previous = pp_match_index (rp_status p);
          matched = max previous (ar_match_index r);
          p1 = upd_status (\<lambda>s. s\<lparr>pp_match_index := matched, pp_next_index := sat_add matched 1\<rparr>) p;
          p2 = (if previous < matched
                then (case pp_progress_state (rp_status p1) of
                        Probe \<Rightarrow> upd_status (\<lambda>s. s\<lparr>pp_next_index := sat_add (pp_match_index s) 1\<rparr>)
                          (reset_inflight_window
                            (upd_status (\<lambda>s. s\<lparr>pp_progress_state := Replicate\<rparr>) (pipeline_resume p1)))
                      | Replicate \<Rightarrow> release_inflight_through (ar_match_index r) p1)
                else release_inflight_through (ar_match_index r) p1);
          p3 = upd_status (\<lambda>s. s\<lparr>pp_retry_attempts := 0, pp_backoff_ms := 0, pp_next_retry_after_ms := 0\<rparr>)
                 (drain_reorder_queue p2)
      in require_if_asked r p3)"

definition stale_rejection :: "append_entries_response \<Rightarrow> replication_pipeline \<Rightarrow> bool" where
  "stale_rejection r p =
     ((ar_require_snapshot r = None \<and> ar_match_index r < pp_match_index (rp_status p)
         \<and> (case ar_rejected_index r of None \<Rightarrow> True | Some rejected \<Rightarrow> rejected < pp_match_index (rp_status p)))
      \<or> (pp_progress_state (rp_status p) = Probe
         \<and> (case ar_rejected_index r of None \<Rightarrow> False | Some rejected \<Rightarrow> rejected \<noteq> pp_next_index (rp_status p))))"

definition handle_append_rejection :: "append_entries_response \<Rightarrow> replication_pipeline \<Rightarrow> replication_pipeline" where
  "handle_append_rejection r p =
     (let p1 = upd_status (\<lambda>s. let attempts = wrap_add (pp_retry_attempts s) 1
                               in s\<lparr>pp_append_rejected := wrap_add (pp_append_rejected s) 1,
                                    pp_retry_attempts := attempts, pp_backoff_ms := next_backoff_ms attempts,
                                    pp_next_retry_after_ms := next_backoff_ms attempts\<rparr>) p;
          was_replicating = (pp_progress_state (rp_status p1) = Replicate);
          p2 = (if was_replicating
                then upd_status (\<lambda>s. s\<lparr>pp_progress_state := Probe, pp_paused := False\<rparr>) p1
                else pipeline_resume p1);
          p3 = upd_status (\<lambda>s. s\<lparr>pp_next_index :=
                   (if was_replicating then sat_add (pp_match_index s) 1
                    else max (case ar_rejection_hint r of None \<Rightarrow> sat_add (ar_match_index r) 1 | Some h \<Rightarrow> h) 1)\<rparr>)
                 (reset_inflight_window p2);
          p4 = (if ar_rejection_hint r = ar_rejected_index r \<and> ar_rejection_hint r \<noteq> None then pause p3 else p3)
      in require_if_asked r p4)"

definition handle_append_response :: "append_entries_response \<Rightarrow> replication_pipeline \<Rightarrow> (unit, replication_pipeline) outcome" where
  "handle_append_response r p0 =
     (let p = (if ar_term r = 0
               then upd_status (\<lambda>s. s\<lparr>pp_stale_term_rejections := wrap_add (pp_stale_term_rejections s) 1\<rparr>) p0
               else p0)
      in if ar_success r then (Inr (), handle_append_success r p)
         else if stale_rejection r p then (Inr (), p)
         else (Inl (InvalidRequest ''append rejected by peer pipeline''), handle_append_rejection r p))"

definition record_retry_backoff_tick :: "u64 \<Rightarrow> replication_pipeline \<Rightarrow> bool \<times> replication_pipeline" where
  "record_retry_backoff_tick elapsed_ms p =
     (let p' = upd_status (\<lambda>s. s\<lparr>pp_next_retry_after_ms := pp_next_retry_after_ms s - elapsed_ms\<rparr>) p
      in (pp_next_retry_after_ms (rp_status p') = 0 \<and> 0 < pp_retry_attempts (rp_status p'), p'))"

definition record_network_error :: "replication_pipeline \<Rightarrow> bool \<times> replication_pipeline" where
  "record_network_error p =
     (let p1 = upd_status (\<lambda>s. s\<lparr>pp_packet_loss_events := sat_add (pp_packet_loss_events s) 1\<rparr>) p
      in if pp_progress_state (rp_status p1) \<noteq> Replicate then (False, p1)
         else (True, upd_status (\<lambda>s. s\<lparr>pp_next_index := sat_add (pp_match_index s) 1, pp_next_retry_after_ms := 0,
                        pp_network_error_probe_transitions := sat_add (pp_network_error_probe_transitions s) 1\<rparr>)
                (reset_inflight_window
                  (upd_status (\<lambda>s. s\<lparr>pp_progress_state := Probe, pp_paused := False\<rparr>) p1))))"

definition record_heartbeat_response :: "replication_pipeline \<Rightarrow> replication_pipeline" where
  "record_heartbeat_response p = (if is_paused p then pipeline_resume p else p)"

definition update_follower_lag :: "log_index \<Rightarrow> replication_pipeline \<Rightarrow> log_index \<times> replication_pipeline" where
  "update_follower_lag leader_commit p =
     (let lag = leader_commit - pp_match_index (rp_status p)
      in (lag, upd_status (\<lambda>s. s\<lparr>pp_follower_lag := lag\<rparr>) p))"

definition record_learner_catchup_round :: "log_index \<Rightarrow> replication_pipeline \<Rightarrow> bool \<times> replication_pipeline" where
  "record_learner_catchup_round leader_commit p =
     (let p1 = snd (update_follower_lag leader_commit
                (upd_status (\<lambda>s. s\<lparr>pp_learner_catchup_rounds := wrap_add (pp_learner_catchup_rounds s) 1\<rparr>) p));
          caught = (leader_commit \<le> pp_match_index (rp_status p1))
      in (caught, upd_status (\<lambda>s. s\<lparr>pp_learner_caught_up := caught\<rparr>) p1))"

definition record_witness_quorum :: "u64 \<Rightarrow> u64 \<Rightarrow> replication_pipeline \<Rightarrow> bool \<times> replication_pipeline" where
  "record_witness_quorum acknowledged required p =
     (required \<le> acknowledged,
      upd_status (\<lambda>s. s\<lparr>pp_witness_quorum_acked := acknowledged, pp_witness_quorum_required := required,
                        pp_witness_quorum_reached := (required \<le> acknowledged)\<rparr>) p)"

definition record_peer_active :: "replication_pipeline \<Rightarrow> replication_pipeline" where
  "record_peer_active p = upd_status (\<lambda>s. s\<lparr>pp_offline_timeout_reached := False\<rparr>) p"

definition record_offline_timeout :: "replication_pipeline \<Rightarrow> replication_pipeline" where
  "record_offline_timeout p =
     upd_status (\<lambda>s. (if pp_offline_timeout_reached s then s
                      else s\<lparr>pp_offline_timeout_rejections := sat_add (pp_offline_timeout_rejections s) 1\<rparr>)
                     \<lparr>pp_offline_timeout_reached := True\<rparr>) p"

section \<open>Outcome of an apply batch\<close>

datatype apply_batch_status = BatchApplied | BatchNotReady | BatchRejected

record apply_batch_outcome =
  bo_status :: apply_batch_status
  bo_first_log_id :: "log_id option"
  bo_last_log_id :: "log_id option"
  bo_applied_through :: log_index
  bo_next_index :: log_index
  bo_applied_entries :: "log_entry list"
  bo_pending_entries :: "log_entry list"

definition matrixraft_apply_batch_outcome ::
  "log_entry list \<Rightarrow> nat \<Rightarrow> apply_batch_status \<Rightarrow> apply_batch_outcome" where
  "matrixraft_apply_batch_outcome entries applied_count status =
     (let n = min applied_count (length entries);
          applied = take n entries; pending = drop n entries;
          last_id = (if entries = [] then None else Some (le_log_id (last entries)))
      in \<lparr>bo_status = status,
          bo_first_log_id = (case entries of [] \<Rightarrow> None | e # _ \<Rightarrow> Some (le_log_id e)),
          bo_last_log_id = last_id,
          bo_applied_through = (if applied = [] then 0 else idx (last applied)),
          bo_next_index = (case pending of
              e # _ \<Rightarrow> idx e
            | [] \<Rightarrow> (case last_id of None \<Rightarrow> 0 | Some l \<Rightarrow> sat_add (li_index l) 1)),
          bo_applied_entries = applied, bo_pending_entries = pending\<rparr>)"

end
