(* ===== verification/MR_Pipeline_Safety.thy ===== *)
theory MR_Pipeline_Safety
  imports MR_Pipeline
begin

text \<open>
  The invariant of the replication pipeline and what it gives: the counters of the status are the
  sizes of the queues they describe, the queues stay inside the configured memory and entry
  limits, at most one snapshot transfer is active, a flush takes the queue in order and always
  makes progress, and the reorder queue hands over exactly the contiguous run it holds.
\<close>

section \<open>Invariant\<close>

definition limits_ok :: "pipeline_limits \<Rightarrow> bool" where
  "limits_ok l \<longleftrightarrow>
     pl_max_memory_replicate_log_bytes l + pl_max_apply_batch_bytes l \<le> u64_max
     \<and> 2 * pl_max_inflights_replicate l \<le> u64_max"

definition queued_bytes :: "queued_append list \<Rightarrow> nat" where
  "queued_bytes q = sum_list (map qa_bytes q)"

definition window_bytes :: "inflight_append list \<Rightarrow> nat" where
  "window_bytes w = sum_list (map ia_bytes w)"

definition window_entries :: "inflight_append list \<Rightarrow> nat" where
  "window_entries w = sum_list (map ia_entry_count w)"

text \<open>The append side: queue and in-flight window.\<close>

definition append_inv :: "replication_pipeline \<Rightarrow> bool" where
  "append_inv p \<longleftrightarrow>
     rp_append_queue_bytes p = queued_bytes (rp_append_queue p)
     \<and> pp_inflight_bytes (rp_status p) = window_bytes (rp_inflight p)
     \<and> pp_inflight_entries (rp_status p) = window_entries (rp_inflight p)
     \<and> window_bytes (rp_inflight p) + queued_bytes (rp_append_queue p)
         \<le> pl_max_memory_replicate_log_bytes (rp_limits p)
     \<and> pp_append_queue_limit (rp_status p) = pl_max_inflights_replicate (rp_limits p)
     \<and> length (rp_append_queue p) \<le> pl_max_inflights_replicate (rp_limits p)
     \<and> window_entries (rp_inflight p) \<le> 2 * pl_max_inflights_replicate (rp_limits p)
     \<and> (rp_inflight p \<noteq> [] \<longrightarrow> window_entries (butlast (rp_inflight p)) < pl_max_inflights_replicate (rp_limits p)
          \<and> window_entries (rp_inflight p) < 2 * pl_max_inflights_replicate (rp_limits p))"

text \<open>The receiving side: apply window, reorder queue, snapshot transfer.\<close>

definition receive_inv :: "replication_pipeline \<Rightarrow> bool" where
  "receive_inv p \<longleftrightarrow>
     pp_append_queue_depth (rp_status p) = length (rp_append_queue p)
     \<and> pp_apply_inflight_tasks (rp_status p) = length (rp_apply_inflight p)
     \<and> pp_apply_queue_depth (rp_status p) = length (rp_apply_inflight p)
     \<and> length (rp_apply_inflight p) \<le> pl_max_inflights_apply_task (rp_limits p)
     \<and> (\<forall>t \<in> set (rp_apply_inflight p). at_batch_bytes t \<le> pl_max_apply_batch_bytes (rp_limits p))
     \<and> bt_invar (rp_reorder_queue p)
     \<and> pp_reorder_queue_depth (rp_status p) = length (rp_reorder_queue p)
     \<and> length (rp_reorder_queue p) \<le> pl_reorder_window_size (rp_limits p)
     \<and> (rp_snapshot_transfer p = None
          \<longleftrightarrow> \<not> pp_snapshot_sending (rp_status p) \<and> \<not> pp_snapshot_installing (rp_status p))
     \<and> \<not> (pp_snapshot_sending (rp_status p) \<and> pp_snapshot_installing (rp_status p))"

definition pipeline_inv :: "replication_pipeline \<Rightarrow> bool" where
  "pipeline_inv p \<longleftrightarrow> limits_ok (rp_limits p) \<and> append_inv p \<and> receive_inv p"

lemma upd_status_simps [simp]:
  "rp_status (upd_status f p) = f (rp_status p)" "rp_limits (upd_status f p) = rp_limits p"
  "rp_append_queue (upd_status f p) = rp_append_queue p" "rp_peer_id (upd_status f p) = rp_peer_id p"
  "rp_append_queue_bytes (upd_status f p) = rp_append_queue_bytes p"
  "rp_inflight (upd_status f p) = rp_inflight p" "rp_apply_inflight (upd_status f p) = rp_apply_inflight p"
  "rp_reorder_queue (upd_status f p) = rp_reorder_queue p"
  "rp_snapshot_transfer (upd_status f p) = rp_snapshot_transfer p"
  by (simp_all add: upd_status_def)

lemma window_simps [simp]:
  "window_bytes [] = 0" "window_bytes (i # w) = ia_bytes i + window_bytes w"
  "window_bytes (v @ w) = window_bytes v + window_bytes w"
  "window_entries [] = 0" "window_entries (i # w) = ia_entry_count i + window_entries w"
  "window_entries (v @ w) = window_entries v + window_entries w"
  "queued_bytes [] = 0" "queued_bytes (q # qs) = qa_bytes q + queued_bytes qs"
  "queued_bytes (as @ bs) = queued_bytes as + queued_bytes bs"
  by (simp_all add: window_bytes_def window_entries_def queued_bytes_def)

lemma limits_ok_sat_add:
  "limits_ok l \<Longrightarrow> x + b \<le> pl_max_memory_replicate_log_bytes l \<Longrightarrow> sat_add x b = x + b"
  unfolding limits_ok_def by (intro sat_add_exact) linarith

text \<open>
  A status update that leaves the fields of the invariant alone preserves it. The three
  projections name those fields, so that an operation that only counts something is covered by
  one lemma.
\<close>

definition append_view :: "peer_progress \<Rightarrow> nat \<times> nat \<times> nat" where
  "append_view s = (pp_inflight_bytes s, pp_inflight_entries s, pp_append_queue_limit s)"

definition receive_view :: "peer_progress \<Rightarrow> nat \<times> nat \<times> nat \<times> nat \<times> bool \<times> bool" where
  "receive_view s = (pp_append_queue_depth s, pp_apply_inflight_tasks s, pp_apply_queue_depth s,
     pp_reorder_queue_depth s, pp_snapshot_sending s, pp_snapshot_installing s)"

lemma append_inv_upd:
  "append_view (f (rp_status p)) = append_view (rp_status p) \<Longrightarrow> append_inv (upd_status f p) \<longleftrightarrow> append_inv p"
  by (simp add: append_inv_def append_view_def)

lemma receive_inv_upd:
  "receive_view (f (rp_status p)) = receive_view (rp_status p) \<Longrightarrow> receive_inv (upd_status f p) \<longleftrightarrow> receive_inv p"
  by (simp add: receive_inv_def receive_view_def)

lemma pipeline_inv_upd:
  assumes "append_view (f (rp_status p)) = append_view (rp_status p)"
    and "receive_view (f (rp_status p)) = receive_view (rp_status p)"
  shows "pipeline_inv (upd_status f p) \<longleftrightarrow> pipeline_inv p"
  using assms by (simp add: pipeline_inv_def append_inv_upd receive_inv_upd)

lemmas view_defs = append_view_def receive_view_def

lemma pipeline_inv_new: "limits_ok l \<Longrightarrow> pipeline_inv (pipeline_new i n l)"
  by (simp add: pipeline_inv_def append_inv_def receive_inv_def pipeline_new_def peer_progress_new_def)

lemma pipeline_inv_reset:
  "pipeline_inv p \<Longrightarrow> pipeline_inv (reset_for_leader_transition m n st p)"
  by (simp add: pipeline_inv_def append_inv_def receive_inv_def reset_for_leader_transition_def peer_progress_new_def)

lemma queue_append_inv:
  assumes "pipeline_inv p" "queue_append e p = (r, p')"
  shows "pipeline_inv p'"
proof -
  let ?b = "length (le_payload e)" and ?l = "rp_limits p"
  have l: "limits_ok ?l" and a: "append_inv p" and rc: "receive_inv p"
    using assms(1) by (auto simp: pipeline_inv_def)
  consider (big) "pl_max_apply_batch_bytes ?l < ?b"
    | (fits) "?b \<le> pl_max_apply_batch_bytes ?l" by linarith
  then show ?thesis
  proof cases
    case big
    with assms show ?thesis by (auto simp: queue_append_def pipeline_inv_upd view_defs)
  next
    case fits
    have w: "wrap_add (wrap_add (pp_inflight_bytes (rp_status p)) (rp_append_queue_bytes p)) ?b
        = window_bytes (rp_inflight p) + queued_bytes (rp_append_queue p) + ?b"
      using l a fits by (auto simp: limits_ok_def append_inv_def wrap_add_exact)
    show ?thesis
      using assms fits w l a rc limits_ok_sat_add [OF l, of "queued_bytes (rp_append_queue p)" ?b]
      by (auto simp: queue_append_def pipeline_inv_upd view_defs Let_def split: if_splits)
        (auto simp: pipeline_inv_def append_inv_def receive_inv_def)
  qed
qed

section \<open>Window operations keep the invariant\<close>

lemma window_tail_inv:
  assumes "append_inv (p\<lparr>rp_inflight := i # w\<rparr>)"
  shows "append_inv (upd_status (\<lambda>s. s\<lparr>pp_inflight_entries := pp_inflight_entries s - ia_entry_count i,
                                       pp_inflight_bytes := pp_inflight_bytes s - ia_bytes i\<rparr>) (p\<lparr>rp_inflight := w\<rparr>))"
  using assms by (auto simp: append_inv_def)

lemma receive_inv_window [simp]: "receive_inv (p\<lparr>rp_inflight := w\<rparr>) \<longleftrightarrow> receive_inv p"
  by (simp add: receive_inv_def)

lemma upd_status_window: "upd_status f (p\<lparr>rp_inflight := w\<rparr>) = (upd_status f p)\<lparr>rp_inflight := w\<rparr>"
  by (simp add: upd_status_def)

lemma free_first_inflight_inv:
  assumes "pipeline_inv p"
  shows "pipeline_inv (free_first_inflight p)"
proof (cases "rp_inflight p")
  case Nil
  then show ?thesis using assms by (simp add: free_first_inflight_def)
next
  case (Cons i w)
  then have "append_inv (p\<lparr>rp_inflight := i # w\<rparr>)"
    using assms by (metis pipeline_inv_def replication_pipeline.surjective replication_pipeline.update_convs(6))
  from window_tail_inv [OF this] assms Cons show ?thesis
    by (simp add: free_first_inflight_def pipeline_inv_def receive_inv_upd view_defs)
qed

lemma release_loop_inv:
  assumes "append_inv (p\<lparr>rp_inflight := w\<rparr>)" "receive_inv p"
  shows "append_inv (release_loop m w p) \<and> receive_inv (release_loop m w p)
    \<and> rp_limits (release_loop m w p) = rp_limits p
    \<and> rp_inflight (release_loop m w p) = dropWhile (\<lambda>i. li_index (ia_last_log_id i) \<le> m) w"
  using assms
proof (induction m w p rule: release_loop.induct)
  case (2 m i w p)
  then show ?case
    using window_tail_inv [OF "2.prems"(1)] by (auto simp: upd_status_window receive_inv_upd view_defs)
qed auto

lemma release_inflight_through_inv: "pipeline_inv p \<Longrightarrow> pipeline_inv (release_inflight_through m p)"
  using release_loop_inv [where p = p and w = "rp_inflight p" and m = m]
  by (simp add: pipeline_inv_def release_inflight_through_def)

lemma reset_inflight_window_inv: "pipeline_inv p \<Longrightarrow> pipeline_inv (reset_inflight_window p)"
  by (auto simp: pipeline_inv_def append_inv_def receive_inv_def reset_inflight_window_def)

lemma pipeline_resume_inv: "pipeline_inv p \<Longrightarrow> pipeline_inv (pipeline_resume p)"
  by (auto simp: pipeline_resume_def pipeline_inv_upd view_defs free_first_inflight_inv split: progress_state.splits)

section \<open>Flushing\<close>

text \<open>A batch describes a run of the queue: first and last position, number of entries, bytes.\<close>

definition batch_of :: "queued_append list \<Rightarrow> inflight_append" where
  "batch_of g = \<lparr>ia_first_log_id = qa_log_id (hd g), ia_last_log_id = qa_log_id (last g),
                 ia_entry_count = length g, ia_bytes = queued_bytes g\<rparr>"

definition batch_fits :: "u64 \<Rightarrow> u64 \<Rightarrow> queued_append list \<Rightarrow> bool" where
  "batch_fits max_entries max_bytes g \<longleftrightarrow>
     g \<noteq> [] \<and> length g \<le> max_entries \<and> (queued_bytes g \<le> max_bytes \<or> length g = 1)"

lemma take_batch_run:
  assumes "take_batch mem ib me mb qs qb c b l = (qs', qb', c', b', l')"
    and "ib + b + queued_bytes qs \<le> mem" "mem \<le> u64_max" "qb = queued_bytes qs"
    and "c = 0 \<or> b \<le> mb \<or> c = 1" "c \<le> me"
  shows "\<exists>g. qs = g @ qs' \<and> c' = c + length g \<and> b' = b + queued_bytes g \<and> qb' = queued_bytes qs'
    \<and> l' = (if g = [] then l else qa_log_id (last g)) \<and> c' \<le> me
    \<and> (c' = 0 \<or> b' \<le> mb \<or> c' = 1) \<and> (c < me \<longrightarrow> qs \<noteq> [] \<longrightarrow> c = 0 \<longrightarrow> g \<noteq> [])"
  using assms
proof (induction mem ib me mb qs qb c b l rule: take_batch.induct)
  case (2 mem ib me mb q qs qb c b l)
  let ?w = "wrap_add b (qa_bytes q)"
  have w: "?w = b + qa_bytes q" "wrap_add (wrap_add ib b) (qa_bytes q) = ib + b + qa_bytes q"
    using "2.prems"(2,3) by (auto simp: wrap_add_exact)
  show ?case
  proof (cases "\<not> c < me \<or> (0 < c \<and> mb < b + qa_bytes q)")
    case True
    with "2.prems" w show ?thesis by (intro exI [of _ "[]"]) auto
  next
    case False
    have mem: "\<not> mem < ib + b + qa_bytes q" using "2.prems"(2) by simp
    then have rec: "take_batch mem ib me mb qs (queued_bytes qs) (c + 1) (b + qa_bytes q) (qa_log_id q) = (qs', qb', c', b', l')"
      using "2.prems"(1,4) False w by auto
    have "\<not> (\<not> c < me \<or> (0 < c \<and> mb < ?w) \<or> mem < wrap_add (wrap_add ib b) (qa_bytes q))"
      using False mem w by simp
    from "2.IH" [OF this] "2.prems" rec False w obtain g where
      "qs = g @ qs'" "c' = c + 1 + length g" "b' = b + qa_bytes q + queued_bytes g" "qb' = queued_bytes qs'"
      "l' = (if g = [] then qa_log_id q else qa_log_id (last g))" "c' \<le> me" "b' \<le> mb \<or> c' = 1"
      by (auto simp: not_less)
    then show ?thesis by (intro exI [of _ "q # g"]) auto
  qed
qed auto

lemma take_batch_queue:
  assumes "append_inv p" "limits_ok (rp_limits p)" "rp_append_queue p \<noteq> []" "0 < me"
  shows "\<exists>g q'. rp_append_queue p = g @ q' \<and> batch_fits me mb g
    \<and> take_batch (pl_max_memory_replicate_log_bytes (rp_limits p)) (pp_inflight_bytes (rp_status p)) me mb
        (rp_append_queue p) (rp_append_queue_bytes p) 0 0 (qa_log_id (hd (rp_append_queue p)))
        = (q', queued_bytes q', length g, queued_bytes g, qa_log_id (last g))"
proof -
  obtain q' qb' c' b' l' where t: "take_batch (pl_max_memory_replicate_log_bytes (rp_limits p))
      (pp_inflight_bytes (rp_status p)) me mb (rp_append_queue p) (rp_append_queue_bytes p) 0 0
      (qa_log_id (hd (rp_append_queue p))) = (q', qb', c', b', l')"
    by (metis prod_cases5)
  from take_batch_run [OF this] assms t show ?thesis
    by (auto simp: append_inv_def limits_ok_def batch_fits_def)
qed

text \<open>One turn of the flush loop: the run \<open>g\<close> leaves the queue and enters the window as a batch.\<close>

definition push_batch :: "queued_append list \<Rightarrow> queued_append list \<Rightarrow> replication_pipeline \<Rightarrow> replication_pipeline" where
  "push_batch g q' p =
     upd_status (\<lambda>s. s\<lparr>pp_append_requests := wrap_add (pp_append_requests s) 1,
         pp_append_batches := wrap_add (pp_append_batches s) 1,
         pp_max_append_batch_entries := max (pp_max_append_batch_entries s) (length g),
         pp_max_append_batch_bytes := max (pp_max_append_batch_bytes s) (queued_bytes g),
         pp_inflight_entries := wrap_add (pp_inflight_entries s) (length g),
         pp_inflight_bytes := wrap_add (pp_inflight_bytes s) (queued_bytes g)\<rparr>)
       (p\<lparr>rp_append_queue := q', rp_append_queue_bytes := queued_bytes q',
          rp_inflight := rp_inflight p @ [batch_of g]\<rparr>)"

definition can_flush :: "replication_pipeline \<Rightarrow> bool" where
  "can_flush p \<longleftrightarrow> \<not> is_paused p
     \<and> pp_inflight_entries (rp_status p) < pl_max_inflights_replicate (rp_limits p) \<and> rp_append_queue p \<noteq> []"

declare flush_loop.simps [simp del] drain_loop.simps [simp del]

lemma flush_loop_stop: "\<not> can_flush p \<Longrightarrow> flush_loop me mb p = ([], p)"
  by (subst flush_loop.simps) (auto simp: can_flush_def not_less)

lemma flush_loop_turn:
  assumes "append_inv p" "limits_ok (rp_limits p)" "can_flush p" "0 < me"
  obtains g q' where "rp_append_queue p = g @ q'" "batch_fits me mb g"
    "flush_loop me mb p =
       (if pp_progress_state (rp_status p) = Probe then ([batch_of g], pause (push_batch g q' p))
        else (case flush_loop me mb (push_batch g q' p) of (is, p2) \<Rightarrow> (batch_of g # is, p2)))"
proof -
  from assms(3) have c: "\<not> is_paused p" "rp_append_queue p \<noteq> []"
    "\<not> pl_max_inflights_replicate (rp_limits p) \<le> pp_inflight_entries (rp_status p)"
    by (auto simp: can_flush_def)
  from take_batch_queue [OF assms(1,2) c(2) assms(4)] obtain g q' where
    g: "rp_append_queue p = g @ q'" "batch_fits me mb g" and
    t: "take_batch (pl_max_memory_replicate_log_bytes (rp_limits p)) (pp_inflight_bytes (rp_status p)) me mb
        (rp_append_queue p) (rp_append_queue_bytes p) 0 0 (qa_log_id (hd (rp_append_queue p)))
        = (q', queued_bytes q', length g, queued_bytes g, qa_log_id (last g))"
    by blast
  have h: "hd (rp_append_queue p) = hd g" "g \<noteq> []" using g by (auto simp: batch_fits_def)
  then have "flush_loop me mb p =
       (if pp_progress_state (rp_status p) = Probe then ([batch_of g], pause (push_batch g q' p))
        else (case flush_loop me mb (push_batch g q' p) of (is, p2) \<Rightarrow> (batch_of g # is, p2)))"
    using c by (subst flush_loop.simps) (simp add: t [unfolded h(1)] Let_def push_batch_def batch_of_def)
  with g that show ?thesis by blast
qed

lemma push_batch_inv:
  assumes "append_inv p" "limits_ok (rp_limits p)" "can_flush p" "rp_append_queue p = g @ q'"
  shows "append_inv (push_batch g q' p)"
  using assms
  by (auto simp: append_inv_def push_batch_def limits_ok_def can_flush_def batch_of_def wrap_add_exact)

lemma push_batch_simps [simp]:
  "rp_limits (push_batch g q' p) = rp_limits p" "rp_append_queue (push_batch g q' p) = q'"
  "rp_inflight (push_batch g q' p) = rp_inflight p @ [batch_of g]"
  "rp_apply_inflight (push_batch g q' p) = rp_apply_inflight p"
  "rp_reorder_queue (push_batch g q' p) = rp_reorder_queue p"
  "rp_snapshot_transfer (push_batch g q' p) = rp_snapshot_transfer p"
  "receive_view (rp_status (push_batch g q' p)) = receive_view (rp_status p)"
  "pp_memory_backpressure_rejections (rp_status (push_batch g q' p)) = pp_memory_backpressure_rejections (rp_status p)"
  by (simp_all add: push_batch_def receive_view_def)

definition same_receiver :: "replication_pipeline \<Rightarrow> replication_pipeline \<Rightarrow> bool" where
  "same_receiver p p' \<longleftrightarrow> rp_limits p' = rp_limits p \<and> rp_apply_inflight p' = rp_apply_inflight p
     \<and> rp_reorder_queue p' = rp_reorder_queue p \<and> rp_snapshot_transfer p' = rp_snapshot_transfer p
     \<and> receive_view (rp_status p') = receive_view (rp_status p)
     \<and> pp_memory_backpressure_rejections (rp_status p') = pp_memory_backpressure_rejections (rp_status p)"

definition flushed_in_order :: "u64 \<Rightarrow> u64 \<Rightarrow> replication_pipeline \<Rightarrow> inflight_append list \<Rightarrow> replication_pipeline \<Rightarrow> bool" where
  "flushed_in_order me mb p fl p' \<longleftrightarrow>
     (\<exists>gs. fl = map batch_of gs \<and> list_all (batch_fits me mb) gs
        \<and> concat gs @ rp_append_queue p' = rp_append_queue p)
     \<and> rp_inflight p' = rp_inflight p @ fl \<and> (can_flush p \<longrightarrow> fl \<noteq> [])"

lemma flush_loop_spec:
  assumes "append_inv p" "limits_ok (rp_limits p)" "0 < me" "flush_loop me mb p = (fl, p')"
  shows "append_inv p' \<and> same_receiver p p' \<and> flushed_in_order me mb p fl p'"
  using assms
proof (induction "length (rp_append_queue p)" arbitrary: p fl rule: less_induct)
  case less
  show ?case
  proof (cases "can_flush p")
    case False
    with less.prems show ?thesis
      by (auto simp: flush_loop_stop same_receiver_def flushed_in_order_def intro!: exI [of _ "[]"])
  next
    case True
    obtain g q' where g: "rp_append_queue p = g @ q'" "batch_fits me mb g" and turn:
      "flush_loop me mb p =
       (if pp_progress_state (rp_status p) = Probe then ([batch_of g], pause (push_batch g q' p))
        else (case flush_loop me mb (push_batch g q' p) of (is, p2) \<Rightarrow> (batch_of g # is, p2)))"
      by (rule flush_loop_turn [OF less.prems(1,2) True less.prems(3)])
    have inv: "append_inv (push_batch g q' p)" by (rule push_batch_inv [OF less.prems(1,2) True g(1)])
    have ne: "g \<noteq> []" using g(2) by (simp add: batch_fits_def)
    show ?thesis
    proof (cases "pp_progress_state (rp_status p) = Probe")
      case True
      with turn less.prems(4) inv g show ?thesis
        by (auto simp: pause_def append_inv_upd same_receiver_def flushed_in_order_def view_defs
            intro!: exI [of _ "[g]"])
          (simp_all add: push_batch_def)
    next
      case False
      then obtain fl2 where f: "flush_loop me mb (push_batch g q' p) = (fl2, p')" "fl = batch_of g # fl2"
        using turn less.prems(4) by (auto split: prod.splits)
      have "append_inv p' \<and> same_receiver (push_batch g q' p) p' \<and> flushed_in_order me mb (push_batch g q' p) fl2 p'"
        using less.hyps [OF _ inv _ _ f(1)] less.prems(2,3) g ne by simp
      then show ?thesis
        using f(2) g by (auto simp: same_receiver_def flushed_in_order_def intro: exI [of _ "g # _"])
    qed
  qed
qed

lemma flush_append_batch_spec:
  assumes "pipeline_inv p" "flush_append_batch me mb p = (fl, p')"
  defines "entries \<equiv> (if pp_progress_state (rp_status p) = Probe then 1 else max me 1)"
  shows "pipeline_inv p' \<and> flushed_in_order entries (max mb 1) p fl p'
    \<and> pp_memory_backpressure_rejections (rp_status p') = pp_memory_backpressure_rejections (rp_status p)"
proof -
  obtain p1 where f: "flush_loop entries (max mb 1) p = (fl, p1)"
    and p': "p' = upd_status (\<lambda>s. s\<lparr>pp_append_queue_depth := length (rp_append_queue p1)\<rparr>) p1"
    using assms(2) by (auto simp: flush_append_batch_def entries_def Let_def split: prod.splits)
  have "append_inv p1 \<and> same_receiver p p1 \<and> flushed_in_order entries (max mb 1) p fl p1"
    using flush_loop_spec [OF _ _ _ f] assms(1) by (auto simp: pipeline_inv_def entries_def)
  then show ?thesis
    using assms(1) by (auto simp: p' pipeline_inv_def append_inv_upd view_defs same_receiver_def
        flushed_in_order_def receive_inv_def)
qed

section \<open>Reorder queue\<close>

lemma length_bt_insert: "length (bt_insert k v m) \<le> Suc (length m)"
  by (induction k v m rule: bt_insert.induct) auto

lemma length_bt_remove: "length (bt_remove k m) \<le> length m"
  by (simp add: bt_remove_def)

lemma drain_loop_shape:
  "drain_loop q m n c = (q', m', n', c') \<Longrightarrow> bt_invar q \<Longrightarrow> bt_invar q' \<and> length q' \<le> length q"
proof (induction q m n c rule: drain_loop.induct)
  case (1 q m n c)
  show ?case
  proof (cases "bt_get q n")
    case None
    with 1 show ?thesis by (simp add: drain_loop.simps)
  next
    case (Some a)
    with "1.prems" have "drain_loop (bt_remove n q) n (sat_add n 1) (sat_add c 1) = (q', m', n', c')"
      by (subst (asm) drain_loop.simps) simp
    from "1.IH" [OF Some this] "1.prems"(2) show ?thesis
      using length_bt_remove [of n q] by simp
  qed
qed

text \<open>The drained run: every index from the expected one on, up to the first that is missing.\<close>

lemma drain_loop_run:
  assumes "drain_loop q m n c = (q', m', n', c')" "bt_get q u64_max = None" "n \<le> u64_max"
  shows "n \<le> n' \<and> n' \<le> u64_max \<and> (\<forall>k. n \<le> k \<and> k < n' \<longrightarrow> bt_get q k \<noteq> None) \<and> bt_get q n' = None
    \<and> m' = (if n' = n then m else n' - 1)
    \<and> (\<forall>k. bt_get q' k = (if n \<le> k \<and> k < n' then None else bt_get q k))"
  using assms
proof (induction q m n c rule: drain_loop.induct)
  case (1 q m n c)
  show ?case
  proof (cases "bt_get q n")
    case None
    with 1 show ?thesis by (auto simp: drain_loop.simps)
  next
    case (Some a)
    then have lt: "n < u64_max" using "1.prems"(2,3) by (cases "n = u64_max") auto
    then have sn: "sat_add n 1 = n + 1" by (simp add: sat_add_exact)
    have rec: "drain_loop (bt_remove n q) n (n + 1) (sat_add c 1) = (q', m', n', c')"
      using "1.prems"(1) Some sn by (subst (asm) drain_loop.simps) simp
    have *: "n + 1 \<le> n'" "n' \<le> u64_max" "\<forall>k. n + 1 \<le> k \<and> k < n' \<longrightarrow> bt_get (bt_remove n q) k \<noteq> None"
      "bt_get (bt_remove n q) n' = None" "m' = (if n' = n + 1 then n else n' - 1)"
      "\<forall>k. bt_get q' k = (if n + 1 \<le> k \<and> k < n' then None else bt_get (bt_remove n q) k)"
      using "1.IH" [OF Some] rec sn "1.prems"(2) lt by auto
    have "bt_get q k \<noteq> None" if "n \<le> k" "k < n'" for k
      using *(3) that Some by (cases "k = n") (auto split: if_splits)
    moreover have "bt_get q' k = (if n \<le> k \<and> k < n' then None else bt_get q k)" for k
      using *(1,6) by (cases "k = n") auto
    ultimately show ?thesis using *(1,2,4,5) by (auto split: if_splits)
  qed
qed

lemma drain_reorder_queue_fields:
  obtains q m n c where
    "drain_loop (rp_reorder_queue p) (pp_match_index (rp_status p)) (pp_next_index (rp_status p)) 0 = (q, m, n, c)"
    "drain_reorder_queue p = upd_status (\<lambda>s. s\<lparr>pp_match_index := m, pp_next_index := n,
        pp_reorder_entries_converged := sat_add (pp_reorder_entries_converged s) c,
        pp_reorder_queue_depth := length q\<rparr>) (p\<lparr>rp_reorder_queue := q\<rparr>)"
proof -
  obtain q m n c where
    "drain_loop (rp_reorder_queue p) (pp_match_index (rp_status p)) (pp_next_index (rp_status p)) 0 = (q, m, n, c)"
    by (rule prod_cases4)
  with that show ?thesis by (simp add: drain_reorder_queue_def)
qed

lemma drain_reorder_queue_inv:
  assumes "pipeline_inv p"
  shows "pipeline_inv (drain_reorder_queue p)"
proof -
  obtain q m n c where
    d: "drain_loop (rp_reorder_queue p) (pp_match_index (rp_status p)) (pp_next_index (rp_status p)) 0 = (q, m, n, c)"
    "drain_reorder_queue p = upd_status (\<lambda>s. s\<lparr>pp_match_index := m, pp_next_index := n,
        pp_reorder_entries_converged := sat_add (pp_reorder_entries_converged s) c,
        pp_reorder_queue_depth := length q\<rparr>) (p\<lparr>rp_reorder_queue := q\<rparr>)"
    by (rule drain_reorder_queue_fields)
  have "bt_invar q \<and> length q \<le> length (rp_reorder_queue p)"
    using drain_loop_shape [OF d(1)] assms by (simp add: pipeline_inv_def receive_inv_def)
  then show ?thesis
    using assms by (auto simp: d(2) pipeline_inv_def append_inv_def receive_inv_def)
qed

lemma reorder_replace_inv:
  assumes "pipeline_inv p" "bt_invar q" "length q \<le> pl_reorder_window_size (rp_limits p)"
    and "append_view (f (rp_status p)) = append_view (rp_status p)"
    and "receive_view (f (rp_status p)) = receive_view ((rp_status p)\<lparr>pp_reorder_queue_depth := length q\<rparr>)"
  shows "pipeline_inv (upd_status f (p\<lparr>rp_reorder_queue := q\<rparr>))"
  using assms by (simp add: pipeline_inv_def append_inv_def receive_inv_def view_defs)

lemma receive_out_of_order_inv:
  assumes "pipeline_inv p"
  shows "pipeline_inv (snd (receive_out_of_order e p))"
proof -
  have ins: "length (bt_insert (idx e) 0 (rp_reorder_queue p)) \<le> pl_reorder_window_size (rp_limits p)"
    if "\<not> pl_reorder_window_size (rp_limits p) \<le> length (rp_reorder_queue p)"
    using that length_bt_insert [of "idx e" 0 "rp_reorder_queue p"] by linarith
  have inv: "bt_invar (bt_insert (idx e) 0 (rp_reorder_queue p))"
    using assms by (simp add: pipeline_inv_def receive_inv_def)
  show ?thesis
    using assms ins inv unfolding receive_out_of_order_def Let_def
    by (simp add: pipeline_inv_upd view_defs drain_reorder_queue_inv reorder_replace_inv split: option.split)
qed

lemma bt_invar_filter_map: "bt_invar q \<Longrightarrow> bt_invar (filter P (bt_map_values f q))"
  unfolding bt_invar_def bt_map_values_def by (induction q) auto

lemma reorder_subset_inv:
  fixes P f
  assumes "pipeline_inv p"
  defines "q \<equiv> filter P (bt_map_values f (rp_reorder_queue p))"
  shows "bt_invar q" "length q \<le> pl_reorder_window_size (rp_limits p)"
proof -
  have "length q \<le> length (rp_reorder_queue p)"
    using length_filter_le [of P "bt_map_values f (rp_reorder_queue p)"] by (simp add: q_def bt_map_values_def)
  then show "bt_invar q" "length q \<le> pl_reorder_window_size (rp_limits p)"
    using assms bt_invar_filter_map by (auto simp: pipeline_inv_def receive_inv_def)
qed

lemma same_length_reorder_inv:
  "pipeline_inv p \<Longrightarrow> bt_invar q \<Longrightarrow> length q = length (rp_reorder_queue p) \<Longrightarrow> pipeline_inv (p\<lparr>rp_reorder_queue := q\<rparr>)"
  by (simp add: pipeline_inv_def append_inv_def receive_inv_def)

lemma tick_reorder_queue_inv:
  assumes "pipeline_inv p"
  shows "pipeline_inv (snd (tick_reorder_queue t p))"
proof -
  define q where "q = filter (\<lambda>(_, age). pl_reorder_timeout_us (rp_limits p) = 0 \<or> age < pl_reorder_timeout_us (rp_limits p))
    (bt_map_values (age_reorder_entry t) (rp_reorder_queue p))"
  have q: "bt_invar q" "length q \<le> pl_reorder_window_size (rp_limits p)"
    unfolding q_def by (rule reorder_subset_inv [OF assms])+
  have len: "length (bt_map_values (age_reorder_entry t) (rp_reorder_queue p)) = length (rp_reorder_queue p)"
    by (simp add: bt_map_values_def)
  have le: "length q \<le> length (rp_reorder_queue p)"
    using length_filter_le len unfolding q_def by metis
  show ?thesis
    unfolding tick_reorder_queue_def Let_def q_def [symmetric] len
    using assms q le by (simp add: reorder_replace_inv view_defs same_length_reorder_inv)
qed

lemma expire_reorder_queue_inv: "pipeline_inv p \<Longrightarrow> pipeline_inv (snd (expire_reorder_queue p))"
  by (auto simp: expire_reorder_queue_def Let_def pipeline_inv_def append_inv_def receive_inv_def)

section \<open>Apply window and snapshot transfer\<close>

lemma begin_apply_task_inv: "pipeline_inv p \<Longrightarrow> pipeline_inv (snd (begin_apply_task i b p))"
  by (auto simp: begin_apply_task_def pipeline_inv_def append_inv_def receive_inv_def Let_def)

lemma complete_apply_through_inv: "pipeline_inv p \<Longrightarrow> pipeline_inv (snd (complete_apply_through i p))"
  using length_dropWhile_le [of "\<lambda>t. at_applied_index t \<le> i" "rp_apply_inflight p"]
  by (auto simp: complete_apply_through_def pipeline_inv_def append_inv_def receive_inv_def Let_def
      dest: set_dropWhileD)

lemma reset_apply_inv: "pipeline_inv p \<Longrightarrow> pipeline_inv (reset_apply_inflight_window p)"
  by (simp add: reset_apply_inflight_window_def pipeline_inv_def append_inv_def receive_inv_def)

lemma clear_transfer_inv: "pipeline_inv p \<Longrightarrow> pipeline_inv (clear_transfer p)"
  by (simp add: clear_transfer_def pipeline_inv_def append_inv_def receive_inv_def)

lemma replace_transfer_inv:
  "pipeline_inv p \<Longrightarrow> rp_snapshot_transfer p \<noteq> None \<Longrightarrow> pipeline_inv (p\<lparr>rp_snapshot_transfer := Some t\<rparr>)"
  by (simp add: pipeline_inv_def append_inv_def receive_inv_def)

lemmas transfer_defs = begin_snapshot_send_def begin_snapshot_install_def transfer_active_def

lemma begin_transfer_inv:
  assumes "pipeline_inv p"
  shows "pipeline_inv (snd (begin_snapshot_send a b c p))" "pipeline_inv (snd (begin_snapshot_install a b c p))"
  using assms by (simp_all add: transfer_defs pipeline_inv_def append_inv_def receive_inv_def)

lemma maybe_require_snapshot_inv: "pipeline_inv p \<Longrightarrow> pipeline_inv (snd (maybe_require_snapshot i p))"
  by (simp add: maybe_require_snapshot_def begin_transfer_inv pipeline_inv_upd view_defs)

lemma finish_snapshot_install_inv: "pipeline_inv p \<Longrightarrow> pipeline_inv (snd (finish_snapshot_install p))"
  by (simp add: finish_snapshot_install_def reset_apply_inv clear_transfer_inv pipeline_inv_upd view_defs Let_def
      split: option.split)

lemmas transfer_inv_simps = pipeline_inv_upd view_defs Let_def clear_transfer_inv replace_transfer_inv
  finish_snapshot_install_inv

lemma snapshot_ops_inv:
  assumes "pipeline_inv p"
  shows "pipeline_inv (snd (acknowledge_snapshot_chunk p))" "pipeline_inv (snd (receive_snapshot_chunk b d p))"
    "pipeline_inv (snd (handle_snapshot_finish a i p))" "pipeline_inv (snd (update_snapshot_progress rr el to p))"
    "pipeline_inv (snd (retry_snapshot_chunk p))" "pipeline_inv (rollback_snapshot_install p)"
    "pipeline_inv (snd (record_snapshot_chunk_sent b p))" "pipeline_inv (snd (cancel_snapshot_send_for_new_snapshot p))"
  using assms
  by (simp_all add: acknowledge_snapshot_chunk_def receive_snapshot_chunk_def handle_snapshot_finish_def
      update_snapshot_progress_def retry_snapshot_chunk_def rollback_snapshot_install_def record_snapshot_chunk_sent_def
      cancel_snapshot_send_for_new_snapshot_def ack_snapshot_require_def transfer_inv_simps split: option.split)

section \<open>Responses\<close>

lemma require_if_asked_inv: "pipeline_inv p \<Longrightarrow> pipeline_inv (require_if_asked r p)"
  by (simp add: require_if_asked_def maybe_require_snapshot_inv split: option.split)

lemma handle_append_success_inv: "pipeline_inv p \<Longrightarrow> pipeline_inv (handle_append_success r p)"
  unfolding handle_append_success_def Let_def
  by (intro require_if_asked_inv)
    (simp add: pipeline_inv_upd view_defs drain_reorder_queue_inv reset_inflight_window_inv pipeline_resume_inv
      release_inflight_through_inv split: progress_state.split)

lemma handle_append_rejection_inv: "pipeline_inv p \<Longrightarrow> pipeline_inv (handle_append_rejection r p)"
  unfolding handle_append_rejection_def Let_def
  by (intro require_if_asked_inv)
    (simp add: pause_def pipeline_inv_upd view_defs reset_inflight_window_inv pipeline_resume_inv)

lemma handle_append_response_inv: "pipeline_inv p \<Longrightarrow> pipeline_inv (snd (handle_append_response r p))"
  by (simp add: handle_append_response_def Let_def handle_append_success_inv handle_append_rejection_inv
      pipeline_inv_upd view_defs)

lemma record_network_error_inv: "pipeline_inv p \<Longrightarrow> pipeline_inv (snd (record_network_error p))"
  by (simp add: record_network_error_def Let_def pipeline_inv_upd view_defs reset_inflight_window_inv)

section \<open>Steps\<close>

inductive pipeline_step :: "replication_pipeline \<Rightarrow> replication_pipeline \<Rightarrow> bool" where
  LeaderTransition: "pipeline_step p (reset_for_leader_transition m n st p)"
| SetState: "pipeline_step p (set_progress_state st p)"
| Pause: "pipeline_step p (pause p)"
| Resume: "pipeline_step p (pipeline_resume p)"
| TakeEmptyAppend: "pipeline_step p (snd (take_empty_append_due_to_old_pause p))"
| Queue: "pipeline_step p (snd (queue_append e p))"
| Flush: "pipeline_step p (snd (flush_append_batch me mb p))"
| Response: "pipeline_step p (snd (handle_append_response r p))"
| Backoff: "pipeline_step p (snd (record_retry_backoff_tick t p))"
| NetworkError: "pipeline_step p (snd (record_network_error p))"
| Heartbeat: "pipeline_step p (record_heartbeat_response p)"
| Catchup: "pipeline_step p (snd (record_learner_catchup_round c p))"
| WitnessQuorum: "pipeline_step p (snd (record_witness_quorum a q p))"
| BeginApply: "pipeline_step p (snd (begin_apply_task i b p))"
| CompleteApply: "pipeline_step p (snd (complete_apply_through i p))"
| Active: "pipeline_step p (record_peer_active p)"
| Offline: "pipeline_step p (record_offline_timeout p)"
| OutOfOrder: "pipeline_step p (snd (receive_out_of_order e p))"
| TickReorder: "pipeline_step p (snd (tick_reorder_queue t p))"
| ExpireReorder: "pipeline_step p (snd (expire_reorder_queue p))"
| BeginSend: "pipeline_step p (snd (begin_snapshot_send sid i t p))"
| RequireSnapshot: "pipeline_step p (snd (maybe_require_snapshot i p))"
| AckRequire: "pipeline_step p (ack_snapshot_require p)"
| ChunkSent: "pipeline_step p (snd (record_snapshot_chunk_sent b p))"
| CancelSend: "pipeline_step p (snd (cancel_snapshot_send_for_new_snapshot p))"
| ChunkAcked: "pipeline_step p (snd (acknowledge_snapshot_chunk p))"
| SnapshotFinish: "pipeline_step p (snd (handle_snapshot_finish a i p))"
| SnapshotProgress: "pipeline_step p (snd (update_snapshot_progress rr el to p))"
| RetryChunk: "pipeline_step p (snd (retry_snapshot_chunk p))"
| BeginInstall: "pipeline_step p (snd (begin_snapshot_install sid i t p))"
| ReceiveChunk: "pipeline_step p (snd (receive_snapshot_chunk b d p))"
| RollbackInstall: "pipeline_step p (rollback_snapshot_install p)"
| Rejoin: "pipeline_step p (mark_snapshot_rejoin_after_compacted_log p)"

lemma queue_append_inv': "pipeline_inv p \<Longrightarrow> pipeline_inv (snd (queue_append e p))"
  using queue_append_inv by (metis prod.collapse)

lemma flush_append_batch_inv: "pipeline_inv p \<Longrightarrow> pipeline_inv (snd (flush_append_batch me mb p))"
  using flush_append_batch_spec by (metis prod.collapse)

lemmas step_inv_rules = pipeline_inv_reset queue_append_inv' flush_append_batch_inv handle_append_response_inv
  record_network_error_inv begin_apply_task_inv complete_apply_through_inv receive_out_of_order_inv
  tick_reorder_queue_inv expire_reorder_queue_inv begin_transfer_inv maybe_require_snapshot_inv snapshot_ops_inv
  pipeline_resume_inv

lemmas counter_ops = set_progress_state_def pause_def take_empty_append_due_to_old_pause_def
  record_retry_backoff_tick_def record_heartbeat_response_def record_learner_catchup_round_def
  update_follower_lag_def record_witness_quorum_def record_peer_active_def record_offline_timeout_def
  ack_snapshot_require_def mark_snapshot_rejoin_after_compacted_log_def

lemma pipeline_step_inv: "pipeline_step p p' \<Longrightarrow> pipeline_inv p \<Longrightarrow> pipeline_inv p'"
  by (induction rule: pipeline_step.induct)
    (simp_all add: step_inv_rules counter_ops pipeline_inv_upd view_defs Let_def)

lemma pipeline_steps_inv: "pipeline_step\<^sup>*\<^sup>* p p' \<Longrightarrow> pipeline_inv p \<Longrightarrow> pipeline_inv p'"
  by (induction rule: rtranclp_induct) (auto intro: pipeline_step_inv)

lemma release_loop_limits [simp]: "rp_limits (release_loop m w p) = rp_limits p"
  by (induction m w p rule: release_loop.induct) auto

lemma drain_reorder_queue_limits [simp]: "rp_limits (drain_reorder_queue p) = rp_limits p"
  by (simp add: drain_reorder_queue_def split: prod.splits)

lemma window_ops_limits [simp]:
  "rp_limits (pipeline_resume p) = rp_limits p" "rp_limits (reset_inflight_window p) = rp_limits p"
  "rp_limits (release_inflight_through m p) = rp_limits p" "rp_limits (clear_transfer p) = rp_limits p"
  "rp_limits (reset_apply_inflight_window p) = rp_limits p" "rp_limits (pause p) = rp_limits p"
  by (simp_all add: pipeline_resume_def free_first_inflight_def reset_inflight_window_def pause_def clear_transfer_def
      release_inflight_through_def reset_apply_inflight_window_def split: progress_state.split list.split)

lemma transfer_ops_limits [simp]:
  "rp_limits (snd (begin_snapshot_send a b c p)) = rp_limits p"
  "rp_limits (snd (begin_snapshot_install a b c p)) = rp_limits p"
  "rp_limits (snd (maybe_require_snapshot i p)) = rp_limits p"
  "rp_limits (snd (finish_snapshot_install p)) = rp_limits p"
  "rp_limits (require_if_asked r p) = rp_limits p"
  by (simp_all add: transfer_defs maybe_require_snapshot_def finish_snapshot_install_def require_if_asked_def
      split: option.split)

lemma flush_append_batch_limits:
  "pipeline_inv p \<Longrightarrow> rp_limits (snd (flush_append_batch me mb p)) = rp_limits p"
proof -
  assume inv: "pipeline_inv p"
  let ?e = "if pp_progress_state (rp_status p) = Probe then 1 else max me 1"
  obtain fl p1 where f: "flush_loop ?e (max mb 1) p = (fl, p1)" by fastforce
  have "0 < ?e" by (simp add: max_def)
  then have "same_receiver p p1"
    using flush_loop_spec [OF _ _ _ f] inv unfolding pipeline_inv_def by blast
  with f show ?thesis by (simp add: flush_append_batch_def Let_def same_receiver_def)
qed

lemma pipeline_step_limits: "pipeline_step p p' \<Longrightarrow> pipeline_inv p \<Longrightarrow> rp_limits p' = rp_limits p"
  by (induction rule: pipeline_step.induct)
    (simp_all add: counter_ops flush_append_batch_limits reset_for_leader_transition_def queue_append_def Let_def
      handle_append_response_def handle_append_success_def handle_append_rejection_def record_network_error_def
      begin_apply_task_def complete_apply_through_def receive_out_of_order_def tick_reorder_queue_def
      expire_reorder_queue_def record_snapshot_chunk_sent_def cancel_snapshot_send_for_new_snapshot_def
      acknowledge_snapshot_chunk_def handle_snapshot_finish_def update_snapshot_progress_def retry_snapshot_chunk_def
      receive_snapshot_chunk_def rollback_snapshot_install_def
      split: option.split progress_state.split)

lemma pipeline_steps_limits:
  "pipeline_step\<^sup>*\<^sup>* p p' \<Longrightarrow> pipeline_inv p \<Longrightarrow> rp_limits p' = rp_limits p"
  by (induction rule: rtranclp_induct) (auto dest: pipeline_steps_inv pipeline_step_limits)

section \<open>Properties\<close>

definition sample_limits :: pipeline_limits where
  "sample_limits = \<lparr>pl_max_inflights_replicate = 4, pl_max_memory_replicate_log_bytes = 100,
     pl_max_inflights_apply_task = 2, pl_max_apply_batch_bytes = 10, pl_enable_reorder_queue = True,
     pl_reorder_window_size = 2, pl_reorder_timeout_us = 0\<rparr>"

definition sample_append :: "nat \<Rightarrow> log_entry" where
  "sample_append i = \<lparr>le_log_id = \<lparr>li_term = 1, li_index = i\<rparr>, le_payload = [7, 7], le_is_command = True\<rparr>"

definition sample_pipeline :: replication_pipeline where
  "sample_pipeline = set_progress_state Replicate
     (snd (queue_append (sample_append 2) (snd (queue_append (sample_append 1) (pipeline_new 2 1 sample_limits)))))"

lemma sample_limits_ok: "limits_ok sample_limits"
  by code_simp

lemma sample_pipeline_inv: "pipeline_inv sample_pipeline"
  unfolding sample_pipeline_def
  by (intro pipeline_step_inv [OF SetState] queue_append_inv' pipeline_inv_new sample_limits_ok)

lemma sample_pipeline_steps: "pipeline_step\<^sup>*\<^sup>* (pipeline_new 2 1 sample_limits) sample_pipeline"
  unfolding sample_pipeline_def by (blast intro: rtranclp.rtrancl_into_rtrancl Queue SetState)

text \<open>
  C16: In every pipeline reached from \<^verbatim>\<open>ReplicationPipeline::new\<close> the published counters are exact:
  the bytes and entries in flight, the bytes and the depth of the append queue, the apply tasks and
  the depth of the reorder queue. In-flight plus queued bytes stay within the replication memory;
  the append queue, the apply window and the reorder queue stay within their limits. A batch is
  sent only while the batches in flight before it hold fewer entries than the in-flight limit, so
  the last batch alone may pass that limit, and the window never holds twice the limit or more.
  A snapshot is never being sent and installed at once.
\<close>

theorem pipeline_queues_bounded:
  assumes "limits_ok l" "pipeline_step\<^sup>*\<^sup>* (pipeline_new i n l) p"
  shows "pp_inflight_bytes (rp_status p) = window_bytes (rp_inflight p)
    \<and> pp_inflight_entries (rp_status p) = window_entries (rp_inflight p)
    \<and> rp_append_queue_bytes p = queued_bytes (rp_append_queue p)
    \<and> pp_append_queue_depth (rp_status p) = length (rp_append_queue p)
    \<and> pp_apply_inflight_tasks (rp_status p) = length (rp_apply_inflight p)
    \<and> pp_reorder_queue_depth (rp_status p) = length (rp_reorder_queue p)
    \<and> window_bytes (rp_inflight p) + queued_bytes (rp_append_queue p) \<le> pl_max_memory_replicate_log_bytes l
    \<and> length (rp_append_queue p) \<le> pl_max_inflights_replicate l
    \<and> (rp_inflight p \<noteq> [] \<longrightarrow> window_entries (butlast (rp_inflight p)) < pl_max_inflights_replicate l
         \<and> window_entries (rp_inflight p) < 2 * pl_max_inflights_replicate l)
    \<and> length (rp_apply_inflight p) \<le> pl_max_inflights_apply_task l
    \<and> length (rp_reorder_queue p) \<le> pl_reorder_window_size l
    \<and> \<not> (pp_snapshot_sending (rp_status p) \<and> pp_snapshot_installing (rp_status p))"
proof -
  have "pipeline_inv p"
    by (rule pipeline_steps_inv [OF assms(2) pipeline_inv_new [OF assms(1)]])
  moreover have "rp_limits p = l"
    using pipeline_steps_limits [OF assms(2) pipeline_inv_new [OF assms(1)]] by (simp add: pipeline_new_def)
  ultimately show ?thesis by (auto simp: pipeline_inv_def append_inv_def receive_inv_def)
qed

theorem pipeline_queues_bounded_witness:
  "limits_ok sample_limits \<and> pipeline_step\<^sup>*\<^sup>* (pipeline_new 2 1 sample_limits) (snd (flush_append_batch 1 100 sample_pipeline))
   \<and> length (rp_inflight (snd (flush_append_batch 1 100 sample_pipeline))) = 2
   \<and> window_entries (butlast (rp_inflight (snd (flush_append_batch 1 100 sample_pipeline)))) < pl_max_inflights_replicate sample_limits
   \<and> pp_inflight_bytes (rp_status (snd (flush_append_batch 1 100 sample_pipeline))) = 4"
proof -
  let ?p = "snd (flush_append_batch 1 100 sample_pipeline)"
  have v: "length (rp_inflight ?p) = 2" "window_bytes (rp_inflight ?p) = 4" by code_simp+
  have run: "pipeline_step\<^sup>*\<^sup>* (pipeline_new 2 1 sample_limits) ?p"
    using sample_pipeline_steps by (rule rtranclp.rtrancl_into_rtrancl) (rule Flush)
  have "rp_inflight ?p \<noteq> []" using v(1) by auto
  with pipeline_queues_bounded [OF sample_limits_ok run] sample_limits_ok run v show ?thesis by simp
qed

text \<open>
  C33: A flush takes a prefix of the append queue, in order, as consecutive batches: each batch is
  non-empty, names the first and last position of its run, has its exact entry count and bytes,
  and respects the entry limit and the byte limit (one entry alone may exceed it). The batches
  are appended to the window, the rest of the queue stays, nothing is refused for memory, and
  when the peer is not paused, the window has room and something is queued, at least one batch
  leaves.
\<close>

theorem flush_takes_queue_in_order:
  assumes "pipeline_inv p" "flush_append_batch me mb p = (fl, p')"
  defines "entries \<equiv> (if pp_progress_state (rp_status p) = Probe then 1 else max me 1)"
  shows "(\<exists>gs. fl = map batch_of gs \<and> list_all (batch_fits entries (max mb 1)) gs
            \<and> concat gs @ rp_append_queue p' = rp_append_queue p)
    \<and> rp_inflight p' = rp_inflight p @ fl
    \<and> pp_memory_backpressure_rejections (rp_status p') = pp_memory_backpressure_rejections (rp_status p)
    \<and> (can_flush p \<longrightarrow> fl \<noteq> [])"
  using flush_append_batch_spec [OF assms(1,2)] by (simp add: entries_def flushed_in_order_def)

theorem flush_takes_queue_in_order_witness:
  "can_flush sample_pipeline \<and> fst (flush_append_batch 8 64 sample_pipeline) \<noteq> []
   \<and> length (fst (flush_append_batch 8 64 sample_pipeline)) = 1"
proof -
  have c: "can_flush sample_pipeline" by code_simp
  then have "fst (flush_append_batch 8 64 sample_pipeline) \<noteq> []"
    using flush_takes_queue_in_order [OF sample_pipeline_inv prod.collapse [symmetric], of 8 64] by simp
  moreover have "length (fst (flush_append_batch 8 64 sample_pipeline)) = 1" by code_simp
  ultimately show ?thesis using c by simp
qed

text \<open>
  C34: When the expected entry arrives, the pipeline moves past it and past exactly the run of
  consecutive entries the reorder queue holds behind it: the new next index is the first one that
  neither arrived nor was queued, the match index is the one before it, and every other queued
  entry stays queued.
\<close>

theorem reorder_drain_contiguous:
  assumes "pipeline_inv p" "idx e = pp_next_index (rp_status p)" "idx e < u64_max"
    and "bt_get (rp_reorder_queue p) u64_max = None"
  defines "p' \<equiv> snd (receive_out_of_order e p)" and "q \<equiv> bt_get (rp_reorder_queue p)"
  shows "fst (receive_out_of_order e p) = Inr ()
    \<and> idx e < pp_next_index (rp_status p') \<and> pp_match_index (rp_status p') = pp_next_index (rp_status p') - 1
    \<and> (\<forall>k. idx e < k \<and> k < pp_next_index (rp_status p') \<longrightarrow> q k \<noteq> None) \<and> q (pp_next_index (rp_status p')) = None
    \<and> (\<forall>k. bt_get (rp_reorder_queue p') k
            = (if idx e < k \<and> k < pp_next_index (rp_status p') then None else q k))"
proof -
  let ?p = "upd_status (\<lambda>s. s\<lparr>pp_match_index := idx e, pp_next_index := Suc (idx e)\<rparr>) p"
  have r: "receive_out_of_order e p = (Inr (), drain_reorder_queue ?p)"
    using assms(2,3) by (simp add: receive_out_of_order_def Let_def checked_succ_def)
  obtain q' m n c where d:
    "drain_loop (rp_reorder_queue ?p) (pp_match_index (rp_status ?p)) (pp_next_index (rp_status ?p)) 0 = (q', m, n, c)"
    "drain_reorder_queue ?p = upd_status (\<lambda>s. s\<lparr>pp_match_index := m, pp_next_index := n,
        pp_reorder_entries_converged := sat_add (pp_reorder_entries_converged s) c,
        pp_reorder_queue_depth := length q'\<rparr>) (?p\<lparr>rp_reorder_queue := q'\<rparr>)"
    by (rule drain_reorder_queue_fields)
  from drain_loop_run [OF d(1)] assms(3,4) show ?thesis
    by (auto simp: p'_def q_def r d(2) Suc_le_eq split: if_splits)
qed

definition sample_reorder :: replication_pipeline where
  "sample_reorder = snd (receive_out_of_order (sample_append 5)
     (snd (receive_out_of_order (sample_append 2) (pipeline_new 2 1 sample_limits))))"

lemma sample_reorder_inv: "pipeline_inv sample_reorder"
  unfolding sample_reorder_def by (intro receive_out_of_order_inv pipeline_inv_new sample_limits_ok)

lemma sample_reorder_values:
  "pp_next_index (rp_status sample_reorder) = 1" "rp_reorder_queue sample_reorder = [(2, 0), (5, 0)]"
  by (simp_all add: sample_reorder_def receive_out_of_order_def sample_append_def pipeline_new_def
      peer_progress_new_def sample_limits_def)

theorem reorder_drain_contiguous_witness:
  "pp_next_index (rp_status (snd (receive_out_of_order (sample_append 1) sample_reorder))) = 3"
proof -
  let ?n = "pp_next_index (rp_status (snd (receive_out_of_order (sample_append 1) sample_reorder)))"
  have "1 < ?n" "\<And>k. 1 < k \<Longrightarrow> k < ?n \<Longrightarrow> k = 2 \<or> k = 5" "?n \<noteq> 2" "?n \<noteq> 5"
    using reorder_drain_contiguous [OF sample_reorder_inv, of "sample_append 1"] sample_reorder_values
    by (auto simp: sample_append_def bt_get_def u64_max_def split: if_splits)
  from this(1,3,4) this(2) [of 3] this(2) [of 4] show ?thesis by force
qed

lemma release_loop_frame [simp]:
  "rp_reorder_queue (release_loop m w p) = rp_reorder_queue p"
  "pp_next_index (rp_status (release_loop m w p)) = pp_next_index (rp_status p)"
  by (induction m w p rule: release_loop.induct) auto

lemma window_ops_frame [simp]:
  "rp_reorder_queue (pipeline_resume p) = rp_reorder_queue p"
  "pp_match_index (rp_status (pipeline_resume p)) = pp_match_index (rp_status p)"
  "rp_reorder_queue (reset_inflight_window p) = rp_reorder_queue p"
  "pp_match_index (rp_status (reset_inflight_window p)) = pp_match_index (rp_status p)"
  "rp_reorder_queue (release_inflight_through m p) = rp_reorder_queue p"
  "pp_next_index (rp_status (release_inflight_through m p)) = pp_next_index (rp_status p)"
  by (simp_all add: pipeline_resume_def free_first_inflight_def reset_inflight_window_def
      release_inflight_through_def split: progress_state.split list.split)

lemma require_if_asked_frame [simp]: "rp_reorder_queue (require_if_asked r p) = rp_reorder_queue p"
  by (simp add: require_if_asked_def maybe_require_snapshot_def transfer_defs split: option.split)

lemma drain_nothing:
  "bt_get (rp_reorder_queue p) (pp_next_index (rp_status p)) = None \<Longrightarrow> rp_reorder_queue (drain_reorder_queue p) = rp_reorder_queue p"
  by (simp add: drain_reorder_queue_def drain_loop.simps)

lemma handle_append_success_keeps_queue:
  assumes "\<forall>k. bt_get (rp_reorder_queue p) k \<noteq> None \<longrightarrow> k \<le> ar_match_index r"
    and "ar_match_index r < u64_max" "pp_match_index (rp_status p) < u64_max"
  shows "rp_reorder_queue (handle_append_success r p) = rp_reorder_queue p"
proof -
  have none: "bt_get (rp_reorder_queue p) (sat_add m (Suc 0)) = None" if "ar_match_index r \<le> m" "m < u64_max" for m
    using assms(1) that sat_add_exact [of m 1] by fastforce
  show ?thesis
  proof (cases "pp_match_index (rp_status p) < ar_match_index r")
    case True
    then show ?thesis
      using none [of "ar_match_index r"] assms(2)
      by (simp add: handle_append_success_def Let_def drain_nothing split: progress_state.split)
  next
    case False
    then show ?thesis
      using none [of "pp_match_index (rp_status p)"] assms(3)
      by (simp add: handle_append_success_def Let_def drain_nothing max_absorb1 split: progress_state.split)
  qed
qed

lemma ticks_keep_queue:
  assumes "pl_reorder_timeout_us (rp_limits p) = 0"
  defines "p' \<equiv> \<lambda>ts. fold (\<lambda>t p. snd (tick_reorder_queue t p)) ts p"
  shows "rp_limits (p' ts) = rp_limits p \<and> length (rp_reorder_queue (p' ts)) = length (rp_reorder_queue p)"
  unfolding p'_def using assms(1)
proof (induction ts arbitrary: p)
  case (Cons t ts)
  have "length (rp_reorder_queue (snd (tick_reorder_queue t p))) = length (rp_reorder_queue p)
      \<and> rp_limits (snd (tick_reorder_queue t p)) = rp_limits p"
    using Cons.prems by (simp add: tick_reorder_queue_def Let_def bt_map_values_def)
  with Cons.IH [of "snd (tick_reorder_queue t p)"] Cons.prems show ?case by simp
qed simp

text \<open>
  Entries the peer has passed are not drained. When an append response moves the peer beyond
  every entry of a full reorder queue and the reorder timeout is off, the queue stays full: after
  any number of ticks every early append is refused because the window is full.
\<close>

theorem stale_reorder_window_clogs:
  assumes "ar_success r" "ar_match_index r < u64_max" "pp_match_index (rp_status p) < u64_max"
    and "\<forall>k. bt_get (rp_reorder_queue p) k \<noteq> None \<longrightarrow> k \<le> ar_match_index r"
    and "length (rp_reorder_queue p) = pl_reorder_window_size (rp_limits p)"
    and "pl_enable_reorder_queue (rp_limits p)" "pl_reorder_timeout_us (rp_limits p) = 0"
    and "p' = fold (\<lambda>t p. snd (tick_reorder_queue t p)) ts (snd (handle_append_response r p))"
    and "pp_next_index (rp_status p') < idx e"
  shows "fst (receive_out_of_order e p') = Inl (InvalidRequest ''reorder queue window is full'')"
proof -
  let ?p1 = "snd (handle_append_response r p)"
  have "rp_reorder_queue ?p1 = rp_reorder_queue p" "rp_limits ?p1 = rp_limits p"
    using assms(1-4) by (simp_all add: handle_append_response_def Let_def handle_append_success_keeps_queue)
      (simp_all add: handle_append_success_def Let_def split: progress_state.split)
  then have "rp_limits p' = rp_limits p" "length (rp_reorder_queue p') = length (rp_reorder_queue p)"
    using ticks_keep_queue [where p = ?p1 and ts = ts] assms(7,8) by auto
  then show ?thesis using assms(5,6,9) by (simp add: receive_out_of_order_def Let_def)
qed

theorem stale_reorder_window_clogs_witness:
  "fst (receive_out_of_order (sample_append 9) (fold (\<lambda>t p. snd (tick_reorder_queue t p)) [1000, 1000]
     (snd (handle_append_response \<lparr>ar_term = 1, ar_success = True, ar_match_index = 6, ar_rejection_hint = None,
        ar_rejected_index = None, ar_require_snapshot = None, ar_snapshot_state = SnapNone,
        ar_lease_confirmation_epoch = 0, ar_lease_duration_ms = 0\<rparr> sample_reorder))))
   = Inl (InvalidRequest ''reorder queue window is full'')"
proof (rule stale_reorder_window_clogs [OF _ _ _ _ _ _ _ refl])
  show "\<forall>k. bt_get (rp_reorder_queue sample_reorder) k \<noteq> None \<longrightarrow> k \<le> ar_match_index
      \<lparr>ar_term = 1, ar_success = True, ar_match_index = 6, ar_rejection_hint = None,
        ar_rejected_index = None, ar_require_snapshot = None, ar_snapshot_state = SnapNone,
        ar_lease_confirmation_epoch = 0, ar_lease_duration_ms = 0\<rparr>"
    by (auto simp: sample_reorder_values bt_get_def split: if_splits)
qed code_simp+

end
