(* ===== verification/MR_Config.thy ===== *)
theory MR_Config
  imports MR_Pipeline
begin

text \<open>
  The configuration of a group (\<^verbatim>\<open>config.rs\<close>): its fields, defaults, validation, and the pipeline
  limits derived from it. Validation is what the timing arguments of leases and elections rest
  on: a lease is always shorter than the election timeout.
\<close>

record raft_config =
  cf_election_timeout_ms :: u64
  cf_heartbeat_interval_ms :: u64
  cf_leader_lease_ms :: u64
  cf_last_follower_lease_ms :: u64
  cf_max_payload_bytes :: u64
  cf_max_log_buffer_bytes :: u64
  cf_snapshot_threshold_entries :: u64
  cf_max_segment_bytes :: u64
  cf_min_keep_segment_num :: u64
  cf_enable_pre_vote :: bool
  cf_enable_lease_read :: bool
  cf_assume_lease_when_start :: bool
  cf_can_trigger_snapshot :: bool
  cf_leader_transfer_timeout_ticks :: nat
  cf_peer_offline_timeout_ticks :: nat
  cf_snapshot_trigger_timeout_ticks :: nat
  cf_pipeline :: pipeline_limits

definition production_default :: pipeline_limits where
  "production_default = \<lparr>pl_max_inflights_replicate = 256,
     pl_max_memory_replicate_log_bytes = 64 * 1024 * 1024, pl_max_inflights_apply_task = 1024,
     pl_max_apply_batch_bytes = 8 * 1024 * 1024, pl_enable_reorder_queue = True,
     pl_reorder_window_size = 1024, pl_reorder_timeout_us = 5000000\<rparr>"

definition default_max_log_buffer_bytes :: u64 where
  "default_max_log_buffer_bytes = 64 * 1024 * 1024"

definition default_config :: raft_config where
  "default_config = \<lparr>cf_election_timeout_ms = 1000, cf_heartbeat_interval_ms = 100,
     cf_leader_lease_ms = 500, cf_last_follower_lease_ms = 0, cf_max_payload_bytes = 8 * 1024 * 1024,
     cf_max_log_buffer_bytes = default_max_log_buffer_bytes, cf_snapshot_threshold_entries = 10000,
     cf_max_segment_bytes = 64 * 1024 * 1024, cf_min_keep_segment_num = 2, cf_enable_pre_vote = True,
     cf_enable_lease_read = True, cf_assume_lease_when_start = True, cf_can_trigger_snapshot = True,
     cf_leader_transfer_timeout_ticks = 0, cf_peer_offline_timeout_ticks = 0,
     cf_snapshot_trigger_timeout_ticks = 0, cf_pipeline = production_default\<rparr>"

definition config_pipeline_limits :: "raft_config \<Rightarrow> pipeline_limits" where
  "config_pipeline_limits c = (let p = cf_pipeline c in
     \<lparr>pl_max_inflights_replicate = max (pl_max_inflights_replicate p) 1,
      pl_max_memory_replicate_log_bytes = max (pl_max_memory_replicate_log_bytes p) 1,
      pl_max_inflights_apply_task = max (pl_max_inflights_apply_task p) 1,
      pl_max_apply_batch_bytes = max (pl_max_apply_batch_bytes p) 1,
      pl_enable_reorder_queue = pl_enable_reorder_queue p,
      pl_reorder_window_size = max (pl_reorder_window_size p) 1,
      pl_reorder_timeout_us = pl_reorder_timeout_us p\<rparr>)"

datatype config_error =
    ZeroElectionTimeout | ZeroHeartbeatInterval | ZeroLeaderLease
  | HeartbeatNotLessThanElection u64 u64 | LeaseNotLessThanElection u64 u64
  | ZeroMaxPayloadBytes | ZeroMaxLogBufferBytes | ZeroSnapshotThreshold | ZeroMaxSegmentBytes

definition config_validate :: "raft_config \<Rightarrow> config_error + unit" where
  "config_validate c =
     (if cf_election_timeout_ms c = 0 then Inl ZeroElectionTimeout
      else if cf_heartbeat_interval_ms c = 0 then Inl ZeroHeartbeatInterval
      else if cf_leader_lease_ms c = 0 then Inl ZeroLeaderLease
      else if cf_election_timeout_ms c \<le> cf_heartbeat_interval_ms c
      then Inl (HeartbeatNotLessThanElection (cf_heartbeat_interval_ms c) (cf_election_timeout_ms c))
      else if cf_election_timeout_ms c \<le> cf_leader_lease_ms c
      then Inl (LeaseNotLessThanElection (cf_leader_lease_ms c) (cf_election_timeout_ms c))
      else if cf_max_payload_bytes c = 0 then Inl ZeroMaxPayloadBytes
      else if cf_max_log_buffer_bytes c = 0 then Inl ZeroMaxLogBufferBytes
      else if cf_snapshot_threshold_entries c = 0 then Inl ZeroSnapshotThreshold
      else if cf_max_segment_bytes c = 0 then Inl ZeroMaxSegmentBytes
      else Inr ())"

fun show_config_error :: "config_error \<Rightarrow> string" where
  "show_config_error ZeroElectionTimeout = ''election_timeout_ms must be greater than zero''"
| "show_config_error ZeroHeartbeatInterval = ''heartbeat_interval_ms must be greater than zero''"
| "show_config_error ZeroLeaderLease = ''leader_lease_ms must be greater than zero''"
| "show_config_error (HeartbeatNotLessThanElection h e) =
     ''heartbeat_interval_ms ('' @ show_nat h @ '') must be less than election_timeout_ms ('' @ show_nat e @ '')''"
| "show_config_error (LeaseNotLessThanElection l e) =
     ''leader_lease_ms ('' @ show_nat l @ '') must be less than election_timeout_ms ('' @ show_nat e @ '')''"
| "show_config_error ZeroMaxPayloadBytes = ''max_payload_bytes must be greater than zero''"
| "show_config_error ZeroMaxLogBufferBytes = ''max_log_buffer_bytes must be greater than zero''"
| "show_config_error ZeroSnapshotThreshold = ''snapshot_threshold_entries must be greater than zero''"
| "show_config_error ZeroMaxSegmentBytes = ''max_segment_bytes must be greater than zero''"

lemma config_validate_ok:
  "config_validate c = Inr () \<Longrightarrow> 0 < cf_leader_lease_ms c \<and> cf_leader_lease_ms c < cf_election_timeout_ms c
     \<and> 0 < cf_heartbeat_interval_ms c \<and> cf_heartbeat_interval_ms c < cf_election_timeout_ms c"
  by (auto simp: config_validate_def split: if_splits)

lemma default_config_valid: "config_validate default_config = Inr ()"
  by code_simp

lemma config_limits_positive:
  "0 < pl_max_inflights_replicate (config_pipeline_limits c)" "0 < pl_reorder_window_size (config_pipeline_limits c)"
  "0 < pl_max_inflights_apply_task (config_pipeline_limits c)" "0 < pl_max_apply_batch_bytes (config_pipeline_limits c)"
  by (simp_all add: config_pipeline_limits_def Let_def)

end
