(* ===== verification/MR_Snapshot.thy ===== *)
theory MR_Snapshot
  imports MR_Messages MR_Rate_Limit
begin

text \<open>
  The chunked snapshot transfer of \<^verbatim>\<open>facade/snapshot_runtime.rs\<close>: the receiver of one snapshot
  (\<^verbatim>\<open>SnapshotInstallState\<close>), the cutting of a snapshot into chunks, and the lifecycle object that
  sends with a window, a retry budget and a rate limiter and that receives, cancels and readmits.
  The limiter of a send is an argument, as the source is generic in it. Sums of payload lengths are
  below \<^verbatim>\<open>isize::MAX\<close> in the source and do not wrap; counters do.
\<close>

section \<open>The receiver\<close>

record snapshot_chunk =
  sc_meta :: snapshot_metadata
  sc_offset :: u64
  sc_data :: payload
  sc_done :: bool

record snapshot_install_state =
  si_meta :: snapshot_metadata
  si_bytes :: payload
  si_next_offset :: u64
  si_complete :: bool

definition install_state_new :: "snapshot_metadata \<Rightarrow> snapshot_install_state" where
  "install_state_new meta = \<lparr>si_meta = meta, si_bytes = [], si_next_offset = 0, si_complete = False\<rparr>"

definition install_chunk :: "snapshot_chunk \<Rightarrow> snapshot_install_state \<Rightarrow> (unit, snapshot_install_state) outcome" where
  "install_chunk chunk s =
     (if sc_meta chunk \<noteq> si_meta s
      then (Inl (InvalidRequest ''snapshot chunk metadata changed during install''), s)
      else if sc_offset chunk \<noteq> si_next_offset s
      then (Inl (InvalidRequest (''snapshot chunk offset '' @ show_nat (sc_offset chunk) @ '' does not match next offset ''
              @ show_nat (si_next_offset s))), s)
      else
       (let arriving = sat_add (si_next_offset s) (length (sc_data chunk))
        in if 0 < sm_payload_bytes (si_meta s) \<and> sm_payload_bytes (si_meta s) < arriving
           then (Inl (InvalidRequest (''snapshot chunk at offset '' @ show_nat (sc_offset chunk)
                  @ '' would carry the install to '' @ show_nat arriving @ '' bytes, past the ''
                  @ show_nat (sm_payload_bytes (si_meta s)) @ '' the sender declared'')), s)
           else (Inr (), s\<lparr>si_next_offset := arriving, si_bytes := si_bytes s @ sc_data chunk, si_complete := sc_done chunk\<rparr>)))"

definition install_finish :: "group_id \<Rightarrow> snapshot_install_state \<Rightarrow> raft_snapshot result" where
  "install_finish g s =
     (if \<not> si_complete s then Inl (InvalidRequest ''snapshot install is incomplete'')
      else if 0 < sm_payload_bytes (si_meta s) \<and> length (si_bytes s) \<noteq> sm_payload_bytes (si_meta s)
      then Inl (InvalidRequest (''snapshot install ended with '' @ show_nat (length (si_bytes s)) @ '' bytes, not the ''
             @ show_nat (sm_payload_bytes (si_meta s)) @ '' the sender declared''))
      else Inr \<lparr>rs_group_id = g, rs_meta = si_meta s, rs_payload = si_bytes s\<rparr>)"

section \<open>State of a transfer\<close>

record snapshot_lifecycle_config =
  sl_chunk_size :: u64
  sl_max_chunks_per_tick :: u64
  sl_max_bytes_per_tick :: u64
  sl_max_retry_attempts :: u64

definition default_lifecycle_config :: snapshot_lifecycle_config where
  "default_lifecycle_config = \<lparr>sl_chunk_size = 64 * 1024, sl_max_chunks_per_tick = 16,
     sl_max_bytes_per_tick = 4 * 1024 * 1024, sl_max_retry_attempts = 3\<rparr>"

definition lifecycle_config_validate :: "snapshot_lifecycle_config \<Rightarrow> unit result" where
  "lifecycle_config_validate cfg =
     (if sl_chunk_size cfg = 0 then Inl (InvalidRequest ''snapshot chunk_size must be greater than zero'')
      else if sl_max_chunks_per_tick cfg = 0
      then Inl (InvalidRequest ''snapshot max_chunks_per_tick must be greater than zero'')
      else if sl_max_bytes_per_tick cfg = 0
      then Inl (InvalidRequest ''snapshot max_bytes_per_tick must be greater than zero'')
      else Inr ())"

record snapshot_lifecycle_status =
  sy_snapshot_id :: "string option"
  sy_sending :: bool
  sy_installing :: bool
  sy_total_chunks :: u64
  sy_sent_chunks :: u64
  sy_received_chunks :: u64
  sy_retry_count :: u64
  sy_throttled_ticks :: u64
  sy_rate_limited_ticks :: u64
  sy_throttled_responses :: u64
  sy_refused_chunks :: u64
  sy_cancelled_installs :: u64
  sy_install_cancelled :: bool
  sy_rolled_back :: u64
  sy_completed :: bool
  sy_installed_index :: log_index

record snapshot_send_state =
  ss_group_id :: group_id
  ss_term :: raft_term
  ss_leader_id :: node_id
  ss_chunks :: "snapshot_chunk list"
  ss_next_chunk :: nat
  ss_accepted_chunks :: u64
  ss_retry_count :: u64

record snapshot_lifecycle =
  slc_config :: snapshot_lifecycle_config
  slc_sender :: "snapshot_send_state option"
  slc_installer :: "snapshot_install_state option"
  slc_status :: snapshot_lifecycle_status
  slc_install_closed :: bool

record install_snapshot_request =
  iq_group_id :: group_id
  iq_term :: raft_term
  iq_leader_id :: node_id
  iq_chunk :: snapshot_chunk

record install_snapshot_response =
  is_term :: raft_term
  is_accepted :: bool
  is_next_offset :: u64
  is_committed_index :: log_index
  is_reason :: string
  is_throttled :: bool

abbreviation upd_sy :: "(snapshot_lifecycle_status \<Rightarrow> snapshot_lifecycle_status) \<Rightarrow> snapshot_lifecycle \<Rightarrow> snapshot_lifecycle" where
  "upd_sy f l \<equiv> l\<lparr>slc_status := f (slc_status l)\<rparr>"

definition lifecycle_new :: "snapshot_lifecycle_config \<Rightarrow> snapshot_lifecycle result" where
  "lifecycle_new cfg = (case lifecycle_config_validate cfg of
     Inl e \<Rightarrow> Inl e
   | Inr _ \<Rightarrow> Inr \<lparr>slc_config = cfg, slc_sender = None, slc_installer = None,
       slc_status = \<lparr>sy_snapshot_id = None, sy_sending = False, sy_installing = False, sy_total_chunks = 0,
         sy_sent_chunks = 0, sy_received_chunks = 0, sy_retry_count = 0, sy_throttled_ticks = 0,
         sy_rate_limited_ticks = 0, sy_throttled_responses = 0, sy_refused_chunks = 0, sy_cancelled_installs = 0,
         sy_install_cancelled = False, sy_rolled_back = 0, sy_completed = False, sy_installed_index = 0\<rparr>,
       slc_install_closed = False\<rparr>)"

section \<open>Sending\<close>

text \<open>The loop of \<^verbatim>\<open>checkpoint\<close>; a chunk size of zero is refused before it.\<close>

function checkpoint_loop :: "snapshot_metadata \<Rightarrow> payload \<Rightarrow> u64 \<Rightarrow> nat \<Rightarrow> snapshot_chunk list" where
  "checkpoint_loop meta data chunk_size offset =
     (if offset < length data \<and> 0 < chunk_size
      then (let stop = min (offset + chunk_size) (length data)
            in \<lparr>sc_meta = meta, sc_offset = offset, sc_data = drop offset (take stop data), sc_done = (stop = length data)\<rparr>
               # checkpoint_loop meta data chunk_size stop)
      else [])"
  by pat_completeness auto
termination by (relation "measure (\<lambda>(meta, data, chunk_size, offset). length data - offset)") auto

declare checkpoint_loop.simps [simp del]

definition declared_meta :: "raft_snapshot \<Rightarrow> snapshot_metadata" where
  "declared_meta s = (rs_meta s)\<lparr>sm_payload_bytes := length (rs_payload s)\<rparr>"

definition checkpoint :: "raft_snapshot \<Rightarrow> u64 \<Rightarrow> snapshot_chunk list result" where
  "checkpoint s chunk_size =
     (if chunk_size = 0 then Inl (InvalidRequest ''snapshot chunk_size must be greater than zero'')
      else (let chunks = checkpoint_loop (declared_meta s) (rs_payload s) chunk_size 0
            in Inr (if chunks = [] then [\<lparr>sc_meta = declared_meta s, sc_offset = 0, sc_data = [], sc_done = True\<rparr>] else chunks)))"

definition begin_send :: "raft_snapshot \<Rightarrow> raft_term \<Rightarrow> node_id \<Rightarrow> snapshot_lifecycle \<Rightarrow> (unit, snapshot_lifecycle) outcome" where
  "begin_send s t leader_id l =
     (if slc_sender l \<noteq> None \<or> slc_installer l \<noteq> None
      then (Inl (InvalidRequest ''snapshot lifecycle is already active''), l)
      else case checkpoint s (sl_chunk_size (slc_config l)) of
        Inl e \<Rightarrow> (Inl e, l)
      | Inr chunks \<Rightarrow>
         (let st = slc_status l
          in (Inr (), l\<lparr>slc_status := \<lparr>sy_snapshot_id = Some (sm_snapshot_id (rs_meta s)), sy_sending = True,
                sy_installing = False, sy_total_chunks = length chunks, sy_sent_chunks = 0, sy_received_chunks = 0,
                sy_retry_count = 0, sy_throttled_ticks = 0, sy_rate_limited_ticks = sy_rate_limited_ticks st,
                sy_throttled_responses = 0, sy_refused_chunks = sy_refused_chunks st,
                sy_cancelled_installs = sy_cancelled_installs st, sy_install_cancelled = slc_install_closed l,
                sy_rolled_back = sy_rolled_back st, sy_completed = False, sy_installed_index = 0\<rparr>,
              slc_sender := Some \<lparr>ss_group_id = rs_group_id s, ss_term = t, ss_leader_id = leader_id, ss_chunks = chunks,
                ss_next_chunk = 0, ss_accepted_chunks = 0, ss_retry_count = 0\<rparr>\<rparr>)))"

definition send_not_active :: raft_error where
  "send_not_active = InvalidRequest ''snapshot send is not active''"

definition request_of :: "snapshot_send_state \<Rightarrow> snapshot_chunk \<Rightarrow> install_snapshot_request" where
  "request_of s chunk = \<lparr>iq_group_id = ss_group_id s, iq_term = ss_term s, iq_leader_id = ss_leader_id s, iq_chunk = chunk\<rparr>"

definition throttle_tick :: "snapshot_lifecycle_status \<Rightarrow> snapshot_lifecycle_status" where
  "throttle_tick st = st\<lparr>sy_throttled_ticks := wrap_add (sy_throttled_ticks st) 1\<rparr>"

definition count_sent :: "snapshot_lifecycle_status \<Rightarrow> snapshot_lifecycle_status" where
  "count_sent st = st\<lparr>sy_sent_chunks := wrap_add (sy_sent_chunks st) 1\<rparr>"

text \<open>
  The two polling loops. \<open>room\<close> is how many more requests the tick admits and \<open>sent\<close> how many bytes
  it has sent; the first request is sent whatever its size.
\<close>

fun poll_loop :: "u64 \<Rightarrow> nat \<Rightarrow> bool \<Rightarrow> u64 \<Rightarrow> snapshot_send_state \<Rightarrow> snapshot_lifecycle_status
    \<Rightarrow> install_snapshot_request list \<times> snapshot_send_state \<times> snapshot_lifecycle_status" where
  "poll_loop max_bytes 0 is_first sent s st = ([], s, st)"
| "poll_loop max_bytes (Suc room) is_first sent s st =
     (if ss_next_chunk s < length (ss_chunks s)
      then (let chunk = ss_chunks s ! ss_next_chunk s; next_bytes = sent + length (sc_data chunk)
            in if \<not> is_first \<and> max_bytes < next_bytes then ([], s, throttle_tick st)
               else (case poll_loop max_bytes room False next_bytes (s\<lparr>ss_next_chunk := Suc (ss_next_chunk s)\<rparr>) (count_sent st) of
                       (rs, s1, st1) \<Rightarrow> (request_of s chunk # rs, s1, st1)))
      else ([], s, st))"

definition poll_end :: "snapshot_send_state \<Rightarrow> snapshot_lifecycle_status \<Rightarrow> snapshot_lifecycle \<Rightarrow> snapshot_lifecycle" where
  "poll_end s st l = l\<lparr>slc_sender := Some s,
     slc_status := (if ss_next_chunk s < length (ss_chunks s) then throttle_tick st else st)\<rparr>"

definition poll_send_requests :: "snapshot_lifecycle \<Rightarrow> (install_snapshot_request list, snapshot_lifecycle) outcome" where
  "poll_send_requests l = (case slc_sender l of
     None \<Rightarrow> (Inl send_not_active, l)
   | Some s \<Rightarrow> (case poll_loop (sl_max_bytes_per_tick (slc_config l)) (sl_max_chunks_per_tick (slc_config l)) True 0 s (slc_status l) of
       (rs, s1, st1) \<Rightarrow> (Inr rs, poll_end s1 st1 l)))"

text \<open>A granted part of a chunk and what stays of it.\<close>

definition granted_part :: "nat \<Rightarrow> snapshot_chunk \<Rightarrow> snapshot_chunk" where
  "granted_part k chunk = (if k < length (sc_data chunk) then chunk\<lparr>sc_data := take k (sc_data chunk), sc_done := False\<rparr> else chunk)"

definition split_sender :: "nat \<Rightarrow> snapshot_chunk \<Rightarrow> snapshot_send_state \<Rightarrow> snapshot_lifecycle_status
    \<Rightarrow> snapshot_send_state \<times> snapshot_lifecycle_status" where
  "split_sender k chunk s st =
     (if k < length (sc_data chunk)
      then (s\<lparr>ss_chunks := (ss_chunks s)[ss_next_chunk s :=
                \<lparr>sc_meta = sc_meta chunk, sc_offset = sc_offset chunk + k, sc_data = drop k (sc_data chunk), sc_done = sc_done chunk\<rparr>]\<rparr>,
            st\<lparr>sy_total_chunks := sat_add (sy_total_chunks st) 1\<rparr>)
      else (s\<lparr>ss_next_chunk := Suc (ss_next_chunk s)\<rparr>, st))"

fun poll_limited_loop :: "(u64 \<Rightarrow> 'l \<Rightarrow> rate_limit_decision \<times> 'l) \<Rightarrow> u64 \<Rightarrow> nat \<Rightarrow> bool \<Rightarrow> u64 \<Rightarrow> 'l
    \<Rightarrow> snapshot_send_state \<Rightarrow> snapshot_lifecycle_status
    \<Rightarrow> install_snapshot_request list \<times> 'l \<times> snapshot_send_state \<times> snapshot_lifecycle_status" where
  "poll_limited_loop reserve max_bytes 0 is_first sent lim s st = ([], lim, s, st)"
| "poll_limited_loop reserve max_bytes (Suc room) is_first sent lim s st =
     (if ss_next_chunk s < length (ss_chunks s)
      then (let chunk = ss_chunks s ! ss_next_chunk s
            in if \<not> is_first \<and> max_bytes < sent + length (sc_data chunk) then ([], lim, s, throttle_tick st)
               else (case reserve (length (sc_data chunk)) lim of (d, lim1) \<Rightarrow>
                 (if \<not> rd_allowed d
                  then ([], lim1, s, (throttle_tick st)\<lparr>sy_rate_limited_ticks := wrap_add (sy_rate_limited_ticks st) 1\<rparr>)
                  else (case split_sender (rd_granted_bytes d) chunk s st of (s1, st1) \<Rightarrow>
                    (case poll_limited_loop reserve max_bytes room False (sent + rd_granted_bytes d) lim1 s1 (count_sent st1) of
                       (rs, lim2, s2, st2) \<Rightarrow> (request_of s (granted_part (rd_granted_bytes d) chunk) # rs, lim2, s2, st2))))))
      else ([], lim, s, st))"

definition poll_send_requests_with_limiter :: "(u64 \<Rightarrow> 'l \<Rightarrow> rate_limit_decision \<times> 'l) \<Rightarrow> 'l \<Rightarrow> snapshot_lifecycle
    \<Rightarrow> install_snapshot_request list result \<times> 'l \<times> snapshot_lifecycle" where
  "poll_send_requests_with_limiter reserve lim l = (case slc_sender l of
     None \<Rightarrow> (Inl send_not_active, lim, l)
   | Some s \<Rightarrow> (case poll_limited_loop reserve (sl_max_bytes_per_tick (slc_config l)) (sl_max_chunks_per_tick (slc_config l))
                      True 0 lim s (slc_status l) of
       (rs, lim1, s1, st1) \<Rightarrow> (Inr rs, lim1, poll_end s1 st1 l)))"

section \<open>Answers to the sender\<close>

definition count_retry :: "snapshot_lifecycle_status \<Rightarrow> snapshot_lifecycle_status" where
  "count_retry st = st\<lparr>sy_retry_count := wrap_add (sy_retry_count st) 1\<rparr>"

definition stop_sending :: "snapshot_lifecycle \<Rightarrow> snapshot_lifecycle" where
  "stop_sending l = upd_sy (\<lambda>st. st\<lparr>sy_sending := False\<rparr>) (l\<lparr>slc_sender := None\<rparr>)"

definition chunk_at_or_after :: "u64 \<Rightarrow> snapshot_chunk list \<Rightarrow> nat" where
  "chunk_at_or_after offset chunks = length (takeWhile (\<lambda>chunk. \<not> offset \<le> sc_offset chunk) chunks)"

definition record_send_response :: "install_snapshot_response \<Rightarrow> snapshot_lifecycle \<Rightarrow> (unit, snapshot_lifecycle) outcome" where
  "record_send_response r l = (case slc_sender l of
     None \<Rightarrow> (if is_accepted r then (Inr (), l) else (Inl send_not_active, l))
   | Some s \<Rightarrow>
      (if is_accepted r
       then (let s1 = s\<lparr>ss_accepted_chunks := wrap_add (ss_accepted_chunks s) 1\<rparr>
             in if length (ss_chunks s1) \<le> ss_accepted_chunks s1 \<and> length (ss_chunks s1) \<le> ss_next_chunk s1
                then (Inr (), upd_sy (\<lambda>st. st\<lparr>sy_completed := True\<rparr>) (stop_sending l))
                else (Inr (), l\<lparr>slc_sender := Some s1\<rparr>))
       else
        (let s1 = (if is_throttled r then s else s\<lparr>ss_retry_count := wrap_add (ss_retry_count s) 1\<rparr>);
             st1 = (if is_throttled r then (slc_status l)\<lparr>sy_throttled_responses := wrap_add (sy_throttled_responses (slc_status l)) 1\<rparr>
                    else count_retry (slc_status l));
             l1 = l\<lparr>slc_status := st1, slc_sender := Some s1\<rparr>
         in if \<not> is_throttled r \<and> sl_max_retry_attempts (slc_config l) < ss_retry_count s1
            then (Inl (Transport ''snapshot send retry budget exhausted''), stop_sending l1)
            else (Inr (), l1\<lparr>slc_sender := Some (s1\<lparr>ss_next_chunk := chunk_at_or_after (is_next_offset r) (ss_chunks s1)\<rparr>)\<rparr>))))"

definition record_send_timeout :: "snapshot_lifecycle \<Rightarrow> (unit, snapshot_lifecycle) outcome" where
  "record_send_timeout l = (case slc_sender l of
     None \<Rightarrow> (Inl send_not_active, l)
   | Some s \<Rightarrow>
      (let s1 = s\<lparr>ss_retry_count := wrap_add (ss_retry_count s) 1\<rparr>;
           l1 = l\<lparr>slc_status := count_retry (slc_status l), slc_sender := Some s1\<rparr>
       in if sl_max_retry_attempts (slc_config l) < ss_retry_count s1
          then (Inl (Transport ''snapshot send timeout retry budget exhausted''), stop_sending l1)
          else (Inr (), l1)))"

definition cancel_send :: "snapshot_lifecycle \<Rightarrow> bool \<times> snapshot_lifecycle" where
  "cancel_send l = (case slc_sender l of
     None \<Rightarrow> (False, l)
   | Some s \<Rightarrow> (True, upd_sy (\<lambda>st. st\<lparr>sy_completed := False\<rparr>) (stop_sending l)))"

section \<open>Receiving\<close>

definition open_install :: "snapshot_metadata \<Rightarrow> snapshot_lifecycle \<Rightarrow> snapshot_lifecycle" where
  "open_install meta l = (if slc_installer l \<noteq> None then l
     else upd_sy (\<lambda>st. st\<lparr>sy_snapshot_id := Some (sm_snapshot_id meta), sy_installing := True, sy_sending := False,
            sy_completed := False, sy_received_chunks := 0, sy_total_chunks := 0\<rparr>)
          (l\<lparr>slc_installer := Some (install_state_new meta)\<rparr>))"

definition count_received :: "snapshot_lifecycle_status \<Rightarrow> snapshot_lifecycle_status" where
  "count_received st = (let k = wrap_add (sy_received_chunks st) 1
     in st\<lparr>sy_received_chunks := k, sy_total_chunks := max (sy_total_chunks st) k\<rparr>)"

definition install_request :: "install_snapshot_request \<Rightarrow> snapshot_lifecycle \<Rightarrow> (raft_snapshot option, snapshot_lifecycle) outcome" where
  "install_request q l =
     (if slc_install_closed l
      then (Inl (InvalidRequest ''snapshot install is cancelled for this group''),
            upd_sy (\<lambda>st. st\<lparr>sy_refused_chunks := wrap_add (sy_refused_chunks st) 1\<rparr>) l)
      else
       (let chunk = iq_chunk q; l1 = open_install (sc_meta chunk) l
        in case slc_installer l1 of
             None \<Rightarrow> (Inr None, l1)
           | Some s \<Rightarrow>
              (if sc_offset chunk = 0 \<and> si_meta s \<noteq> sc_meta chunk then (Inr None, l1)
               else case install_chunk chunk s of
                 (Inl e, s1) \<Rightarrow> (Inl e, l1\<lparr>slc_installer := Some s1\<rparr>)
               | (Inr _, s1) \<Rightarrow>
                  (let l2 = upd_sy count_received (l1\<lparr>slc_installer := Some s1\<rparr>)
                   in if \<not> si_complete s1 then (Inr None, l2)
                      else (let l3 = l2\<lparr>slc_installer := None\<rparr>
                            in case install_finish (iq_group_id q) s1 of
                                 Inl e \<Rightarrow> (Inl e, l3)
                               | Inr snapshot \<Rightarrow> (Inr (Some snapshot),
                                   upd_sy (\<lambda>st. st\<lparr>sy_installing := False, sy_completed := True,
                                     sy_installed_index := li_index (sm_last_log_id (rs_meta snapshot))\<rparr>) l3))))))"

definition rollback_install :: "snapshot_lifecycle \<Rightarrow> snapshot_lifecycle" where
  "rollback_install l = upd_sy (\<lambda>st. st\<lparr>sy_installing := False, sy_rolled_back := wrap_add (sy_rolled_back st) 1\<rparr>)
     (l\<lparr>slc_installer := None\<rparr>)"

definition cancel_install :: "snapshot_lifecycle \<Rightarrow> bool \<times> snapshot_lifecycle" where
  "cancel_install l =
     (let was_installing = (slc_installer l \<noteq> None);
          st = (slc_status l)\<lparr>sy_installing := False, sy_install_cancelled := True\<rparr>
      in (was_installing, l\<lparr>slc_installer := None, slc_install_closed := True,
            slc_status := (if was_installing then st\<lparr>sy_cancelled_installs := wrap_add (sy_cancelled_installs st) 1\<rparr> else st)\<rparr>))"

definition admit_install :: "snapshot_lifecycle \<Rightarrow> bool \<times> snapshot_lifecycle" where
  "admit_install l = (slc_install_closed l,
     upd_sy (\<lambda>st. st\<lparr>sy_install_cancelled := False\<rparr>) (l\<lparr>slc_install_closed := False\<rparr>))"

end
