(* ===== verification/MR_Cluster.thy ===== *)
theory MR_Cluster
  imports MR_Config MR_Quorum_Select MR_Node_Safety MR_Snapshot
begin

text \<open>
  The group object \<^verbatim>\<open>RaftCluster\<close> of \<^verbatim>\<open>facade/cluster_runtime.rs\<close>: its state, the indexes and the
  commit quorum it derives from its replicas, the two leases, the witness policy, the fences of a
  membership change, leader transfers, peer liveness, and how far a host may apply.
  Loops that walk the node ids in chunks of sixteen visit every id once, in order, and are folds.
\<close>

section \<open>State\<close>

record leader_lease_confirmation =
  lc_role :: replica_role
  lc_epoch :: u64
  lc_confirmation_epoch :: u64
  lc_duration_ms :: u64
  lc_elapsed_ms :: u64

record reordered_append =
  ra_request :: append_entries_request
  ra_membership_change_indexes :: "log_index list"

datatype leader_transfer_conclusion = Completed | Aborted

record leader_transfer_state =
  lt_transferee_id :: node_id
  lt_elapsed_ticks :: u64
  lt_timeout_ticks :: u64
  lt_aborted_transfers :: u64
  lt_duplicate_requests :: u64
  lt_reason :: string
  lt_conclusion :: "leader_transfer_conclusion option"

record snapshot_trigger_state =
  tg_meta :: snapshot_metadata
  tg_elapsed_ticks :: u64
  tg_timeout_ticks :: u64
  tg_timed_out :: bool

record apply_snapshot_fence =
  af_applied_index :: log_index
  af_commit_index :: log_index
  af_installed_snapshot_index :: log_index
  af_first_retained_log_index :: log_index

record pending_snapshot_install =
  ps_snapshot :: raft_snapshot
  ps_fence :: apply_snapshot_fence

record raft_cluster =
  rc_group_id :: group_id
  rc_config :: raft_config
  rc_nodes :: "node btree"
  rc_peer_pipelines :: "replication_pipeline btree"
  rc_snapshot_installers :: "snapshot_install_state btree"
  rc_pending_snapshots :: "pending_snapshot_install btree"
  rc_leader_id :: "node_id option"
  rc_current_term :: raft_term
  rc_commit_index :: log_index
  rc_applied_index :: log_index
  rc_last_log_index :: log_index
  rc_last_index_before_current_term :: log_index
  rc_pending_membership_change_index :: "log_index option"
  rc_membership_change_indexes :: "log_index list"
  rc_saving_membership_change_index :: "log_index option"
  rc_stabled_membership_change_index :: log_index
  rc_running :: bool
  rc_leader_lease_valid :: bool
  rc_leader_lease_expired :: bool
  rc_leader_lease_elapsed_ms :: u64
  rc_follower_lease_valid :: bool
  rc_follower_lease_elapsed_ms :: u64
  rc_follower_lease_duration_ms :: u64
  rc_follower_lease_epoch :: u64
  rc_leader_lease_epoch :: u64
  rc_leader_lease_confirmations :: "leader_lease_confirmation btree"
  rc_leader_lease_confirmation_epochs :: "u64 btree"
  rc_reorder_queues :: "reordered_append btree btree"
  rc_ignore_witness :: bool
  rc_count_witness_in_commit_quorum :: bool
  rc_prohibits_election :: bool
  rc_leader_transfer :: "leader_transfer_state option"
  rc_leader_transfer_timeout_ticks :: u64
  rc_aborted_leader_transfers :: u64
  rc_duplicate_leader_transfer_requests :: u64
  rc_snapshot_trigger :: "snapshot_trigger_state option"
  rc_duplicate_snapshot_trigger_requests :: u64
  rc_vote_responses :: "bool btree"
  rc_pre_vote_responses :: "bool btree"
  rc_election_responses_term :: raft_term

abbreviation cluster_node :: "raft_cluster \<Rightarrow> node_id \<Rightarrow> node option" where
  "cluster_node c i \<equiv> bt_get (rc_nodes c) i"

definition modify_node :: "node_id \<Rightarrow> (node \<Rightarrow> node) \<Rightarrow> raft_cluster \<Rightarrow> raft_cluster" where
  "modify_node i f c = c\<lparr>rc_nodes := bt_modify i f (rc_nodes c)\<rparr>"

definition modify_nodes :: "(node \<Rightarrow> node) \<Rightarrow> raft_cluster \<Rightarrow> raft_cluster" where
  "modify_nodes f c = c\<lparr>rc_nodes := bt_map_values f (rc_nodes c)\<rparr>"

definition modify_pipeline :: "node_id \<Rightarrow> (replication_pipeline \<Rightarrow> replication_pipeline) \<Rightarrow> raft_cluster \<Rightarrow> raft_cluster" where
  "modify_pipeline i f c = c\<lparr>rc_peer_pipelines := bt_modify i f (rc_peer_pipelines c)\<rparr>"

definition resolve_leader_transfer_timeout_ticks :: "raft_config \<Rightarrow> u64" where
  "resolve_leader_transfer_timeout_ticks cfg =
     (if 0 < cf_leader_transfer_timeout_ticks cfg then cf_leader_transfer_timeout_ticks cfg
      else max (cf_election_timeout_ms cfg div max (cf_heartbeat_interval_ms cfg) 1) 1)"

fun insert_peers :: "peer list \<Rightarrow> node btree \<Rightarrow> node btree result" where
  "insert_peers [] nodes = Inr nodes"
| "insert_peers (p # ps) nodes =
     (if bt_contains_key nodes (pr_node_id p)
      then Inl (InvalidRequest (''duplicate raft node id '' @ show_nat (pr_node_id p)))
      else insert_peers ps (bt_insert (pr_node_id p) (node_new (pr_node_id p) (pr_role p) (pr_auto_promote p)) nodes))"

definition cluster_new :: "group_id \<Rightarrow> raft_config \<Rightarrow> peer list \<Rightarrow> raft_cluster result" where
  "cluster_new group_id cfg peers = (case config_validate cfg of
     Inl e \<Rightarrow> Inl (Config (show_config_error e))
   | Inr _ \<Rightarrow>
      (if peers = [] then Inl (InvalidRequest ''raft cluster requires at least one peer'')
       else case insert_peers peers [] of
         Inl e \<Rightarrow> Inl e
       | Inr nodes \<Rightarrow>
         (if \<not> list_ex (\<lambda>n. can_be_leader (nd_replica_role n)) (bt_values nodes)
          then Inl (InvalidRequest ''raft cluster requires at least one voter'')
          else
           (let lease = (if cf_enable_lease_read cfg \<and> cf_assume_lease_when_start cfg
                         then (if cf_last_follower_lease_ms cfg = 0 then cf_leader_lease_ms cfg
                               else cf_last_follower_lease_ms cfg)
                         else 0)
            in Inr \<lparr>rc_group_id = group_id, rc_config = cfg, rc_nodes = nodes,
                 rc_peer_pipelines = map (\<lambda>i. (i, pipeline_new i 1 (config_pipeline_limits cfg))) (bt_keys nodes),
                 rc_snapshot_installers = [], rc_pending_snapshots = [],
                 rc_leader_id = None, rc_current_term = 0, rc_commit_index = 0, rc_applied_index = 0,
                 rc_last_log_index = 0, rc_last_index_before_current_term = 0,
                 rc_pending_membership_change_index = None, rc_membership_change_indexes = [],
                 rc_saving_membership_change_index = None, rc_stabled_membership_change_index = 0,
                 rc_running = False, rc_leader_lease_valid = False, rc_leader_lease_expired = False,
                 rc_leader_lease_elapsed_ms = 0, rc_follower_lease_valid = (0 < lease),
                 rc_follower_lease_elapsed_ms = 0, rc_follower_lease_duration_ms = lease,
                 rc_follower_lease_epoch = 0, rc_leader_lease_epoch = 0, rc_leader_lease_confirmations = [],
                 rc_leader_lease_confirmation_epochs = [], rc_reorder_queues = [], rc_ignore_witness = False,
                 rc_count_witness_in_commit_quorum = False, rc_prohibits_election = False,
                 rc_leader_transfer = None,
                 rc_leader_transfer_timeout_ticks = resolve_leader_transfer_timeout_ticks cfg,
                 rc_aborted_leader_transfers = 0, rc_duplicate_leader_transfer_requests = 0,
                 rc_snapshot_trigger = None, rc_duplicate_snapshot_trigger_requests = 0,
                 rc_vote_responses = [], rc_pre_vote_responses = [], rc_election_responses_term = 0\<rparr>))))"

definition role_ids :: "replica_role \<Rightarrow> raft_cluster \<Rightarrow> node_id list" where
  "role_ids r c = map nd_id (filter (\<lambda>n. nd_replica_role n = r) (bt_values (rc_nodes c)))"

definition cluster_membership :: "raft_cluster \<Rightarrow> membership" where
  "cluster_membership c = \<lparr>mb_group_id = rc_group_id c, mb_voters = role_ids VoterRole c,
     mb_learners = role_ids LearnerRole c, mb_witnesses = role_ids WitnessRole c, mb_epoch = rc_current_term c\<rparr>"

definition require_running :: "string \<Rightarrow> raft_cluster \<Rightarrow> unit result" where
  "require_running operation c =
     (if rc_running c then Inr ()
      else Inl (InvalidRequest (''cannot '' @ operation @ '' while cluster is stopped'')))"

section \<open>Commit quorum and indexes\<close>

definition counts_toward_commit_quorum :: "raft_cluster \<Rightarrow> node \<Rightarrow> bool" where
  "counts_toward_commit_quorum c n \<longleftrightarrow>
     participates_in_quorum (nd_replica_role n)
     \<and> \<not> (rc_ignore_witness c \<and> nd_replica_role n = WitnessRole)
     \<and> (nd_replica_role n \<noteq> WitnessRole \<or> rc_count_witness_in_commit_quorum c)"

definition commit_quorum_size :: "raft_cluster \<Rightarrow> nat" where
  "commit_quorum_size c =
     (let voters = length (filter (\<lambda>n. nd_replica_role n = VoterRole
                     \<or> (\<not> rc_ignore_witness c \<and> rc_count_witness_in_commit_quorum c \<and> nd_replica_role n = WitnessRole))
                    (bt_values (rc_nodes c)))
      in voters div 2 + 1)"

definition commit_candidates :: "raft_cluster \<Rightarrow> log_index list" where
  "commit_candidates c = map match_index (filter (counts_toward_commit_quorum c) (bt_values (rc_nodes c)))"

definition INLINE_QUORUM_CANDIDATES :: nat where
  "INLINE_QUORUM_CANDIDATES = 16"

definition commit_quorum_match_index_by_counting :: "nat \<Rightarrow> raft_cluster \<Rightarrow> log_index option" where
  "commit_quorum_match_index_by_counting needed c =
     (let xs = commit_candidates c; best = fold (count_step needed xs) xs None
      in if length xs < needed then None else best)"

definition commit_quorum_match_index :: "raft_cluster \<Rightarrow> log_index option" where
  "commit_quorum_match_index c =
     (let needed = commit_quorum_size c; xs = commit_candidates c
      in if INLINE_QUORUM_CANDIDATES < length xs then commit_quorum_match_index_by_counting needed c
         else if length xs < needed then None
         else Some (select_nth xs (length xs - needed)))"

text \<open>\<^verbatim>\<open>max\<close> and \<^verbatim>\<open>min\<close> of an iterator, with \<^verbatim>\<open>unwrap_or_default\<close>.\<close>

definition max_or_zero :: "nat list \<Rightarrow> nat" where
  "max_or_zero xs = foldr max xs 0"

definition min_or_zero :: "nat list \<Rightarrow> nat" where
  "min_or_zero xs = (case xs of [] \<Rightarrow> 0 | x # ys \<Rightarrow> foldr min ys x)"

definition refresh_cluster_indexes :: "raft_cluster \<Rightarrow> raft_cluster" where
  "refresh_cluster_indexes c = (let ns = bt_values (rc_nodes c) in
     c\<lparr>rc_commit_index := max_or_zero (map nd_commit_index ns),
       rc_applied_index := min_or_zero (map nd_safety_applied_index
                             (filter (\<lambda>n. can_serve_data (nd_replica_role n)) ns)),
       rc_last_log_index := max_or_zero (map match_index ns)\<rparr>)"

definition refresh_commit_index :: "raft_cluster \<Rightarrow> raft_cluster" where
  "refresh_commit_index c = (case commit_quorum_match_index c of
     None \<Rightarrow> c
   | Some commit \<Rightarrow> (case rc_leader_id c of
       None \<Rightarrow> c
     | Some leader_id \<Rightarrow> (case cluster_node c leader_id of
         None \<Rightarrow> c
       | Some leader \<Rightarrow>
           (if log_term_at leader commit \<noteq> Some (rc_current_term c) then c
            else (let commit' = max (rc_commit_index c) commit
                  in refresh_cluster_indexes
                       (modify_nodes (\<lambda>n. if nd_healthy n then advance_commit commit' n else n)
                         (c\<lparr>rc_commit_index := commit'\<rparr>)))))))"

definition has_live_quorum :: "raft_cluster \<Rightarrow> bool" where
  "has_live_quorum c =
     (let ns = bt_values (rc_nodes c);
          voters = length (filter (\<lambda>n. nd_replica_role n = VoterRole) ns);
          witnesses = length (filter (\<lambda>n. nd_replica_role n = WitnessRole) ns);
          live = length (filter (\<lambda>n. nd_healthy n \<and> participates_in_quorum (nd_replica_role n)
                                   \<and> \<not> (rc_ignore_witness c \<and> nd_replica_role n = WitnessRole)) ns)
      in matrixraft_quorum_size voters witnesses (rc_ignore_witness c) \<le> live)"

section \<open>Leader transfer\<close>

definition active_leader_transfer :: "raft_cluster \<Rightarrow> leader_transfer_state option" where
  "active_leader_transfer c = (case rc_leader_transfer c of
     Some t \<Rightarrow> (if lt_conclusion t = None then Some t else None) | None \<Rightarrow> None)"

definition abort_leader_transfer :: "string \<Rightarrow> raft_cluster \<Rightarrow> bool \<times> raft_cluster" where
  "abort_leader_transfer reason c = (case active_leader_transfer c of
     None \<Rightarrow> (False, c)
   | Some t \<Rightarrow> (True, c\<lparr>rc_leader_transfer := Some (t\<lparr>lt_reason := reason, lt_conclusion := Some Aborted\<rparr>),
                        rc_aborted_leader_transfers := sat_add (rc_aborted_leader_transfers c) 1\<rparr>))"

definition complete_leader_transfer :: "string \<Rightarrow> raft_cluster \<Rightarrow> bool \<times> raft_cluster" where
  "complete_leader_transfer reason c = (case active_leader_transfer c of
     None \<Rightarrow> (False, c)
   | Some t \<Rightarrow> (True, c\<lparr>rc_leader_transfer := Some (t\<lparr>lt_reason := reason, lt_conclusion := Some Completed\<rparr>)\<rparr>))"

definition tick_leader_transfer :: "raft_cluster \<Rightarrow> bool \<times> raft_cluster" where
  "tick_leader_transfer c = (case active_leader_transfer c of
     None \<Rightarrow> (False, c)
   | Some t \<Rightarrow>
      (let t' = t\<lparr>lt_elapsed_ticks := sat_add (lt_elapsed_ticks t) 1\<rparr>;
           c' = c\<lparr>rc_leader_transfer := Some t'\<rparr>
       in if lt_timeout_ticks t' \<le> lt_elapsed_ticks t' then abort_leader_transfer ''transfer_timeout'' c'
          else (False, c')))"

text \<open>What a new leader does to a transfer in flight.\<close>

definition settle_leader_transfer :: "node_id \<Rightarrow> raft_cluster \<Rightarrow> raft_cluster" where
  "settle_leader_transfer new_leader c = (case active_leader_transfer c of
     None \<Rightarrow> c
   | Some t \<Rightarrow> (if lt_transferee_id t = new_leader
                then snd (complete_leader_transfer ''transferee_became_leader'' c)
                else snd (abort_leader_transfer ''leader_changed_before_transfer_complete'' c)))"

section \<open>Follower lease\<close>

definition is_follower_lease_valid :: "raft_cluster \<Rightarrow> bool" where
  "is_follower_lease_valid c = (cf_enable_lease_read (rc_config c) \<and> rc_follower_lease_valid c)"

definition receive_follower_lease_item :: "u64 \<Rightarrow> raft_cluster \<Rightarrow> bool \<times> raft_cluster" where
  "receive_follower_lease_item epoch c =
     (if epoch \<le> rc_follower_lease_epoch c then (False, c)
      else (let c' = c\<lparr>rc_follower_lease_epoch := epoch,
                       rc_follower_lease_valid := cf_enable_lease_read (rc_config c),
                       rc_follower_lease_elapsed_ms := 0,
                       rc_follower_lease_duration_ms := cf_leader_lease_ms (rc_config c)\<rparr>
            in (is_follower_lease_valid c', c')))"

definition renew_follower_lease :: "raft_cluster \<Rightarrow> raft_cluster" where
  "renew_follower_lease c = snd (receive_follower_lease_item (sat_add (rc_follower_lease_epoch c) 1) c)"

definition renew_follower_lease_from_append_entries :: "u64 \<Rightarrow> raft_cluster \<Rightarrow> raft_cluster" where
  "renew_follower_lease_from_append_entries lease_epoch c =
     (if 0 < lease_epoch then snd (receive_follower_lease_item lease_epoch c) else renew_follower_lease c)"

definition invalidate_follower_lease :: "raft_cluster \<Rightarrow> raft_cluster" where
  "invalidate_follower_lease c =
     c\<lparr>rc_follower_lease_valid := False, rc_follower_lease_elapsed_ms := 0,
       rc_follower_lease_duration_ms := 0, rc_follower_lease_epoch := 0\<rparr>"

definition expire_follower_lease :: "raft_cluster \<Rightarrow> raft_cluster" where
  "expire_follower_lease c =
     c\<lparr>rc_follower_lease_valid := False, rc_follower_lease_elapsed_ms := 0,
       rc_follower_lease_duration_ms := 0\<rparr>"

definition tick_follower_lease :: "u64 \<Rightarrow> raft_cluster \<Rightarrow> bool \<times> raft_cluster" where
  "tick_follower_lease elapsed_ms c =
     (if \<not> is_follower_lease_valid c then (False, c)
      else (let c' = c\<lparr>rc_follower_lease_elapsed_ms := sat_add (rc_follower_lease_elapsed_ms c) elapsed_ms\<rparr>
            in if rc_follower_lease_duration_ms c' \<le> rc_follower_lease_elapsed_ms c'
               then (True, expire_follower_lease c') else (False, c')))"

definition set_follower_lease_valid :: "bool \<Rightarrow> raft_cluster \<Rightarrow> raft_cluster" where
  "set_follower_lease_valid v c = (if v then renew_follower_lease c else invalidate_follower_lease c)"

section \<open>Leader lease\<close>

definition invalidate_leader_lease :: "raft_cluster \<Rightarrow> raft_cluster" where
  "invalidate_leader_lease c =
     c\<lparr>rc_leader_lease_valid := False, rc_leader_lease_elapsed_ms := 0, rc_leader_lease_confirmations := []\<rparr>"

definition expire_leader_lease :: "raft_cluster \<Rightarrow> raft_cluster" where
  "expire_leader_lease c =
     c\<lparr>rc_leader_lease_valid := False, rc_leader_lease_expired := True, rc_leader_lease_confirmations := []\<rparr>"

definition reset_leader_lease_epoch :: "raft_cluster \<Rightarrow> raft_cluster" where
  "reset_leader_lease_epoch c =
     c\<lparr>rc_leader_lease_epoch := sat_add (rc_leader_lease_epoch c) 1, rc_leader_lease_expired := False,
       rc_leader_lease_elapsed_ms := 0, rc_leader_lease_confirmations := [], rc_leader_lease_valid := False\<rparr>"

definition lease_acknowledged :: "raft_cluster \<Rightarrow> node_id \<Rightarrow> node \<Rightarrow> bool" where
  "lease_acknowledged c leader_id n \<longleftrightarrow> nd_id n = leader_id
     \<or> (case bt_get (rc_leader_lease_confirmations c) (nd_id n) of
          Some k \<Rightarrow> lc_epoch k = rc_leader_lease_epoch c \<and> lc_role k = nd_replica_role n
                    \<and> lc_elapsed_ms k < lc_duration_ms k
        | None \<Rightarrow> False)"

definition counts_toward_lease :: "raft_cluster \<Rightarrow> node \<Rightarrow> bool" where
  "counts_toward_lease c n = (case nd_replica_role n of
     VoterRole \<Rightarrow> True | WitnessRole \<Rightarrow> \<not> rc_ignore_witness c | LearnerRole \<Rightarrow> False)"

definition leader_lease_quorum_reached :: "raft_cluster \<Rightarrow> bool" where
  "leader_lease_quorum_reached c =
     (if rc_leader_lease_expired c then False
      else case rc_leader_id c of
        None \<Rightarrow> False
      | Some leader_id \<Rightarrow>
         (if \<not> (case cluster_node c leader_id of
                  Some n \<Rightarrow> nd_healthy n \<and> can_be_leader (nd_replica_role n)
                    \<and> rc_leader_lease_elapsed_ms c < cf_leader_lease_ms (rc_config c)
                | None \<Rightarrow> False)
          then False
          else (let ns = bt_values (rc_nodes c);
                    voters = length (filter (\<lambda>n. nd_replica_role n = VoterRole) ns);
                    witnesses = length (filter (\<lambda>n. nd_replica_role n = WitnessRole) ns);
                    votes = length (filter (\<lambda>n. counts_toward_lease c n \<and> lease_acknowledged c leader_id n) ns)
                in matrixraft_quorum_size voters witnesses (rc_ignore_witness c) \<le> votes)))"

definition recompute_lease :: "bool \<Rightarrow> raft_cluster \<Rightarrow> raft_cluster" where
  "recompute_lease wanted c =
     (if wanted then c\<lparr>rc_leader_lease_valid := leader_lease_quorum_reached c\<rparr> else c)"

definition receive_leader_lease_confirmation_inner ::
  "node_id \<Rightarrow> u64 \<Rightarrow> u64 \<Rightarrow> bool \<Rightarrow> raft_cluster \<Rightarrow> bool \<times> raft_cluster" where
  "receive_leader_lease_confirmation_inner i confirmation_epoch duration_ms recompute c =
     (if rc_leader_id c = Some i \<or> duration_ms = 0 then (False, c)
      else case cluster_node c i of
        None \<Rightarrow> (False, c)
      | Some n \<Rightarrow>
         (if \<not> participates_in_quorum (nd_replica_role n)
             \<or> (rc_ignore_witness c \<and> nd_replica_role n = WitnessRole) then (False, c)
          else if confirmation_epoch \<le> (case bt_get (rc_leader_lease_confirmation_epochs c) i of
                     Some e \<Rightarrow> e | None \<Rightarrow> 0) then (False, c)
          else
           (let c1 = c\<lparr>rc_leader_lease_confirmation_epochs :=
                        bt_insert i confirmation_epoch (rc_leader_lease_confirmation_epochs c)\<rparr>;
                keep = (case bt_get (rc_leader_lease_confirmations c1) i of
                          Some k \<Rightarrow> lc_epoch k = rc_leader_lease_epoch c1 \<and> lc_role k = nd_replica_role n
                                     \<and> duration_ms \<le> lc_duration_ms k - lc_elapsed_ms k
                        | None \<Rightarrow> False)
            in if keep
               then (True, recompute_lease recompute
                      (c1\<lparr>rc_leader_lease_confirmations := bt_modify i
                            (\<lambda>k. k\<lparr>lc_confirmation_epoch := confirmation_epoch\<rparr>) (rc_leader_lease_confirmations c1)\<rparr>))
               else (True, recompute_lease recompute
                      (c1\<lparr>rc_leader_lease_expired := False,
                          rc_leader_lease_confirmations := bt_insert i
                            \<lparr>lc_role = nd_replica_role n, lc_epoch = rc_leader_lease_epoch c1,
                             lc_confirmation_epoch = confirmation_epoch, lc_duration_ms = duration_ms,
                             lc_elapsed_ms = rc_leader_lease_elapsed_ms c1\<rparr>
                            (rc_leader_lease_confirmations c1)\<rparr>)))))"

definition record_leader_lease_confirmation_inner :: "node_id \<Rightarrow> bool \<Rightarrow> raft_cluster \<Rightarrow> raft_cluster" where
  "record_leader_lease_confirmation_inner i recompute c =
     (let epoch = sat_add (case bt_get (rc_leader_lease_confirmation_epochs c) i of Some e \<Rightarrow> e | None \<Rightarrow> 0) 1
      in snd (receive_leader_lease_confirmation_inner i epoch (cf_leader_lease_ms (rc_config c)) recompute c))"

definition receive_leader_lease_confirmation :: "node_id \<Rightarrow> u64 \<Rightarrow> raft_cluster \<Rightarrow> bool \<times> raft_cluster" where
  "receive_leader_lease_confirmation i confirmation_epoch c =
     receive_leader_lease_confirmation_inner i confirmation_epoch (cf_leader_lease_ms (rc_config c)) True c"

definition begin_leader_lease_renewal :: "raft_cluster \<Rightarrow> bool \<times> raft_cluster" where
  "begin_leader_lease_renewal c =
     (if rc_leader_id c = None then (False, invalidate_leader_lease c)
      else (True, c\<lparr>rc_leader_lease_epoch := sat_add (rc_leader_lease_epoch c) 1,
                    rc_leader_lease_expired := False, rc_leader_lease_elapsed_ms := 0\<rparr>))"

definition finish_leader_lease_renewal :: "raft_cluster \<Rightarrow> bool \<times> raft_cluster" where
  "finish_leader_lease_renewal c =
     (let v = leader_lease_quorum_reached c in (v, c\<lparr>rc_leader_lease_valid := v\<rparr>))"

definition renew_leader_lease_from_live_quorum :: "raft_cluster \<Rightarrow> bool \<times> raft_cluster" where
  "renew_leader_lease_from_live_quorum c = (case rc_leader_id c of
     None \<Rightarrow> (False, invalidate_leader_lease c)
   | Some leader_id \<Rightarrow>
      (if \<not> (case cluster_node c leader_id of
               Some n \<Rightarrow> nd_healthy n \<and> can_be_leader (nd_replica_role n) | None \<Rightarrow> False)
       then (False, invalidate_leader_lease c)
       else (case begin_leader_lease_renewal c of
         (False, c') \<Rightarrow> (False, c')
       | (True, c') \<Rightarrow> finish_leader_lease_renewal
           (fold (\<lambda>i. record_leader_lease_confirmation_inner i False)
             (map fst (filter (\<lambda>(_, n). nd_healthy n \<and> participates_in_quorum (nd_replica_role n)
                \<and> \<not> (rc_ignore_witness c \<and> nd_replica_role n = WitnessRole)) (rc_nodes c))) c'))))"

definition set_leader_lease_valid :: "bool \<Rightarrow> raft_cluster \<Rightarrow> raft_cluster" where
  "set_leader_lease_valid v c =
     (if v then snd (renew_leader_lease_from_live_quorum c) else invalidate_leader_lease c)"

section \<open>Witness policy, ticks, health\<close>

definition refresh_witness_commit_quorum_policy :: "raft_cluster \<Rightarrow> bool \<times> raft_cluster" where
  "refresh_witness_commit_quorum_policy c =
     (let ns = bt_values (rc_nodes c);
          voter_nodes = filter (\<lambda>n. nd_replica_role n = VoterRole) ns;
          witness_nodes = filter (\<lambda>n. nd_replica_role n = WitnessRole) ns;
          voters = length voter_nodes; witnesses = length witness_nodes;
          live_voters = length (filter nd_healthy voter_nodes);
          live_witnesses = length (filter nd_healthy witness_nodes);
          should_count =
            (if rc_ignore_witness c \<or> matrixraft_quorum_size voters witnesses True \<le> live_voters then False
             else matrixraft_quorum_size voters witnesses False \<le> live_voters + live_witnesses);
          changed = (rc_count_witness_in_commit_quorum c \<noteq> should_count);
          c' = c\<lparr>rc_count_witness_in_commit_quorum := should_count\<rparr>
      in (changed, if changed then refresh_commit_index c' else c'))"

definition age_confirmation :: "u64 \<Rightarrow> leader_lease_confirmation \<Rightarrow> leader_lease_confirmation" where
  "age_confirmation elapsed_ms k = k\<lparr>lc_elapsed_ms := sat_add (lc_elapsed_ms k) elapsed_ms\<rparr>"

definition tick_leader_lease :: "u64 \<Rightarrow> raft_cluster \<Rightarrow> bool \<times> raft_cluster" where
  "tick_leader_lease elapsed_ms c =
     (if \<not> cf_enable_lease_read (rc_config c) then (rc_leader_lease_valid c, expire_leader_lease c)
      else
       (let c1 = c\<lparr>rc_leader_lease_elapsed_ms := sat_add (rc_leader_lease_elapsed_ms c) elapsed_ms,
                   rc_leader_lease_confirmations :=
                     bt_map_values (age_confirmation elapsed_ms) (rc_leader_lease_confirmations c)\<rparr>;
            c2 = snd (refresh_witness_commit_quorum_policy
                   (c1\<lparr>rc_leader_lease_valid := leader_lease_quorum_reached c1\<rparr>))
        in (rc_leader_lease_valid c \<and> \<not> rc_leader_lease_valid c2, c2)))"

definition remove_election_response_from :: "node_id \<Rightarrow> raft_cluster \<Rightarrow> raft_cluster" where
  "remove_election_response_from i c =
     c\<lparr>rc_vote_responses := bt_remove i (rc_vote_responses c),
       rc_pre_vote_responses := bt_remove i (rc_pre_vote_responses c)\<rparr>"

definition set_ignore_witness :: "bool \<Rightarrow> raft_cluster \<Rightarrow> raft_cluster" where
  "set_ignore_witness ignore c =
     (if rc_ignore_witness c = ignore then c
      else (let c1 = c\<lparr>rc_ignore_witness := ignore\<rparr>;
                c2 = (if ignore
                      then fold remove_election_response_from (mb_witnesses (cluster_membership c1))
                             (c1\<lparr>rc_count_witness_in_commit_quorum := False\<rparr>)
                      else c1)
            in refresh_commit_index (c2\<lparr>rc_leader_lease_valid := leader_lease_quorum_reached c2\<rparr>)))"

definition step_down_leader_if_lost_quorum :: "raft_cluster \<Rightarrow> bool \<times> raft_cluster" where
  "step_down_leader_if_lost_quorum c =
     (if rc_leader_id c = None \<or> has_live_quorum c \<or> rc_leader_lease_valid c then (False, c)
      else (True, modify_nodes (\<lambda>n. if nd_raft_role n = Leader then n\<lparr>nd_raft_role := Follower\<rparr> else n)
             (snd (abort_leader_transfer ''lost_quorum'' (invalidate_leader_lease (c\<lparr>rc_leader_id := None\<rparr>))))))"

definition set_node_healthy :: "node_id \<Rightarrow> bool \<Rightarrow> raft_cluster \<Rightarrow> (unit, raft_cluster) outcome" where
  "set_node_healthy i healthy c =
     (if cluster_node c i = None then (Inl (NodeNotFound i), c)
      else (let c1 = modify_node i (\<lambda>n. n\<lparr>nd_healthy := healthy, nd_liveness_elapsed_ms := 0\<rparr>) c;
                c2 = (if healthy then modify_pipeline i record_peer_active c1 else c1)
            in (Inr (), if rc_leader_id c2 = Some i \<and> \<not> healthy then invalidate_leader_lease c2 else c2)))"

definition mark_peer_active :: "node_id \<Rightarrow> raft_cluster \<Rightarrow> (unit, raft_cluster) outcome" where
  "mark_peer_active i c =
     (if cluster_node c i = None then (Inl (NodeNotFound i), c)
      else (Inr (), modify_pipeline i record_peer_active
              (modify_node i (\<lambda>n. n\<lparr>nd_healthy := True, nd_liveness_elapsed_ms := 0\<rparr>) c)))"

definition peer_response_is_active :: "node_id \<Rightarrow> raft_cluster \<Rightarrow> bool result" where
  "peer_response_is_active i c = (case cluster_node c i of None \<Rightarrow> Inl (NodeNotFound i) | Some n \<Rightarrow> Inr (nd_healthy n))"

definition peer_offline_timeout_ms :: "raft_cluster \<Rightarrow> u64" where
  "peer_offline_timeout_ms c =
     (let cfg = rc_config c
      in if cf_peer_offline_timeout_ticks cfg = 0 then max (cf_election_timeout_ms cfg) 1
         else max (sat_mul (cf_peer_offline_timeout_ticks cfg) (max (cf_heartbeat_interval_ms cfg) 1)) 1)"

definition liveness_step :: "node_id \<Rightarrow> u64 \<Rightarrow> u64 \<Rightarrow> node_id \<Rightarrow> node_id list \<times> raft_cluster \<Rightarrow> node_id list \<times> raft_cluster" where
  "liveness_step leader_id timeout_ms elapsed_ms i acc = (case acc of (timed_out, c) \<Rightarrow>
     (case cluster_node c i of
        None \<Rightarrow> (timed_out, c)
      | Some n \<Rightarrow>
         (if i = leader_id
          then (if nd_healthy n
                then (timed_out, modify_pipeline i record_peer_active
                        (modify_node i (\<lambda>n. n\<lparr>nd_liveness_elapsed_ms := 0\<rparr>) c))
                else (timed_out, c))
          else if \<not> nd_healthy n then (timed_out, c)
          else (let waited = sat_add (nd_liveness_elapsed_ms n) elapsed_ms;
                    c1 = modify_node i (\<lambda>n. n\<lparr>nd_liveness_elapsed_ms := waited\<rparr>) c
                in if timeout_ms < waited
                   then (timed_out @ [i], modify_pipeline i record_offline_timeout
                           (modify_node i (\<lambda>n. n\<lparr>nd_healthy := False\<rparr>) c1))
                   else (timed_out, c1)))))"

definition tick_peer_liveness :: "u64 \<Rightarrow> raft_cluster \<Rightarrow> node_id list \<times> raft_cluster" where
  "tick_peer_liveness elapsed_ms c = (case rc_leader_id c of
     None \<Rightarrow> ([], c)
   | Some leader_id \<Rightarrow>
       fold (liveness_step leader_id (peer_offline_timeout_ms c) elapsed_ms) (bt_keys (rc_nodes c)) ([], c))"

section \<open>Membership change fences\<close>

definition set_insert :: "nat \<Rightarrow> nat list \<Rightarrow> nat list" where
  "set_insert x xs = (if x \<in> set xs then xs else insort x xs)"

definition membership_change_fence_active :: "raft_cluster \<Rightarrow> bool" where
  "membership_change_fence_active c \<longleftrightarrow>
     (case rc_pending_membership_change_index c of Some i \<Rightarrow> rc_applied_index c < i | None \<Rightarrow> False)
     \<or> (case rc_saving_membership_change_index c of
          Some i \<Rightarrow> rc_stabled_membership_change_index c < i | None \<Rightarrow> False)"

definition saving_conflict :: "raft_cluster \<Rightarrow> raft_error option" where
  "saving_conflict c = (case rc_saving_membership_change_index c of
     Some i \<Rightarrow> (if rc_stabled_membership_change_index c < i
                then Some (InvalidRequest (''saving_membership_change_index:'' @ show_nat i)) else None)
   | None \<Rightarrow> None)"

definition pending_conflict :: "(log_index \<Rightarrow> bool) \<Rightarrow> raft_cluster \<Rightarrow> raft_error option" where
  "pending_conflict other c = (case rc_pending_membership_change_index c of
     Some i \<Rightarrow> (if other i \<and> rc_applied_index c < i
                then Some (InvalidRequest (''pending_membership_change_index:'' @ show_nat i)) else None)
   | None \<Rightarrow> None)"

definition begin_pending_membership_change :: "log_index \<Rightarrow> raft_cluster \<Rightarrow> (unit, raft_cluster) outcome" where
  "begin_pending_membership_change i c =
     (if i = 0 then (Inl (InvalidRequest ''membership change log index must be non-zero''), c)
      else case saving_conflict c of Some e \<Rightarrow> (Inl e, c)
      | None \<Rightarrow> (case pending_conflict (\<lambda>_. True) c of Some e \<Rightarrow> (Inl e, c)
        | None \<Rightarrow> (Inr (), c\<lparr>rc_pending_membership_change_index := Some i,
                            rc_membership_change_indexes := set_insert i (rc_membership_change_indexes c)\<rparr>)))"

definition begin_saving_membership_change :: "log_index \<Rightarrow> raft_cluster \<Rightarrow> (unit, raft_cluster) outcome" where
  "begin_saving_membership_change i c =
     (if i = 0 then (Inl (InvalidRequest ''membership change log index must be non-zero''), c)
      else case saving_conflict c of Some e \<Rightarrow> (Inl e, c)
      | None \<Rightarrow> (case pending_conflict (\<lambda>p. p \<noteq> i) c of Some e \<Rightarrow> (Inl e, c)
        | None \<Rightarrow> (Inr (), c\<lparr>rc_pending_membership_change_index := Some i,
                            rc_membership_change_indexes := set_insert i (rc_membership_change_indexes c),
                            rc_saving_membership_change_index := Some i\<rparr>)))"

definition mark_membership_change_applied :: "log_index \<Rightarrow> raft_cluster \<Rightarrow> raft_cluster" where
  "mark_membership_change_applied i c =
     (let c1 = c\<lparr>rc_applied_index := max (rc_applied_index c) i\<rparr>
      in if (case rc_pending_membership_change_index c1 of Some p \<Rightarrow> p \<le> i | None \<Rightarrow> False)
            \<and> \<not> (case rc_saving_membership_change_index c1 of Some s \<Rightarrow> s \<le> i | None \<Rightarrow> False)
         then c1\<lparr>rc_pending_membership_change_index := None\<rparr> else c1)"

definition mark_membership_change_stabled :: "log_index \<Rightarrow> raft_cluster \<Rightarrow> raft_cluster" where
  "mark_membership_change_stabled i c =
     (let c1 = c\<lparr>rc_stabled_membership_change_index := max (rc_stabled_membership_change_index c) i\<rparr>;
          c2 = (if (case rc_saving_membership_change_index c1 of
                      Some s \<Rightarrow> s \<le> rc_stabled_membership_change_index c1 | None \<Rightarrow> False)
                then c1\<lparr>rc_saving_membership_change_index := None\<rparr> else c1)
      in if i \<le> rc_applied_index c2 then mark_membership_change_applied i c2 else c2)"

definition submit_stabled_result ::
  "log_index option \<Rightarrow> log_index option \<Rightarrow> log_index \<Rightarrow> raft_cluster \<Rightarrow> (bool, raft_cluster) outcome" where
  "submit_stabled_result first_index last_index stabled c =
     (case (first_index, last_index) of
        (Some f, None) \<Rightarrow> (Inl (InvalidRequest ''stabled result range must include both first_index and last_index''), c)
      | (None, Some l) \<Rightarrow> (Inl (InvalidRequest ''stabled result range must include both first_index and last_index''), c)
      | _ \<Rightarrow>
         (if (case (first_index, last_index) of (Some f, Some l) \<Rightarrow> f = 0 \<or> l = 0 \<or> l < f | _ \<Rightarrow> False)
          then (Inl (InvalidRequest (''invalid stabled result range: '' @ show_nat (the first_index) @ ''..='' @ show_nat (the last_index))), c)
          else (let c1 = (if 0 < stabled then mark_membership_change_stabled stabled c else c)
                in if first_index \<noteq> None \<and> last_index \<noteq> None then (Inr True, refresh_commit_index c1)
                   else (Inr False, c1))))"

definition mark_snapshot_membership_floor_applied :: "log_index \<Rightarrow> raft_cluster \<Rightarrow> raft_cluster" where
  "mark_snapshot_membership_floor_applied i c =
     (let kept = filter (\<lambda>x. i < x) (rc_membership_change_indexes c);
          c1 = c\<lparr>rc_applied_index := max (rc_applied_index c) i, rc_membership_change_indexes := kept\<rparr>;
          c2 = (if (case rc_saving_membership_change_index c1 of Some s \<Rightarrow> s \<le> i | None \<Rightarrow> False)
                then c1\<lparr>rc_saving_membership_change_index := None,
                        rc_stabled_membership_change_index := max (rc_stabled_membership_change_index c1) i\<rparr>
                else c1)
      in c2\<lparr>rc_pending_membership_change_index := (if kept = [] then None else Some (last kept))\<rparr>)"

definition reset_pending_membership_change_after_truncation :: "log_index \<Rightarrow> log_index \<Rightarrow> raft_cluster \<Rightarrow> raft_cluster" where
  "reset_pending_membership_change_after_truncation last_retained committed c =
     (let kept = filter (\<lambda>x. x \<le> last_retained) (rc_membership_change_indexes c);
          c1 = c\<lparr>rc_membership_change_indexes := kept\<rparr>;
          c2 = (if (case rc_saving_membership_change_index c1 of Some s \<Rightarrow> last_retained < s | None \<Rightarrow> False)
                then c1\<lparr>rc_saving_membership_change_index := None\<rparr> else c1)
      in c2\<lparr>rc_pending_membership_change_index := find (\<lambda>x. committed < x) (rev kept)\<rparr>)"

section \<open>How far a host may apply, and what the log still serves\<close>

record apply_eligibility =
  el_eligible_through :: log_index
  el_held_back_at :: "log_index option"
  el_commit_index :: log_index
  el_durable_commit_index :: log_index

fun command_scan :: "log_index \<Rightarrow> log_entry list \<Rightarrow> log_index option" where
  "command_scan commit [] = None"
| "command_scan commit (e # es) =
     (if commit < idx e then None
      else if le_is_command e then Some (idx e) else command_scan commit es)"

definition apply_eligible_through :: "node_id \<Rightarrow> log_index \<Rightarrow> raft_cluster \<Rightarrow> apply_eligibility result" where
  "apply_eligible_through i durable c = (case cluster_node c i of
     None \<Rightarrow> Inl (NodeNotFound i)
   | Some n \<Rightarrow>
      (let commit = nd_commit_index n;
           held = (if durable < commit
                   then (case log_position_at_or_after n (sat_add durable 1) of
                           None \<Rightarrow> None | Some start \<Rightarrow> command_scan commit (drop start (nd_log n)))
                   else None)
       in Inr \<lparr>el_eligible_through = (case held of None \<Rightarrow> commit | Some h \<Rightarrow> h - 1),
               el_held_back_at = held, el_commit_index = commit, el_durable_commit_index = durable\<rparr>))"

definition mark_apply_task_inflight :: "node_id \<Rightarrow> log_index \<Rightarrow> raft_cluster \<Rightarrow> (unit, raft_cluster) outcome" where
  "mark_apply_task_inflight i applied c = (case cluster_node c i of
     None \<Rightarrow> (Inl (NodeNotFound i), c)
   | Some n \<Rightarrow>
      (if nd_commit_index n < applied
       then (Inl (InvalidRequest (''inflight applied_index '' @ show_nat applied @ '' exceeds commit index '' @ show_nat (nd_commit_index n))), c)
       else if applied < nd_safety_applied_index n
       then (Inl (InvalidRequest (''inflight applied_index '' @ show_nat applied @ '' is below safety applied index '' @ show_nat (nd_safety_applied_index n))), c)
       else (Inr (), refresh_cluster_indexes
              (modify_node i (\<lambda>n. n\<lparr>nd_applied_index := max (nd_applied_index n) applied,
                                    nd_safety_applied_index := min (nd_safety_applied_index n) (applied - 1)\<rparr>) c))))"

definition mark_apply_task_inflight_with_fence ::
  "node_id \<Rightarrow> log_index \<Rightarrow> log_index \<Rightarrow> raft_cluster \<Rightarrow> (unit, raft_cluster) outcome" where
  "mark_apply_task_inflight_with_fence i applied durable c = (case apply_eligible_through i durable c of
     Inl e \<Rightarrow> (Inl e, c)
   | Inr el \<Rightarrow>
      (if el_eligible_through el < applied
       then (let at = show_nat (case el_held_back_at el of Some h \<Rightarrow> h | None \<Rightarrow> applied)
             in (Inl (InvalidRequest (''applied_index '' @ show_nat applied
                  @ '' is past what is durable: a command entry at '' @ at
                  @ '' needs a durable commit index of at least '' @ at
                  @ '', and the caller said '' @ show_nat durable)), c))
       else mark_apply_task_inflight i applied c))"

record retained_log_range =
  lr_first_log_index :: log_index
  lr_last_log_index :: log_index
  lr_installed_snapshot_index :: log_index

definition range_serves :: "retained_log_range \<Rightarrow> log_index \<Rightarrow> bool" where
  "range_serves r i \<longleftrightarrow> 0 < lr_first_log_index r \<and> lr_first_log_index r \<le> i \<and> i \<le> lr_last_log_index r"

definition cluster_retained_log_range :: "node_id \<Rightarrow> raft_cluster \<Rightarrow> retained_log_range result" where
  "cluster_retained_log_range i c = (case cluster_node c i of
     None \<Rightarrow> Inl (NodeNotFound i)
   | Some n \<Rightarrow> Inr \<lparr>lr_first_log_index = (case nd_log n of [] \<Rightarrow> 0 | e # _ \<Rightarrow> idx e),
                    lr_last_log_index = last_retained_index n,
                    lr_installed_snapshot_index = snapshot_index n\<rparr>)"

definition peer_can_catch_up_from_log :: "node_id \<Rightarrow> raft_cluster \<Rightarrow> bool result" where
  "peer_can_catch_up_from_log i c = (case rc_leader_id c of
     None \<Rightarrow> Inr False
   | Some leader_id \<Rightarrow> (case cluster_node c i of
       None \<Rightarrow> Inl (NodeNotFound i)
     | Some p \<Rightarrow> (case cluster_retained_log_range leader_id c of
         Inl e \<Rightarrow> Inl e
       | Inr r \<Rightarrow> (let next = sat_add (match_index p) 1
                   in Inr (if lr_last_log_index r < next then True else range_serves r next)))))"

definition min_index_any_member_needs :: "node_id \<Rightarrow> raft_cluster \<Rightarrow> log_index result" where
  "min_index_any_member_needs leader_id c = (case cluster_node c leader_id of
     None \<Rightarrow> Inl (NodeNotFound leader_id)
   | Some l \<Rightarrow> Inr (if nd_raft_role l = Leader
       then fold (\<lambda>p lowest. if nd_id p \<noteq> leader_id \<and> can_serve_data (nd_replica_role p)
                             then min lowest (match_index p) else lowest)
              (bt_values (rc_nodes c)) (nd_safety_applied_index l)
       else nd_safety_applied_index l))"

definition min_replicated_index :: "node_id \<Rightarrow> raft_cluster \<Rightarrow> log_index result" where
  "min_replicated_index i c = (case cluster_node c i of
     None \<Rightarrow> Inl (NodeNotFound i)
   | Some n \<Rightarrow> Inr (if nd_raft_role n = Leader
       then fold (\<lambda>p lowest. if nd_id p \<noteq> i \<and> nd_healthy p then min lowest (match_index p) else lowest)
              (bt_values (rc_nodes c)) (nd_safety_applied_index n)
       else nd_safety_applied_index n))"

section \<open>Pipelines of a new leader\<close>

definition entry_pipeline :: "node_id \<Rightarrow> replication_pipeline \<Rightarrow> raft_cluster \<Rightarrow> raft_cluster" where
  "entry_pipeline i fresh c =
     (if bt_contains_key (rc_peer_pipelines c) i then c
      else c\<lparr>rc_peer_pipelines := bt_insert i fresh (rc_peer_pipelines c)\<rparr>)"

definition reset_pipeline_for :: "node_id \<Rightarrow> node_id \<Rightarrow> raft_cluster \<Rightarrow> raft_cluster" where
  "reset_pipeline_for leader_id i c =
     (let next = sat_add (rc_last_log_index c) 1
      in modify_pipeline i (reset_for_leader_transition
             (if i = leader_id then rc_last_log_index c else 0) next
             (if i = leader_id then Replicate else Probe))
           (entry_pipeline i (pipeline_new i next (config_pipeline_limits (rc_config c))) c))"

definition reset_replication_pipelines_for_leader :: "node_id \<Rightarrow> raft_cluster \<Rightarrow> raft_cluster" where
  "reset_replication_pipelines_for_leader leader_id c =
     fold (reset_pipeline_for leader_id) (bt_keys (rc_nodes c)) c"

definition leader_self_response :: "raft_cluster \<Rightarrow> append_entries_response" where
  "leader_self_response c = \<lparr>ar_term = rc_current_term c, ar_success = True,
     ar_match_index = rc_last_log_index c, ar_rejection_hint = None, ar_rejected_index = None,
     ar_require_snapshot = None, ar_snapshot_state = SnapNone, ar_lease_confirmation_epoch = 0,
     ar_lease_duration_ms = 0\<rparr>"

definition refresh_replication_pipelines :: "raft_cluster \<Rightarrow> raft_cluster" where
  "refresh_replication_pipelines c =
     (let c1 = fold (\<lambda>(i, n). entry_pipeline i
                  (pipeline_new i (sat_add (match_index n) 1) (config_pipeline_limits (rc_config c)))) (rc_nodes c) c
      in case rc_leader_id c1 of
           None \<Rightarrow> c1
         | Some leader_id \<Rightarrow> modify_pipeline leader_id (\<lambda>p. snd (handle_append_response (leader_self_response c1) p)) c1)"

end
