(* ===== verification/MR_Election.thy ===== *)
theory MR_Election
  imports MR_Cluster
begin

text \<open>
  Elections of \<^verbatim>\<open>facade/cluster_runtime.rs\<close>: campaigning, pre-votes, vote requests and vote
  responses, and the transition of a candidate to leader. The lemmas are in
  \<open>MR_Election_Safety\<close>.
\<close>

section \<open>Election bookkeeping\<close>

definition clear_election_responses :: "raft_cluster \<Rightarrow> raft_cluster" where
  "clear_election_responses c =
     c\<lparr>rc_vote_responses := [], rc_pre_vote_responses := [], rc_election_responses_term := rc_current_term c\<rparr>"

definition discard_election_responses_from_an_earlier_term :: "raft_cluster \<Rightarrow> raft_cluster" where
  "discard_election_responses_from_an_earlier_term c =
     (if rc_election_responses_term c = rc_current_term c then c else clear_election_responses c)"

definition clear_reorder_queues :: "raft_cluster \<Rightarrow> raft_cluster" where
  "clear_reorder_queues c = c\<lparr>rc_reorder_queues := []\<rparr>"

definition clear_reorder_queue_for :: "node_id \<Rightarrow> raft_cluster \<Rightarrow> raft_cluster" where
  "clear_reorder_queue_for i c = c\<lparr>rc_reorder_queues := bt_remove i (rc_reorder_queues c)\<rparr>"

definition next_log_index :: "raft_cluster \<Rightarrow> log_index result" where
  "next_log_index c = (case checked_succ (rc_last_log_index c) of
     None \<Rightarrow> Inl (InvalidRequest ''the log is already at the largest representable index, so no entry can follow it'')
   | Some i \<Rightarrow> Inr i)"

text \<open>The roles after one node took the lead, won a pre-vote, or nobody leads.\<close>

definition role_under :: "state_role \<Rightarrow> node_id \<Rightarrow> node \<Rightarrow> state_role" where
  "role_under chosen i n =
     (if nd_id n = i then chosen else if nd_replica_role n = LearnerRole then Learner else Follower)"

definition plain_role :: "node \<Rightarrow> state_role" where
  "plain_role n = (if nd_replica_role n = LearnerRole then Learner else Follower)"

definition install_vote :: "state_role \<Rightarrow> node_id \<Rightarrow> raft_term \<Rightarrow> node \<Rightarrow> node" where
  "install_vote chosen i t n =
     n\<lparr>nd_hard_state := (nd_hard_state n)\<lparr>hs_current_term := t, hs_voted_for := Some i\<rparr>,
       nd_raft_role := role_under chosen i n\<rparr>"

definition demote_to_term :: "raft_term \<Rightarrow> node \<Rightarrow> node" where
  "demote_to_term t n =
     n\<lparr>nd_hard_state := (nd_hard_state n)\<lparr>hs_current_term := t, hs_voted_for := None\<rparr>,
       nd_raft_role := plain_role n\<rparr>"

section \<open>Campaigning\<close>

definition noop_entry :: "raft_term \<Rightarrow> log_index \<Rightarrow> log_entry" where
  "noop_entry t i = \<lparr>le_log_id = \<lparr>li_term = t, li_index = i\<rparr>,
     le_payload = [110, 111, 45, 111, 112], le_is_command = False\<rparr>"

definition receive_noop :: "node_id \<Rightarrow> log_entry \<Rightarrow> node \<Rightarrow> node" where
  "receive_noop leader_id e n =
     (if nd_id n = leader_id then append_entry e n
      else if nd_healthy n \<and> sat_add (match_index n) 1 = idx e
      then (if can_serve_data (nd_replica_role n) then append_entry e n
            else if nd_replica_role n = WitnessRole then append_witness_entry e False n else n)
      else n)"

definition broadcast_leader_noop :: "raft_cluster \<Rightarrow> (log_id, raft_cluster) outcome" where
  "broadcast_leader_noop c = (case rc_leader_id c of
     None \<Rightarrow> (Inl NoLeader, c)
   | Some leader_id \<Rightarrow> (case next_log_index c of
       Inl e \<Rightarrow> (Inl e, c)
     | Inr i \<Rightarrow>
        (let e = noop_entry (rc_current_term c) i
         in (Inr (le_log_id e), refresh_cluster_indexes
               (modify_nodes (receive_noop leader_id e) (c\<lparr>rc_last_log_index := i\<rparr>))))))"

definition cannot_become :: "string \<Rightarrow> node_id \<Rightarrow> raft_error" where
  "cannot_become role i = InvalidRequest (''node '' @ show_nat i @ '' cannot become '' @ role)"

definition not_healthy :: "node_id \<Rightarrow> raft_error" where
  "not_healthy i = InvalidRequest (''node '' @ show_nat i @ '' is not healthy'')"

definition campaign :: "node_id \<Rightarrow> bool \<Rightarrow> raft_cluster \<Rightarrow> (unit, raft_cluster) outcome" where
  "campaign i forced c =
     (if \<not> rc_running c \<and> \<not> forced then (Inl (InvalidRequest ''cannot campaign before cluster start''), c)
      else if rc_prohibits_election c \<and> \<not> forced then (Inl (InvalidRequest ''election is prohibited''), c)
      else if is_follower_lease_valid c \<and> \<not> forced
      then (Inl (InvalidRequest ''follower is still in leader lease''), c)
      else case cluster_node c i of
        None \<Rightarrow> (Inl (NodeNotFound i), c)
      | Some n \<Rightarrow>
         (if \<not> can_be_leader (nd_replica_role n) then (Inl (cannot_become ''leader'' i), c)
          else if \<not> nd_healthy n then (Inl (not_healthy i), c)
          else if rc_leader_id c = Some i \<and> nd_raft_role n = Leader then (Inr (), c)
          else case checked_succ (rc_current_term c) of
            None \<Rightarrow> (Inl (InvalidRequest ''cannot campaign: the term is already the largest representable value''), c)
          | Some next_term \<Rightarrow>
             (let c1 = c\<lparr>rc_last_index_before_current_term := rc_last_log_index c, rc_current_term := next_term,
                         rc_leader_id := Some i, rc_vote_responses := [], rc_pre_vote_responses := []\<rparr>;
                  c2 = invalidate_follower_lease (reset_leader_lease_epoch
                         (settle_leader_transfer i (clear_reorder_queues c1)));
                  c3 = modify_nodes (install_vote Leader i (rc_current_term c2)) c2;
                  c4 = snd (refresh_witness_commit_quorum_policy c3);
                  c5 = reset_replication_pipelines_for_leader i c4
              in if rc_running c then (case broadcast_leader_noop c5 of (Inl e, c6) \<Rightarrow> (Inl e, c6) | (Inr _, c6) \<Rightarrow> (Inr (), c6))
                 else (Inr (), c5))))"

record timeout_now_response =
  tn_node_id :: node_id
  tn_from :: node_id
  tn_campaigned :: bool
  tn_term :: raft_term
  tn_leader_id :: "node_id option"
  tn_reason :: string

fun show_role :: "replica_role \<Rightarrow> string" where
  "show_role VoterRole = ''Voter''"
| "show_role LearnerRole = ''Learner''"
| "show_role WitnessRole = ''Witness''"

definition timeout_now :: "node_id \<Rightarrow> node_id \<Rightarrow> raft_cluster \<Rightarrow> (timeout_now_response, raft_cluster) outcome" where
  "timeout_now from target c = (case cluster_node c target of
     None \<Rightarrow> (Inl (NodeNotFound target), c)
   | Some n \<Rightarrow>
      (if nd_raft_role n \<noteq> Follower \<or> \<not> can_be_leader (nd_replica_role n)
       then (Inr \<lparr>tn_node_id = target, tn_from = from, tn_campaigned = False, tn_term = current_term_of n,
                  tn_leader_id = rc_leader_id c,
                  tn_reason = ''timeout_now_ignored_'' @ show_role (nd_replica_role n)\<rparr>, c)
       else (case campaign target True c of
          (Inl e, c') \<Rightarrow> (Inl e, c')
        | (Inr _, c') \<Rightarrow> (Inr \<lparr>tn_node_id = target, tn_from = from, tn_campaigned = True,
             tn_term = rc_current_term c', tn_leader_id = rc_leader_id c', tn_reason = ''timeout_now_campaign''\<rparr>, c'))))"

definition cluster_start :: "raft_cluster \<Rightarrow> (unit, raft_cluster) outcome" where
  "cluster_start c0 =
     (let c = c0\<lparr>rc_running := True\<rparr>
      in if rc_leader_id c \<noteq> None then (Inr (), c)
         else case find (\<lambda>n. can_be_leader (nd_replica_role n) \<and> nd_healthy n) (bt_values (rc_nodes c)) of
           None \<Rightarrow> (Inl (InvalidRequest ''no healthy voter''), c)
         | Some n \<Rightarrow> campaign (nd_id n) True c)"

definition cluster_stop :: "raft_cluster \<Rightarrow> (unit, raft_cluster) outcome" where
  "cluster_stop c = (Inr (), invalidate_leader_lease (c\<lparr>rc_running := False\<rparr>))"

section \<open>Votes\<close>

definition pre_vote :: "node_id \<Rightarrow> raft_cluster \<Rightarrow> vote_response result" where
  "pre_vote i c = (case cluster_node c i of
     None \<Rightarrow> Inl (NodeNotFound i)
   | Some n \<Rightarrow>
      (let refuse = (\<lambda>reason. Inr \<lparr>vr_term = rc_current_term c, vr_vote_granted = False, vr_reason = reason\<rparr>)
       in if rc_prohibits_election c then refuse ''election_prohibited''
          else if \<not> cf_enable_pre_vote (rc_config c) then refuse ''pre_vote_disabled''
          else if \<not> can_be_leader (nd_replica_role n) then refuse ''candidate_cannot_be_leader''
          else if \<not> nd_healthy n then refuse ''candidate_unhealthy''
          else case checked_succ (rc_current_term c) of
            None \<Rightarrow> refuse ''term_exhausted''
          | Some t \<Rightarrow> Inr \<lparr>vr_term = t, vr_vote_granted = True, vr_reason = ''pre_vote_granted''\<rparr>))"

definition observe_vote_request_candidate :: "node_id \<Rightarrow> node_id \<Rightarrow> bool \<Rightarrow> raft_cluster \<Rightarrow> raft_cluster" where
  "observe_vote_request_candidate target candidate_id is_pre_vote c =
     (if (case cluster_node c target of Some n \<Rightarrow> nd_raft_role n = Leader | None \<Rightarrow> False)
      then modify_node candidate_id (\<lambda>n. if can_be_leader (nd_replica_role n)
             then n\<lparr>nd_raft_role := (if is_pre_vote then PreCandidate else Candidate)\<rparr> else n) c
      else c)"

definition refusal :: "raft_term \<Rightarrow> string \<Rightarrow> vote_response" where
  "refusal t reason = \<lparr>vr_term = t, vr_vote_granted = False, vr_reason = reason\<rparr>"

text \<open>Why the candidate of a request is not eligible, if it is not.\<close>

definition candidate_refusal :: "raft_cluster \<Rightarrow> node_id \<Rightarrow> string option" where
  "candidate_refusal c i = (case cluster_node c i of
     None \<Rightarrow> Some ''candidate_not_member''
   | Some n \<Rightarrow> (if \<not> can_be_leader (nd_replica_role n) then Some ''candidate_cannot_be_leader''
                else if \<not> nd_healthy n then Some ''candidate_unhealthy'' else None))"

text \<open>A higher term in a vote request: everybody follows, the target forgets its vote.\<close>

definition adopt_request_term :: "node_id \<Rightarrow> raft_term \<Rightarrow> raft_cluster \<Rightarrow> raft_cluster" where
  "adopt_request_term target t c =
     (if rc_current_term c < t
      then modify_nodes (\<lambda>n. n\<lparr>nd_raft_role := plain_role n\<rparr>)
             (modify_node target (\<lambda>n. n\<lparr>nd_hard_state := (nd_hard_state n)\<lparr>hs_current_term := t, hs_voted_for := None\<rparr>\<rparr>)
               (invalidate_leader_lease (invalidate_follower_lease (clear_reorder_queues
                 (c\<lparr>rc_current_term := t, rc_leader_id := None\<rparr>)))))
      else c)"

text \<open>The part of \<^verbatim>\<open>vote_to\<close> after the term was adopted: the vote of the target itself.\<close>

definition cast_vote :: "node_id \<Rightarrow> vote_request \<Rightarrow> node \<Rightarrow> raft_cluster \<Rightarrow> vote_response \<times> raft_cluster" where
  "cast_vote target q n c =
     (let known_leader = (rc_leader_id c \<noteq> None); hs = nd_hard_state n
      in if known_leader \<and> hs_voted_for hs \<noteq> Some (vq_candidate_id q)
         then (refusal (hs_current_term hs) ''known_leader'', c)
         else if \<not> is_fresh_candidate_log n (vq_last_log_id q)
         then (refusal (max (rc_current_term c) (vq_term q)) ''candidate_log_stale'', c)
         else if vq_term q < hs_current_term hs
         then (refusal (hs_current_term hs) ''stale_term'', c)
         else
          (let newer = (hs_current_term hs < vq_term q);
               hs1 = (if newer then hs\<lparr>hs_current_term := vq_term q, hs_voted_for := None\<rparr> else hs);
               c1 = modify_node target (\<lambda>n. n\<lparr>nd_hard_state := hs1\<rparr>) c
           in if known_leader \<and> hs_voted_for hs1 \<noteq> Some (vq_candidate_id q)
              then (refusal (hs_current_term hs1) ''known_leader'', c1)
              else if hs_voted_for hs1 \<noteq> None \<and> hs_voted_for hs1 \<noteq> Some (vq_candidate_id q)
              then (refusal (hs_current_term hs1) ''already_voted'', c1)
              else
               (let c2 = modify_node target
                      (\<lambda>n. n\<lparr>nd_hard_state := hs1\<lparr>hs_voted_for := Some (vq_candidate_id q)\<rparr>\<rparr>) c1;
                    c3 = (if newer then invalidate_leader_lease (invalidate_follower_lease (clear_reorder_queues c2)) else c2)
                in (\<lparr>vr_term = hs_current_term hs1, vr_vote_granted = True, vr_reason = ''vote_granted''\<rparr>,
                    c3\<lparr>rc_current_term := max (rc_current_term c3) (hs_current_term hs1)\<rparr>))))"

definition vote_to :: "node_id \<Rightarrow> vote_request \<Rightarrow> raft_cluster \<Rightarrow> (vote_response, raft_cluster) outcome" where
  "vote_to target q c =
     (if vq_group_id q \<noteq> rc_group_id c
      then (Inr (refusal (max (rc_current_term c) (vq_term q)) ''group_id_mismatch''), c)
      else case cluster_node c target of
        None \<Rightarrow> (Inl (NodeNotFound target), c)
      | Some n0 \<Rightarrow>
         (if \<not> participates_in_quorum (nd_replica_role n0)
          then (Inr (refusal (max (rc_current_term c) (vq_term q)) ''target_cannot_vote''), c)
          else
           (let c0 = observe_vote_request_candidate target (vq_candidate_id q) (vq_pre_vote q) c
            in case cluster_node c0 target of
                 None \<Rightarrow> (Inl (NodeNotFound target), c0)
               | Some n \<Rightarrow>
                  (let target_term = current_term_of n;
                       in_lease = (target_term < vq_term q \<and> \<not> vq_force q \<and> cf_enable_lease_read (rc_config c0)
                         \<and> (if nd_raft_role n = Leader then rc_leader_lease_valid c0 else is_follower_lease_valid c0))
                   in if in_lease then (Inr (refusal target_term ''in_lease''), c0)
                      else if vq_pre_vote q
                      then (if \<not> cf_enable_pre_vote (rc_config c0) then (Inr (refusal target_term ''pre_vote_disabled''), c0)
                            else case candidate_refusal c0 (vq_candidate_id q) of
                              Some reason \<Rightarrow> (Inr (refusal target_term reason), c0)
                            | None \<Rightarrow>
                               (if vq_term q \<le> target_term then (Inr (refusal target_term ''stale_pre_vote_term''), c0)
                                else if \<not> is_fresh_candidate_log n (vq_last_log_id q)
                                then (Inr (refusal target_term ''candidate_log_stale''), c0)
                                else (Inr \<lparr>vr_term = vq_term q, vr_vote_granted = True, vr_reason = ''pre_vote_granted''\<rparr>, c0)))
                      else (case candidate_refusal c0 (vq_candidate_id q) of
                              Some reason \<Rightarrow> (Inr (refusal (max (rc_current_term c0) (vq_term q)) reason), c0)
                            | None \<Rightarrow>
                               (let c1 = adopt_request_term target (vq_term q) c0
                                in case cluster_node c1 target of
                                     None \<Rightarrow> (Inl (NodeNotFound target), c1)
                                   | Some n1 \<Rightarrow> (case cast_vote target q n1 c1 of (r, c2) \<Rightarrow> (Inr r, c2))))))))"

definition start_vote_after_pre_vote_quorum :: "node_id \<Rightarrow> raft_cluster \<Rightarrow> (unit, raft_cluster) outcome" where
  "start_vote_after_pre_vote_quorum i c = (case cluster_node c i of
     None \<Rightarrow> (Inl (NodeNotFound i), c)
   | Some n \<Rightarrow>
      (if \<not> can_be_leader (nd_replica_role n) then (Inl (cannot_become ''candidate'' i), c)
       else if \<not> nd_healthy n then (Inl (not_healthy i), c)
       else
        (let c1 = c\<lparr>rc_current_term := sat_add (rc_current_term c) 1, rc_leader_id := None,
                    rc_last_index_before_current_term := rc_last_log_index c\<rparr>;
             c2 = invalidate_follower_lease (reset_leader_lease_epoch (clear_reorder_queues (clear_election_responses c1)));
             c3 = modify_nodes (install_vote Candidate i (rc_current_term c2)) c2
         in (Inr (), c3\<lparr>rc_vote_responses := bt_insert i True (rc_vote_responses c3)\<rparr>))))"

end
