(* ===== verification/MR_Append.thy ===== *)
theory MR_Append
  imports MR_Election
begin

text \<open>
  The append handler of \<^verbatim>\<open>facade/cluster_runtime.rs\<close>: who may append, the consistency checks
  against the target's log, the loop over the entries with its treatment of conflicts and of
  membership changes, the cache of appends that arrived early and its replay, and the read index.
  The handler and the replay call each other; the replay takes the number of cached requests as
  fuel, since each round removes one.
\<close>

section \<open>Answers\<close>

definition append_reply :: "raft_term \<Rightarrow> bool \<Rightarrow> log_index \<Rightarrow> log_index option \<Rightarrow> log_index option \<Rightarrow> log_index option
    \<Rightarrow> snapshot_state \<Rightarrow> u64 \<times> u64 \<Rightarrow> append_entries_response" where
  "append_reply t ok matched hint rejected required st lease =
     \<lparr>ar_term = t, ar_success = ok, ar_match_index = matched, ar_rejection_hint = hint, ar_rejected_index = rejected,
      ar_require_snapshot = required, ar_snapshot_state = st, ar_lease_confirmation_epoch = fst lease,
      ar_lease_duration_ms = snd lease\<rparr>"

text \<open>A refusal that points the leader at the entry after the target's last one.\<close>

definition append_refused :: "node \<Rightarrow> raft_term \<Rightarrow> log_index \<Rightarrow> u64 \<times> u64 \<Rightarrow> append_entries_response" where
  "append_refused n t rejected lease = append_reply t False (match_index n) (Some (sat_add (match_index n) 1))
     (Some rejected) (nd_rejected_apply_index n) SnapNone lease"

definition append_accepted :: "node \<Rightarrow> log_index \<Rightarrow> snapshot_state \<Rightarrow> u64 \<times> u64 \<Rightarrow> append_entries_response" where
  "append_accepted n matched st lease =
     append_reply (current_term_of n) True matched None None (nd_rejected_apply_index n) st lease"

definition prev_index :: "append_entries_request \<Rightarrow> log_index" where
  "prev_index q = (case aq_prev_log_id q of Some p \<Rightarrow> li_index p | None \<Rightarrow> 0)"

section \<open>Following the leader of a request\<close>

definition leader_is_eligible :: "raft_cluster \<Rightarrow> node_id \<Rightarrow> bool" where
  "leader_is_eligible c i = (case cluster_node c i of
     Some n \<Rightarrow> can_be_leader (nd_replica_role n) \<and> nd_healthy n | None \<Rightarrow> False)"

definition adopt_append_leader :: "append_entries_request \<Rightarrow> raft_cluster \<Rightarrow> raft_cluster" where
  "adopt_append_leader q c =
     (if rc_current_term c \<le> aq_term q \<and> rc_leader_id c \<noteq> Some (aq_leader_id q)
      then
       (let c1 = (if rc_current_term c < aq_term q
                  then c\<lparr>rc_last_index_before_current_term := rc_last_log_index c\<rparr> else c);
            c2 = clear_reorder_queues (c1\<lparr>rc_current_term := aq_term q, rc_leader_id := Some (aq_leader_id q)\<rparr>);
            c3 = invalidate_follower_lease (reset_leader_lease_epoch (settle_leader_transfer (aq_leader_id q) c2))
        in modify_nodes (\<lambda>n. n\<lparr>nd_raft_role := role_under Leader (aq_leader_id q) n\<rparr>) c3)
      else c)"

definition grant_append_lease :: "node_id \<Rightarrow> append_entries_request \<Rightarrow> raft_cluster \<Rightarrow> (u64 \<times> u64) \<times> raft_cluster" where
  "grant_append_lease target q c =
     (if cf_enable_lease_read (rc_config c) \<and> target \<noteq> aq_leader_id q
      then (let c' = renew_follower_lease_from_append_entries (aq_lease_epoch q) c
            in ((rc_follower_lease_epoch c', cf_leader_lease_ms (rc_config c')), c'))
      else ((0, 0), c))"

definition follow_term :: "raft_term \<Rightarrow> node \<Rightarrow> node" where
  "follow_term t n =
     (if current_term_of n < t
      then n\<lparr>nd_hard_state := (nd_hard_state n)\<lparr>hs_current_term := t\<rparr>, nd_raft_role := plain_role n\<rparr> else n)"

section \<open>Consistency with the target's log\<close>

text \<open>What the previous log id of a request finds: the answer that ends the request, if any.\<close>

definition prev_conflict :: "node \<Rightarrow> log_id \<Rightarrow> u64 \<times> u64 \<Rightarrow> append_entries_response option" where
  "prev_conflict n prev lease =
     (if li_index prev = 0 then None
      else if match_index n < li_index prev
      then Some (append_refused n (current_term_of n) (sat_add (li_index prev) 1) lease)
      else case log_term_at n (li_index prev) of
        Some local_term \<Rightarrow>
          (if local_term = li_term prev then None
           else Some (append_reply (current_term_of n) False (match_index n)
                  (Some (conflict_next_index n (li_index prev))) (Some (sat_add (li_index prev) 1))
                  (nd_rejected_apply_index n) SnapNone lease))
      | None \<Rightarrow>
          Some (append_reply (current_term_of n) False (match_index n) (Some (sat_add (match_index n) 1))
                  (Some (sat_add (li_index prev) 1))
                  (case nd_rejected_apply_index n of Some r \<Rightarrow> Some r
                   | None \<Rightarrow> (if 0 < snapshot_index n \<and> li_index prev < snapshot_index n
                              then Some (snapshot_index n) else None))
                  SnapNone lease))"

text \<open>The first entry whose index does not continue the request.\<close>

fun misplaced_entry :: "log_index \<Rightarrow> nat \<Rightarrow> log_entry list \<Rightarrow> log_entry option" where
  "misplaced_entry prev offset [] = None"
| "misplaced_entry prev offset (e # es) =
     (if idx e \<noteq> wrap_add (wrap_add prev offset) 1 then Some e else misplaced_entry prev (Suc offset) es)"

section \<open>The loop over the entries\<close>

record append_progress =
  ap_node :: node
  ap_pending :: "log_index option"
  ap_last_before :: log_index
  ap_last_retained :: "log_index option"
  ap_count :: u64
  ap_change_indexes :: "log_index list"

definition cut_conflict :: "log_entry \<Rightarrow> append_progress \<Rightarrow> append_progress" where
  "cut_conflict e s =
     (if log_term_at (ap_node s) (idx e) \<noteq> None
      then s\<lparr>ap_node := truncate_log_from (idx e) (ap_node s),
             ap_last_before := min (ap_last_before s) (idx e - 1),
             ap_last_retained := Some (idx e - 1)\<rparr>
      else s)"

text \<open>
  \<open>applied\<close> is the applied index at the start of the loop and \<open>cap\<close> says that the log buffer was
  full then. The result is the entry at which the request is refused, if it is, and the progress.
\<close>

fun append_loop :: "log_index list \<Rightarrow> log_index \<Rightarrow> bool \<Rightarrow> log_entry list \<Rightarrow> append_progress \<Rightarrow> log_entry option \<times> append_progress" where
  "append_loop changes applied cap [] s = (None, s)"
| "append_loop changes applied cap (e # es) s =
     (let n = ap_node s; is_change = (idx e \<in> set changes)
      in if can_serve_data (nd_replica_role n)
         then (if log_term_at n (idx e) = Some (trm e) then append_loop changes applied cap es s
               else
                (let s1 = cut_conflict e s
                 in if is_change \<and> (case ap_pending s1 of Some p \<Rightarrow> applied < p | None \<Rightarrow> False)
                    then (if ap_count s1 = 0 then (Some e, s1) else (None, s1))
                    else
                     (let s2 = (if is_change
                                then s1\<lparr>ap_pending := Some (idx e),
                                        ap_change_indexes := set_insert (idx e) (ap_change_indexes s1)\<rparr>
                                else s1);
                          s3 = s2\<lparr>ap_node := append_entry e (ap_node s2), ap_count := sat_add (ap_count s2) 1\<rparr>
                      in if cap then (None, s3) else append_loop changes applied cap es s3)))
         else if nd_replica_role n = WitnessRole
         then append_loop changes applied cap es
                (s\<lparr>ap_node := append_witness_entry e is_change n, ap_count := sat_add (ap_count s) 1\<rparr>)
         else append_loop changes applied cap es s)"

section \<open>The handler\<close>

text \<open>Either the request is answered, or the target took it and its cached successors are due.\<close>

datatype append_end = Answered "append_entries_response result" | Replay append_entries_response

definition cached_appends :: "node_id \<Rightarrow> raft_cluster \<Rightarrow> reordered_append btree" where
  "cached_appends target c = (case bt_get (rc_reorder_queues c) target of Some q \<Rightarrow> q | None \<Rightarrow> [])"

definition cache_reordered_append :: "node_id \<Rightarrow> append_entries_request \<Rightarrow> log_index list \<Rightarrow> raft_cluster \<Rightarrow> raft_cluster" where
  "cache_reordered_append target q changes c = (case aq_prev_log_id q of
     None \<Rightarrow> c
   | Some prev \<Rightarrow> c\<lparr>rc_reorder_queues := bt_insert target
        (bt_insert (li_index prev) \<lparr>ra_request = q, ra_membership_change_indexes = changes\<rparr> (cached_appends target c))
        (rc_reorder_queues c)\<rparr>)"

definition append_begin :: "append_entries_request \<Rightarrow> raft_cluster \<Rightarrow> node \<Rightarrow> append_progress" where
  "append_begin q c n =
     \<lparr>ap_node = n\<lparr>nd_hard_state := (nd_hard_state n)\<lparr>hs_current_term := aq_term q\<rparr>, nd_raft_role := plain_role n\<rparr>,
      ap_pending = rc_pending_membership_change_index c, ap_last_before = rc_last_index_before_current_term c,
      ap_last_retained = None, ap_count = 0, ap_change_indexes = rc_membership_change_indexes c\<rparr>"

definition append_finish :: "node_id \<Rightarrow> append_entries_request \<Rightarrow> u64 \<times> u64 \<Rightarrow> append_progress \<Rightarrow> raft_cluster
    \<Rightarrow> append_end \<times> raft_cluster" where
  "append_finish target q lease s c =
     (let last_append = sat_add (prev_index q) (length (aq_entries q));
          matched = (if ap_count s = 0 then min (match_index (ap_node s)) last_append else match_index (ap_node s));
          n = advance_commit (min (aq_leader_commit q) matched) (ap_node s);
          c1 = (modify_node target (\<lambda>_. n) c)\<lparr>rc_membership_change_indexes := ap_change_indexes s,
                 rc_last_index_before_current_term := ap_last_before s, rc_pending_membership_change_index := ap_pending s\<rparr>;
          c2 = (case ap_last_retained s of
                  Some last_retained \<Rightarrow> clear_reorder_queue_for target
                    (reset_pending_membership_change_after_truncation last_retained (nd_commit_index n) c1)
                | None \<Rightarrow> c1)
      in (Replay (append_accepted n matched SnapNone lease), refresh_cluster_indexes c2))"

text \<open>The target's part: \<open>n\<close> is the target once it follows the term of the request.\<close>

definition append_to_node :: "node_id \<Rightarrow> append_entries_request \<Rightarrow> log_index list \<Rightarrow> u64 \<times> u64 \<Rightarrow> node \<Rightarrow> raft_cluster
    \<Rightarrow> append_end \<times> raft_cluster" where
  "append_to_node target q changes lease n c =
     (let answered = (\<lambda>r. Answered (Inr r))
      in if (case bt_get (rc_peer_pipelines c) target of
               Some p \<Rightarrow> pp_snapshot_installing (rp_status p) | None \<Rightarrow> False)
         then (answered (append_accepted n (nd_commit_index n) SnapReceiving lease), c)
         else if aq_prev_log_id q = None \<and> aq_entries q = []
         then (let m = advance_commit (min (aq_leader_commit q) (match_index n)) n
               in (answered (append_accepted m (match_index n) SnapNone lease),
                   refresh_cluster_indexes (modify_node target (\<lambda>_. m) c)))
         else if prev_index q < nd_commit_index n
         then (answered (append_accepted n (nd_commit_index n) SnapNone lease), c)
         else case Option.bind (aq_prev_log_id q) (\<lambda>prev. prev_conflict n prev lease) of
           Some r \<Rightarrow> (answered r, if match_index n < prev_index q \<and> aq_entries q \<noteq> []
                                  then cache_reordered_append target q changes c else c)
         | None \<Rightarrow> (case misplaced_entry (prev_index q) 0 (aq_entries q) of
             Some e \<Rightarrow> (answered (append_refused n (current_term_of n) (idx e) lease), c)
           | None \<Rightarrow>
              (let s0 = append_begin q c n;
                   cap = can_serve_data (nd_replica_role n) \<and> aq_entries q \<noteq> []
                           \<and> cf_max_log_buffer_bytes (rc_config c) \<le> nd_retained_log_bytes n
               in case append_loop changes (nd_safety_applied_index n) cap (aq_entries q) s0 of
                    (Some e, s) \<Rightarrow>
                      (answered (append_reply (current_term_of (ap_node s)) False (match_index (ap_node s))
                         (Some (sat_add (min (match_index (ap_node s)) (idx e - 1)) 1)) (Some (idx e))
                         (nd_rejected_apply_index (ap_node s)) SnapNone lease),
                       modify_node target (\<lambda>_. ap_node s) c)
                  | (None, s) \<Rightarrow> append_finish target q lease s c)))"

definition append_core :: "node_id \<Rightarrow> append_entries_request \<Rightarrow> log_index list \<Rightarrow> raft_cluster \<Rightarrow> append_end \<times> raft_cluster" where
  "append_core target q changes c =
     (if aq_group_id q \<noteq> rc_group_id c
      then (Answered (Inl (InvalidRequest ''append entries group id mismatch'')), c)
      else if \<not> leader_is_eligible c (aq_leader_id q) \<or> aq_term q < rc_current_term c
      then (case cluster_node c target of
              None \<Rightarrow> (Answered (Inl (NodeNotFound target)), c)
            | Some n \<Rightarrow> (Answered (Inr (append_refused n
                (if leader_is_eligible c (aq_leader_id q) then rc_current_term c
                 else max (current_term_of n) (rc_current_term c)) (prev_index q) (0, 0))), c))
      else
       (case grant_append_lease target q (adopt_append_leader q c) of (lease, c1) \<Rightarrow>
         (case cluster_node c1 target of
            None \<Rightarrow> (Answered (Inl (NodeNotFound target)), c1)
          | Some n \<Rightarrow>
             (if aq_term q < current_term_of n
              then (Answered (Inr (append_refused n (current_term_of n) (prev_index q) (0, 0))), c1)
              else append_to_node target q changes lease (follow_term (aq_term q) n)
                     (modify_node target (follow_term (aq_term q)) c1)))))"

section \<open>Replay of early appends\<close>

definition next_reordered :: "node_id \<Rightarrow> log_index \<Rightarrow> raft_cluster \<Rightarrow> (log_index \<times> reordered_append) option" where
  "next_reordered target matched c = (case cached_appends target c of
     [] \<Rightarrow> None | (k, r) # _ \<Rightarrow> (if k \<le> matched then Some (k, r) else None))"

definition remove_reordered :: "node_id \<Rightarrow> log_index \<Rightarrow> raft_cluster \<Rightarrow> raft_cluster" where
  "remove_reordered target k c = c\<lparr>rc_reorder_queues := bt_modify target (bt_remove k) (rc_reorder_queues c)\<rparr>"

definition tidy_reorder_queue :: "node_id \<Rightarrow> raft_cluster \<Rightarrow> raft_cluster" where
  "tidy_reorder_queue target c =
     (if bt_get (rc_reorder_queues c) target = Some [] then clear_reorder_queue_for target c else c)"

fun drain_reordered_appends :: "nat \<Rightarrow> node_id \<Rightarrow> raft_cluster \<Rightarrow> (unit, raft_cluster) outcome" where
  "drain_reordered_appends fuel target c = (case cluster_node c target of
     None \<Rightarrow> (Inl (NodeNotFound target), c)
   | Some n \<Rightarrow> (case (next_reordered target (match_index n) c, fuel) of
       (Some (k, r), Suc f) \<Rightarrow>
         (case append_core target (ra_request r) (ra_membership_change_indexes r) (remove_reordered target k c) of
            (Answered (Inl e), c1) \<Rightarrow> (Inl e, c1)
          | (Answered (Inr response), c1) \<Rightarrow>
              (if ar_success response then drain_reordered_appends f target c1
               else (Inr (), tidy_reorder_queue target c1))
          | (Replay response, c1) \<Rightarrow>
              (case drain_reordered_appends f target c1 of
                 (Inl e, c2) \<Rightarrow> (Inl e, c2)
               | (Inr _, c2) \<Rightarrow> drain_reordered_appends f target c2))
     | _ \<Rightarrow> (Inr (), tidy_reorder_queue target c)))"

declare drain_reordered_appends.simps [simp del]

definition append_entries_with_membership_change_indexes_to :: "node_id \<Rightarrow> append_entries_request \<Rightarrow> log_index list
    \<Rightarrow> raft_cluster \<Rightarrow> (append_entries_response, raft_cluster) outcome" where
  "append_entries_with_membership_change_indexes_to target q changes c = (case append_core target q changes c of
     (Answered r, c1) \<Rightarrow> (r, c1)
   | (Replay response, c1) \<Rightarrow>
       (case drain_reordered_appends (length (cached_appends target c1)) target c1 of
          (Inl e, c2) \<Rightarrow> (Inl e, c2) | (Inr _, c2) \<Rightarrow> (Inr response, c2)))"

definition append_entries_to :: "node_id \<Rightarrow> append_entries_request \<Rightarrow> raft_cluster \<Rightarrow> (append_entries_response, raft_cluster) outcome" where
  "append_entries_to target q c = append_entries_with_membership_change_indexes_to target q [] c"

section \<open>Read index\<close>

record read_index_request =
  rq_group_id :: group_id
  rq_requester_id :: node_id
  rq_min_commit_index :: log_index
  rq_allow_lease_read :: bool

record read_index_response =
  rr_safe :: bool
  rr_read_index :: log_index
  rr_lease_read :: bool
  rr_reason :: string

definition read_index :: "read_index_request \<Rightarrow> raft_cluster \<Rightarrow> read_index_response result" where
  "read_index q c = (case require_running ''read'' c of
     Inl e \<Rightarrow> Inl e
   | Inr _ \<Rightarrow>
      (if rq_group_id q \<noteq> rc_group_id c then Inl (InvalidRequest ''read index group id mismatch'')
       else case cluster_node c (rq_requester_id q) of
         None \<Rightarrow> Inl (NodeNotFound (rq_requester_id q))
       | Some n \<Rightarrow>
          (let unsafe = (\<lambda>i reason. Inr \<lparr>rr_safe = False, rr_read_index = i, rr_lease_read = False, rr_reason = reason\<rparr>);
               lease_read = (rq_allow_lease_read q \<and> cf_enable_lease_read (rc_config c) \<and> rc_leader_lease_valid c);
               target = max (nd_commit_index n) (sat_add (rc_last_index_before_current_term c) 1)
           in if \<not> nd_healthy n then unsafe (nd_commit_index n) ''node_unhealthy''
              else if rc_leader_id c \<noteq> Some (rq_requester_id q) then unsafe (nd_commit_index n) ''not_leader''
              else if \<not> has_live_quorum c \<and> \<not> lease_read then unsafe (nd_commit_index n) ''no_live_quorum''
              else if nd_safety_applied_index n < rq_min_commit_index q
              then unsafe (nd_commit_index n) ''applied_index_behind_min_commit''
              else if nd_safety_applied_index n < target then unsafe target ''applied_index_behind_read_index''
              else Inr \<lparr>rr_safe = True, rr_read_index = target, rr_lease_read = lease_read,
                        rr_reason = (if lease_read then ''lease_read'' else ''read_index'')\<rparr>)))"

end
