(* ===== verification/MR_Election_Safety.thy ===== *)
theory MR_Election_Safety
  imports MR_Election
begin

text \<open>
  What a vote request does: the ends it can have, what it leaves of the other nodes, what a
  granted vote means, and that a pre-vote disturbs nobody. That no voter grants two candidates the same term is proved later, for runs
  in which vote requests, appends and campaigns are interleaved.
\<close>

section \<open>Nodes of an updated cluster\<close>

lemma cluster_node_modify_node [simp]:
  "cluster_node (modify_node i f c) j = map_option (\<lambda>n. if j = i then f n else n) (cluster_node c j)"
  by (auto simp: modify_node_def bt_get_modify option.map_ident)

lemma cluster_node_modify_nodes [simp]:
  "cluster_node (modify_nodes f c) j = map_option f (cluster_node c j)"
  by (simp add: modify_nodes_def bt_get_map_values)

lemma modify_frame [simp]:
  "rc_current_term (modify_node i f c) = rc_current_term c" "rc_current_term (modify_nodes f c) = rc_current_term c"
  "rc_leader_id (modify_node i f c) = rc_leader_id c" "rc_leader_id (modify_nodes f c) = rc_leader_id c"
  "rc_config (modify_node i f c) = rc_config c" "rc_config (modify_nodes f c) = rc_config c"
  by (simp_all add: modify_node_def modify_nodes_def)

lemma lease_frame [simp]:
  "rc_nodes (invalidate_leader_lease c) = rc_nodes c" "rc_nodes (invalidate_follower_lease c) = rc_nodes c"
  "rc_nodes (clear_reorder_queues c) = rc_nodes c" "rc_nodes (reset_leader_lease_epoch c) = rc_nodes c"
  "rc_nodes (clear_election_responses c) = rc_nodes c"
  "rc_current_term (invalidate_leader_lease c) = rc_current_term c"
  "rc_current_term (invalidate_follower_lease c) = rc_current_term c"
  "rc_current_term (clear_reorder_queues c) = rc_current_term c"
  "rc_current_term (reset_leader_lease_epoch c) = rc_current_term c"
  "rc_current_term (clear_election_responses c) = rc_current_term c"
  "rc_leader_id (invalidate_leader_lease c) = rc_leader_id c"
  "rc_leader_id (invalidate_follower_lease c) = rc_leader_id c"
  "rc_leader_id (clear_reorder_queues c) = rc_leader_id c"
  by (simp_all add: invalidate_leader_lease_def invalidate_follower_lease_def clear_reorder_queues_def
      reset_leader_lease_epoch_def clear_election_responses_def)

section \<open>The ends of a vote request\<close>

definition terms_bounded :: "raft_cluster \<Rightarrow> bool" where
  "terms_bounded c \<longleftrightarrow> (\<forall>i n. cluster_node c i = Some n \<longrightarrow> current_term_of n \<le> rc_current_term c)"

lemma observe_frame [simp]:
  "rc_current_term (observe_vote_request_candidate t i pv c) = rc_current_term c"
  "rc_config (observe_vote_request_candidate t i pv c) = rc_config c"
  by (simp_all add: observe_vote_request_candidate_def)

lemma observe_terms: "terms_bounded c \<Longrightarrow> terms_bounded (observe_vote_request_candidate t i pv c)"
  by (auto simp: terms_bounded_def observe_vote_request_candidate_def split: if_splits)

text \<open>The three ends of a vote: refused at once, refused after the term moved, granted.\<close>

definition vote_state :: "vote_request \<Rightarrow> hard_state \<Rightarrow> hard_state" where
  "vote_state q hs = (if hs_current_term hs < vq_term q then hs\<lparr>hs_current_term := vq_term q, hs_voted_for := None\<rparr> else hs)"

definition granted_cluster :: "node_id \<Rightarrow> vote_request \<Rightarrow> node \<Rightarrow> raft_cluster \<Rightarrow> raft_cluster" where
  "granted_cluster t q n c =
     (let c1 = modify_node t (\<lambda>m. m\<lparr>nd_hard_state := (vote_state q (nd_hard_state n))\<lparr>hs_voted_for := Some (vq_candidate_id q)\<rparr>\<rparr>)
                 (modify_node t (\<lambda>m. m\<lparr>nd_hard_state := vote_state q (nd_hard_state n)\<rparr>) c);
          c2 = (if current_term_of n < vq_term q
                then invalidate_leader_lease (invalidate_follower_lease (clear_reorder_queues c1)) else c1)
      in c2\<lparr>rc_current_term := max (rc_current_term c2) (hs_current_term (vote_state q (nd_hard_state n)))\<rparr>)"

lemma cast_vote_cases:
  obtains (kept) r where "cast_vote t q n c = (r, c)" "\<not> vr_vote_granted r"
  | (moved) r where "cast_vote t q n c = (r, modify_node t (\<lambda>m. m\<lparr>nd_hard_state := vote_state q (nd_hard_state n)\<rparr>) c)"
      "\<not> vr_vote_granted r" "current_term_of n \<le> vq_term q"
  | (granted) r where "cast_vote t q n c = (r, granted_cluster t q n c)" "vr_vote_granted r"
      "vr_term r = hs_current_term (vote_state q (nd_hard_state n))"
      "is_fresh_candidate_log n (vq_last_log_id q)" "current_term_of n \<le> vq_term q"
      "hs_voted_for (vote_state q (nd_hard_state n)) \<in> {None, Some (vq_candidate_id q)}"
proof -
  let ?hs = "nd_hard_state n" and ?known = "rc_leader_id c \<noteq> None" and ?cand = "Some (vq_candidate_id q)"
  let ?hs1 = "vote_state q ?hs"
  note d = cast_vote_def Let_def vote_state_def [symmetric] refusal_def
  consider (a) "?known \<and> hs_voted_for ?hs \<noteq> ?cand \<or> \<not> is_fresh_candidate_log n (vq_last_log_id q)
      \<or> vq_term q < hs_current_term ?hs"
    | (b) "\<not> (?known \<and> hs_voted_for ?hs \<noteq> ?cand)" "is_fresh_candidate_log n (vq_last_log_id q)"
      "hs_current_term ?hs \<le> vq_term q"
      "?known \<and> hs_voted_for ?hs1 \<noteq> ?cand \<or> hs_voted_for ?hs1 \<noteq> None \<and> hs_voted_for ?hs1 \<noteq> ?cand"
    | (c) "\<not> (?known \<and> hs_voted_for ?hs \<noteq> ?cand)" "is_fresh_candidate_log n (vq_last_log_id q)"
      "hs_current_term ?hs \<le> vq_term q" "\<not> (?known \<and> hs_voted_for ?hs1 \<noteq> ?cand)"
      "hs_voted_for ?hs1 \<in> {None, ?cand}"
    unfolding insert_iff empty_iff not_le [symmetric] by argo
  then show ?thesis
  proof cases
    case a
    then have "snd (cast_vote t q n c) = c" "\<not> vr_vote_granted (fst (cast_vote t q n c))"
      unfolding d by auto
    then show ?thesis by (metis kept prod.collapse)
  next
    case b
    then have "snd (cast_vote t q n c) = modify_node t (\<lambda>m. m\<lparr>nd_hard_state := ?hs1\<rparr>) c"
      "\<not> vr_vote_granted (fst (cast_vote t q n c))"
      unfolding d by (auto simp: not_less)
    then show ?thesis using b(3) by (metis moved prod.collapse)
  next
    case c
    then have "snd (cast_vote t q n c) = granted_cluster t q n c" "vr_vote_granted (fst (cast_vote t q n c))"
      "vr_term (fst (cast_vote t q n c)) = hs_current_term ?hs1"
      unfolding d granted_cluster_def by (auto simp: not_less)
    then show ?thesis using c by (metis granted prod.collapse)
  qed
qed

lemma vote_state_term: "current_term_of n \<le> vq_term q \<Longrightarrow> hs_current_term (vote_state q (nd_hard_state n)) = vq_term q"
  by (simp add: vote_state_def)

lemma granted_cluster_node:
  "cluster_node (granted_cluster t q n c) j = (if j = t
     then map_option (\<lambda>m. m\<lparr>nd_hard_state := (vote_state q (nd_hard_state n))\<lparr>hs_voted_for := Some (vq_candidate_id q)\<rparr>\<rparr>) (cluster_node c t)
     else cluster_node c j)"
  by (auto simp: granted_cluster_def Let_def option.map_comp comp_def option.map_ident)

lemma granted_cluster_term:
  "rc_current_term (granted_cluster t q n c) = max (rc_current_term c) (hs_current_term (vote_state q (nd_hard_state n)))"
  by (simp add: granted_cluster_def Let_def)

text \<open>
  A vote request either leaves the hard states alone (and then grants at most a pre-vote), or
  goes through adoption of the term and the vote of the target.
\<close>

lemma adopt_present [simp]: "cluster_node (adopt_request_term t x c) i = None \<longleftrightarrow> cluster_node c i = None"
  by (simp add: adopt_request_term_def)

lemma vote_to_cases:
  assumes "vote_to t q c = (r, c')"
  defines "c0 \<equiv> observe_vote_request_candidate t (vq_candidate_id q) (vq_pre_vote q) c"
  obtains (idle) "c' = c \<or> c' = c0" "\<And>v. r = Inr v \<Longrightarrow> vr_vote_granted v \<Longrightarrow> vq_pre_vote q"
  | (cast) n0 n1 v where "cluster_node c t = Some n0" "participates_in_quorum (nd_replica_role n0)"
      "\<not> vq_pre_vote q" "candidate_refusal c0 (vq_candidate_id q) = None"
      "cluster_node (adopt_request_term t (vq_term q) c0) t = Some n1"
      "cast_vote t q n1 (adopt_request_term t (vq_term q) c0) = (v, c')" "r = Inr v"
  using assms unfolding vote_to_def Let_def
  by (auto simp: refusal_def split: if_splits option.splits prod.splits)

lemma adopt_term_le: "vq_term q \<le> rc_current_term (adopt_request_term t (vq_term q) c)"
  by (simp add: adopt_request_term_def)

lemma vote_to_granted:
  assumes "vote_to t q c = (Inr r, c')" "vr_vote_granted r" "\<not> vq_pre_vote q"
  shows "\<exists>n. cluster_node c' t = Some n \<and> current_term_of n = vq_term q
    \<and> hs_voted_for (nd_hard_state n) = Some (vq_candidate_id q)"
proof (cases rule: vote_to_cases [OF assms(1)])
  case 1
  then show ?thesis using assms by auto
next
  case (2 n0 n1 v)
  show ?thesis
  proof (cases rule: cast_vote_cases [of t q n1 "adopt_request_term t (vq_term q)
      (observe_vote_request_candidate t (vq_candidate_id q) (vq_pre_vote q) c)"])
    case (granted r')
    then show ?thesis using 2 by (auto simp: granted_cluster_node vote_state_term)
  qed (use 2 assms in auto)
qed

lemma cast_vote_granted:
  assumes "cast_vote t q n c = (r, c')" "vr_vote_granted r"
  shows "is_fresh_candidate_log n (vq_last_log_id q) \<and> current_term_of n \<le> vq_term q \<and> vr_term r = vq_term q
    \<and> vq_term q \<le> rc_current_term c'"
proof (cases rule: cast_vote_cases [of t q n c])
  case (kept r')
  then show ?thesis using assms by simp
next
  case (moved r')
  then have "r' = r" using assms(1) by simp
  then show ?thesis using moved(2) assms(2) by simp
next
  case (granted r')
  have e: "r' = r" "c' = granted_cluster t q n c" using assms(1) granted(1) by simp_all
  have "current_term_of n \<le> vq_term q" by (fact granted)
  then show ?thesis using granted(3,4) by (simp add: vote_state_term granted_cluster_term e)
qed

text \<open>The steps before the vote itself leave log, snapshot, role in the group and health alone.\<close>

definition same_replica :: "node \<Rightarrow> node \<Rightarrow> bool" where
  "same_replica n n' \<longleftrightarrow> nd_replica_role n' = nd_replica_role n \<and> nd_log n' = nd_log n
     \<and> nd_installed_snapshot n' = nd_installed_snapshot n \<and> nd_witness_ack_index n' = nd_witness_ack_index n"

lemma same_replica_reads:
  assumes "same_replica n n'"
  shows "match_index n' = match_index n" "log_term_at n' i = log_term_at n i"
proof -
  note eqs = assms [unfolded same_replica_def, THEN conjunct1] assms [unfolded same_replica_def, THEN conjunct2, THEN conjunct1]
    assms [unfolded same_replica_def, THEN conjunct2, THEN conjunct2, THEN conjunct1]
    assms [unfolded same_replica_def, THEN conjunct2, THEN conjunct2, THEN conjunct2]
  have p: "log_position n' i = log_position n i" unfolding log_position_def eqs by (rule refl)
  show "match_index n' = match_index n"
    unfolding match_index_def last_retained_index_def snapshot_index_def eqs by (rule refl)
  show "log_term_at n' i = log_term_at n i"
    unfolding log_term_at_def p eqs by (rule refl)
qed

lemma same_replica_fresh: "same_replica n n' \<Longrightarrow> is_fresh_candidate_log n' x = is_fresh_candidate_log n x"
  by (simp add: is_fresh_candidate_log_def same_replica_reads)

lemma observe_node:
  "cluster_node (observe_vote_request_candidate t i pv c) j = Some m \<Longrightarrow>
     \<exists>n. cluster_node c j = Some n \<and> same_replica n m \<and> nd_healthy m = nd_healthy n \<and> nd_hard_state m = nd_hard_state n"
  by (auto simp: observe_vote_request_candidate_def same_replica_def split: if_splits)

lemma candidate_refusal_observe:
  assumes "candidate_refusal (observe_vote_request_candidate t i pv c) j = None"
  obtains k where "cluster_node c j = Some k" "can_be_leader (nd_replica_role k)" "nd_healthy k"
proof (cases "cluster_node (observe_vote_request_candidate t i pv c) j")
  case (Some m)
  then show ?thesis using assms observe_node [OF Some] that
    by (auto simp: candidate_refusal_def same_replica_def split: if_splits)
qed (use assms in \<open>simp add: candidate_refusal_def\<close>)

lemma adopt_node:
  assumes "cluster_node (adopt_request_term t x c) t = Some n'" "terms_bounded c"
  shows "\<exists>n. cluster_node c t = Some n \<and> same_replica n n' \<and> current_term_of n \<le> current_term_of n'"
proof (cases "rc_current_term c < x")
  case True
  then show ?thesis using assms
    by (auto simp: adopt_request_term_def same_replica_def terms_bounded_def) (meson le_trans less_imp_le)
qed (use assms in \<open>simp add: adopt_request_term_def same_replica_def\<close>)

lemma vote_prologue_node:
  assumes "cluster_node c t = Some n" "terms_bounded c"
    "cluster_node (adopt_request_term t x (observe_vote_request_candidate t i pv c)) t = Some n'"
  shows "same_replica n n'" "current_term_of n \<le> current_term_of n'"
proof -
  obtain m where m: "cluster_node (observe_vote_request_candidate t i pv c) t = Some m" "same_replica m n'"
    "current_term_of m \<le> current_term_of n'"
    using adopt_node [OF assms(3) observe_terms [OF assms(2)]] by blast
  show "same_replica n n'" "current_term_of n \<le> current_term_of n'"
    using observe_node [OF m(1)] m(2,3) assms(1) by (auto simp: same_replica_def)
qed

text \<open>The lease that binds a voter: a leader asked by another replica has its own, everybody else the one granted.\<close>

definition bound_by_lease :: "node_id \<Rightarrow> node_id \<Rightarrow> node \<Rightarrow> raft_cluster \<Rightarrow> bool" where
  "bound_by_lease t candidate n c \<longleftrightarrow>
     (if nd_raft_role n = Leader \<and> candidate \<noteq> t then rc_leader_lease_valid c else is_follower_lease_valid c)"

lemma observe_lease [simp]:
  "rc_leader_lease_valid (observe_vote_request_candidate t i pv c) = rc_leader_lease_valid c"
  "is_follower_lease_valid (observe_vote_request_candidate t i pv c) = is_follower_lease_valid c"
  by (simp_all add: observe_vote_request_candidate_def modify_node_def is_follower_lease_valid_def)

lemma observe_target:
  assumes "cluster_node c t = Some n"
  shows "cluster_node (observe_vote_request_candidate t i pv c) t = Some (if nd_raft_role n = Leader \<and> i = t \<and> can_be_leader (nd_replica_role n)
    then n\<lparr>nd_raft_role := (if pv then PreCandidate else Candidate)\<rparr> else n)"
  using assms by (simp add: observe_vote_request_candidate_def)

lemma vote_to_not_in_lease:
  assumes "vote_to t q c = (Inr r, c')" "vr_vote_granted r" "cluster_node c t = Some n" "\<not> vq_pre_vote q"
  shows "current_term_of n < vq_term q \<and> \<not> vq_force q \<and> cf_enable_lease_read (rc_config c)
    \<longrightarrow> \<not> bound_by_lease t (vq_candidate_id q) n c"
proof (rule ccontr)
  let ?c0 = "observe_vote_request_candidate t (vq_candidate_id q) (vq_pre_vote q) c"
  assume a: "\<not> ?thesis"
  have "\<not> vr_vote_granted v" if "fst (vote_to t q c) = Inr v" for v
  proof (cases "nd_raft_role n = Leader \<and> vq_candidate_id q = t \<and> \<not> can_be_leader (nd_replica_role n)")
    case True
    then have "candidate_refusal ?c0 (vq_candidate_id q) = Some ''candidate_cannot_be_leader''"
      using observe_target [OF assms(3), of "vq_candidate_id q" "vq_pre_vote q"] by (simp add: candidate_refusal_def)
    then show ?thesis using that observe_target [OF assms(3), of "vq_candidate_id q" "vq_pre_vote q"] assms(3,4)
      by (auto simp: vote_to_def Let_def refusal_def split: if_splits)
  next
    case False
    then show ?thesis using that a observe_target [OF assms(3), of "vq_candidate_id q" "vq_pre_vote q"] assms(3)
      by (auto simp: vote_to_def Let_def refusal_def bound_by_lease_def split: if_splits)
  qed
  then show False using assms(1,2) by simp
qed

text \<open>A vote already cast in the term of the request was for the candidate of the request.\<close>

lemma vote_to_not_voted:
  assumes "terms_bounded c" "vote_to t q c = (Inr r, c')" "vr_vote_granted r" "cluster_node c t = Some n" "\<not> vq_pre_vote q"
    and eq: "current_term_of n = vq_term q"
  shows "hs_voted_for (nd_hard_state n) \<in> {None, Some (vq_candidate_id q)}"
proof -
  let ?c0 = "observe_vote_request_candidate t (vq_candidate_id q) False c"
  have "\<not> rc_current_term ?c0 < vq_term q" using assms(1,4) eq by (fastforce simp: terms_bounded_def not_less)
  then have adopt: "adopt_request_term t (vq_term q) ?c0 = ?c0" by (simp add: adopt_request_term_def)
  obtain n1 where n1: "cluster_node ?c0 t = Some n1" and cast: "cast_vote t q n1 ?c0 = (r, c')"
    using assms(2,3,5) by (cases rule: vote_to_cases [OF assms(2)]) (auto simp: adopt)
  have hs: "nd_hard_state n1 = nd_hard_state n" using observe_target [OF assms(4)] n1 by (auto split: if_splits)
  show ?thesis
  proof (cases rule: cast_vote_cases [of t q n1 ?c0])
    case (granted r')
    then show ?thesis using eq hs by (simp add: vote_state_def)
  qed (use cast assms(3) in auto)
qed

text \<open>Observing the candidate changes its raft role only, and so neither its eligibility nor the freshness of a log.\<close>

lemma observe_eligibility [simp]:
  "candidate_refusal (observe_vote_request_candidate t i pv c) j = candidate_refusal c j"
  "rc_config (observe_vote_request_candidate t i pv c) = rc_config c"
  "rc_leader_id (observe_vote_request_candidate t i pv c) = rc_leader_id c"
  by (auto simp: observe_vote_request_candidate_def modify_node_def candidate_refusal_def split: option.split)

lemma candidate_refusal_None:
  "candidate_refusal c i = None \<longleftrightarrow> (\<exists>k. cluster_node c i = Some k \<and> can_be_leader (nd_replica_role k) \<and> nd_healthy k)"
  by (auto simp: candidate_refusal_def split: option.split if_splits)

lemma fresh_raft_role [simp]: "is_fresh_candidate_log (n\<lparr>nd_raft_role := r\<rparr>) x = is_fresh_candidate_log n x"
  by (rule same_replica_fresh) (simp add: same_replica_def)

lemma pre_vote_granted:
  assumes "vote_to t q c = (Inr r, c')" "vq_pre_vote q" "vq_group_id q = rc_group_id c" "cluster_node c t = Some n"
    "participates_in_quorum (nd_replica_role n)"
  shows "vr_vote_granted r \<longleftrightarrow> cf_enable_pre_vote (rc_config c) \<and> candidate_refusal c (vq_candidate_id q) = None
    \<and> current_term_of n < vq_term q \<and> is_fresh_candidate_log n (vq_last_log_id q)
    \<and> \<not> (\<not> vq_force q \<and> cf_enable_lease_read (rc_config c) \<and> bound_by_lease t (vq_candidate_id q) n c)"
proof -
  let ?lead = "nd_raft_role n = Leader \<and> vq_candidate_id q = t \<and> can_be_leader (nd_replica_role n)"
  define m where "m = (if ?lead then n\<lparr>nd_raft_role := PreCandidate\<rparr> else n)"
  have m: "cluster_node (observe_vote_request_candidate t (vq_candidate_id q) True c) t = Some m"
    using observe_target [OF assms(4), of "vq_candidate_id q" True] by (simp add: m_def)
  have view: "current_term_of m = current_term_of n" "is_fresh_candidate_log m x = is_fresh_candidate_log n x" for x
    by (simp_all add: m_def)
  have bound: "(if nd_raft_role m = Leader then rc_leader_lease_valid c else is_follower_lease_valid c) = bound_by_lease t (vq_candidate_id q) n c"
    if "candidate_refusal c (vq_candidate_id q) = None"
    using that assms(4) by (auto simp: m_def bound_by_lease_def candidate_refusal_None)
  define lease where "lease \<longleftrightarrow> current_term_of m < vq_term q \<and> \<not> vq_force q \<and> cf_enable_lease_read (rc_config c)
    \<and> (if nd_raft_role m = Leader then rc_leader_lease_valid c else is_follower_lease_valid c)"
  have "Inr r = (if lease then Inr (refusal (current_term_of m) ''in_lease'')
      else if \<not> cf_enable_pre_vote (rc_config c) then Inr (refusal (current_term_of m) ''pre_vote_disabled'')
      else case candidate_refusal c (vq_candidate_id q) of
        Some reason \<Rightarrow> Inr (refusal (current_term_of m) reason)
      | None \<Rightarrow> (if vq_term q \<le> current_term_of m then Inr (refusal (current_term_of m) ''stale_pre_vote_term'')
          else if \<not> is_fresh_candidate_log m (vq_last_log_id q) then Inr (refusal (current_term_of m) ''candidate_log_stale'')
          else (Inr \<lparr>vr_term = vq_term q, vr_vote_granted = True, vr_reason = ''pre_vote_granted''\<rparr> :: vote_response result)))"
    using arg_cong [OF assms(1), of fst] m assms(2-5) unfolding lease_def
    by (cases "candidate_refusal c (vq_candidate_id q)") (simp_all add: vote_to_def Let_def if_distrib [of fst] cong: if_cong)
  then show ?thesis
    using bound unfolding view
    by (cases "candidate_refusal c (vq_candidate_id q)") (auto simp: lease_def view refusal_def split: if_splits)
qed

lemma observe_pre_candidate:
  "cluster_node (observe_vote_request_candidate t i True c) j = cluster_node c j
   \<or> (j = i \<and> cluster_node (observe_vote_request_candidate t i True c) j = map_option (\<lambda>n. n\<lparr>nd_raft_role := PreCandidate\<rparr>) (cluster_node c j))"
  by (cases "cluster_node c j") (simp_all add: observe_vote_request_candidate_def)

lemma pre_vote_state:
  assumes "vote_to t q c = (Inr r, c')" "vq_pre_vote q"
  shows "c' \<in> {c, observe_vote_request_candidate t (vq_candidate_id q) True c}"
  using assms by (auto simp: vote_to_def Let_def split: option.splits if_splits)

section \<open>Properties\<close>

definition sample_peer :: "node_id \<Rightarrow> replica_role \<Rightarrow> peer" where
  "sample_peer i r = \<lparr>pr_node_id = i, pr_raft_addr = [], pr_snapshot_addr = [], pr_role = r, pr_auto_promote = False\<rparr>"

definition sample_cluster :: raft_cluster where
  "sample_cluster = projr (cluster_new 1 default_config
     [sample_peer 1 VoterRole, sample_peer 2 VoterRole, sample_peer 3 VoterRole])"

definition sample_vote :: "node_id \<Rightarrow> raft_term \<Rightarrow> vote_request" where
  "sample_vote i t = \<lparr>vq_group_id = 1, vq_term = t, vq_candidate_id = i, vq_last_log_id = None,
     vq_pre_vote = False, vq_force = True\<rparr>"

lemma terms_bounded_values:
  "(\<forall>n \<in> set (bt_values (rc_nodes c)). current_term_of n \<le> rc_current_term c) \<Longrightarrow> terms_bounded c"
  by (auto simp: terms_bounded_def dest: bt_get_values)

lemma sample_cluster_terms: "terms_bounded sample_cluster"
  by (rule terms_bounded_values) code_simp

definition vote_outcome :: "(vote_response, raft_cluster) outcome \<Rightarrow> bool" where
  "vote_outcome out = (case fst out of Inr r \<Rightarrow> vr_vote_granted r | Inl _ \<Rightarrow> False)"

lemma vote_outcomeE:
  assumes "vote_outcome out"
  obtains r where "out = (Inr r, snd out)" "vr_vote_granted r"
  using assms by (cases out) (auto simp: vote_outcome_def split: sum.splits)



text \<open>
  C39: Asking for a pre-vote disturbs nobody: whatever the answer, the term and the leader of the
  group and everything about its replicas but the raft role of the candidate stay as they were,
  their votes and terms included. It is granted exactly when pre-votes are enabled, the target takes
  part in quorums, the candidate is a healthy voter of the group, its term is later than the
  target's and its log at least as fresh, and the target is not bound by a lease (where lease
  reads are enabled and the request is not forced).
\<close>

theorem pre_vote_disturbs_nobody:
  assumes "vote_to t q c = (Inr r, c')" "vq_pre_vote q"
  shows "rc_current_term c' = rc_current_term c \<and> rc_leader_id c' = rc_leader_id c
    \<and> (\<forall>i. cluster_node c' i = cluster_node c i \<or> (i = vq_candidate_id q
         \<and> cluster_node c' i = map_option (\<lambda>n. n\<lparr>nd_raft_role := PreCandidate\<rparr>) (cluster_node c i)))
    \<and> (vr_vote_granted r \<longleftrightarrow> vq_group_id q = rc_group_id c \<and> cf_enable_pre_vote (rc_config c)
         \<and> (\<exists>n k. cluster_node c t = Some n \<and> participates_in_quorum (nd_replica_role n)
              \<and> cluster_node c (vq_candidate_id q) = Some k \<and> can_be_leader (nd_replica_role k) \<and> nd_healthy k
              \<and> current_term_of n < vq_term q \<and> is_fresh_candidate_log n (vq_last_log_id q)
              \<and> \<not> (\<not> vq_force q \<and> cf_enable_lease_read (rc_config c) \<and> bound_by_lease t (vq_candidate_id q) n c)))"
proof -
  have st: "rc_current_term c' = rc_current_term c \<and> rc_leader_id c' = rc_leader_id c
    \<and> (\<forall>i. cluster_node c' i = cluster_node c i \<or> (i = vq_candidate_id q
         \<and> cluster_node c' i = map_option (\<lambda>n. n\<lparr>nd_raft_role := PreCandidate\<rparr>) (cluster_node c i)))"
    using pre_vote_state [OF assms] observe_pre_candidate [of t "vq_candidate_id q" c] by auto
  show ?thesis
  proof (cases "vq_group_id q = rc_group_id c \<and> (\<exists>n. cluster_node c t = Some n \<and> participates_in_quorum (nd_replica_role n))")
    case True
    then obtain n where "vq_group_id q = rc_group_id c" "cluster_node c t = Some n" "participates_in_quorum (nd_replica_role n)" by blast
    with pre_vote_granted [OF assms this] st show ?thesis by (auto simp: candidate_refusal_None)
  next
    case False
    then have "\<not> vr_vote_granted r" using assms(1) by (auto simp: vote_to_def refusal_def split: option.splits if_splits)
    then show ?thesis using st False by auto
  qed
qed

theorem pre_vote_disturbs_nobody_witness:
  "vote_outcome (vote_to 3 ((sample_vote 1 5)\<lparr>vq_pre_vote := True\<rparr>) sample_cluster)
   \<and> rc_current_term (snd (vote_to 3 ((sample_vote 1 5)\<lparr>vq_pre_vote := True\<rparr>) sample_cluster)) = rc_current_term sample_cluster"
proof -
  let ?q = "(sample_vote 1 5)\<lparr>vq_pre_vote := True\<rparr>"
  have 1: "vote_outcome (vote_to 3 ?q sample_cluster)" by code_simp
  then obtain r where r: "vote_to 3 ?q sample_cluster = (Inr r, snd (vote_to 3 ?q sample_cluster))" by (rule vote_outcomeE)
  from pre_vote_disturbs_nobody [OF r] 1 show ?thesis by simp
qed

end
