(* ===== verification/MR_Append_Safety.thy ===== *)
theory MR_Append_Safety
  imports MR_Append MR_Election_Safety
begin

text \<open>
  What one run of the append handler does to the replicas before it replays waiting requests: the
  log agrees with the request wherever the request speaks, committed entries are never replaced, the
  replica invariant is kept, and the terms of the other replicas only grow. The properties themselves
  are in MR_Replay_Safety, which adds the replay.
\<close>

section \<open>Logs that agree below an index\<close>

lemma node_inv_hard_state [simp]:
  "node_inv (n\<lparr>nd_hard_state := h\<rparr>) = node_inv n" "node_inv (n\<lparr>nd_raft_role := r\<rparr>) = node_inv n"
  by (simp_all add: node_inv_def commit_held_def snapshot_index_def last_retained_index_def)

lemma log_term_at_view:
  assumes "nd_log m = nd_log n" "nd_installed_snapshot m = nd_installed_snapshot n"
  shows "log_term_at m i = log_term_at n i"
  unfolding log_term_at_def log_position_def assms by (rule refl)

lemma match_index_view:
  assumes "nd_log m = nd_log n" "nd_installed_snapshot m = nd_installed_snapshot n"
    "nd_replica_role m = nd_replica_role n" "nd_witness_ack_index m = nd_witness_ack_index n"
  shows "match_index m = match_index n"
  unfolding match_index_def last_retained_index_def snapshot_index_def assms by (rule refl)

lemma log_position_agree:
  assumes "log_sorted (nd_log n)" "log_sorted (nd_log m)" "\<And>x. idx x = j \<Longrightarrow> x \<in> set (nd_log m) \<longleftrightarrow> x \<in> set (nd_log n)"
  shows "map_option (\<lambda>p. nd_log m ! p) (log_position m j) = map_option (\<lambda>p. nd_log n ! p) (log_position n j)"
proof (cases "log_position n j")
  case None
  then have "log_position m j = None"
    using assms by (auto simp: log_position_None)
  then show ?thesis using None by simp
next
  case (Some p)
  then have p: "p < length (nd_log n)" "idx (nd_log n ! p) = j" using log_position_Some [OF assms(1)] by auto
  then have "nd_log n ! p \<in> set (nd_log m)" using assms(3) by simp
  then obtain r where r: "r < length (nd_log m)" "nd_log m ! r = nd_log n ! p" by (auto simp: in_set_conv_nth)
  then have "log_position m j = Some r" using log_position_Some [OF assms(2)] p by simp
  then show ?thesis using Some r by simp
qed

lemma log_term_at_agree:
  assumes "log_sorted (nd_log n)" "log_sorted (nd_log m)" "nd_installed_snapshot m = nd_installed_snapshot n"
    and "\<And>x. idx x = j \<Longrightarrow> x \<in> set (nd_log m) \<longleftrightarrow> x \<in> set (nd_log n)"
  shows "log_term_at m j = log_term_at n j"
proof -
  have "map_option trm (map_option (\<lambda>p. nd_log m ! p) (log_position m j))
      = map_option trm (map_option (\<lambda>p. nd_log n ! p) (log_position n j))"
    using log_position_agree [OF assms(1,2,4)] by simp
  then have eq: "map_option (\<lambda>p. trm (nd_log m ! p)) (log_position m j)
      = map_option (\<lambda>p. trm (nd_log n ! p)) (log_position n j)"
    by (simp add: option.map_comp comp_def)
  show ?thesis unfolding log_term_at_def assms(3) eq by (rule refl)
qed

section \<open>One entry\<close>

text \<open>The entry at index \<open>i\<close> is the next one to append, or is retained already.\<close>

definition append_ready :: "log_index \<Rightarrow> node \<Rightarrow> bool" where
  "append_ready i n \<longleftrightarrow> node_inv n \<and> nd_commit_index n < i
     \<and> (if nd_log n = [] then i = nd_commit_index n + 1 else i \<le> idx (last (nd_log n)) + 1)"

lemma append_ready_pre:
  assumes "append_ready (idx e) n" "payload_bytes (nd_log n) + length (le_payload e) \<le> u64_max"
  shows "append_pre e n"
proof (cases "nd_log n = []")
  case False
  then have "idx (hd (nd_log n)) \<le> nd_commit_index n + 1" using assms(1) by (simp add: append_ready_def node_inv_def)
  then show ?thesis using assms False by (simp add: append_ready_def append_pre_def)
qed (use assms in \<open>simp add: append_ready_def append_pre_def\<close>)

lemma append_ready_known:
  assumes "append_ready i n"
  shows "log_term_at n i = None \<longleftrightarrow> nd_log n = [] \<or> idx (last (nd_log n)) < i"
proof -
  have inv: "node_inv n" and snap: "snapshot_index n < i" using assms by (auto simp: append_ready_def node_inv_def)
  have "log_term_at n i = None \<longleftrightarrow> (\<forall>e \<in> set (nd_log n). idx e \<noteq> i)"
    using log_term_at_mem [OF inv snap] by (metis not_None_eq)
  also have "\<dots> \<longleftrightarrow> nd_log n = [] \<or> idx (last (nd_log n)) < i"
  proof (cases "nd_log n = []")
    case False
    then have c: "contiguous_from (idx (hd (nd_log n))) (nd_log n)" "idx (hd (nd_log n)) \<le> i"
      using inv assms by (auto simp: node_inv_def append_ready_def)
    have "(\<forall>e \<in> set (nd_log n). idx e \<noteq> i) \<longleftrightarrow> \<not> i < idx (hd (nd_log n)) + length (nd_log n)"
      using contiguous_from_mem [OF c(1), of i] c(2) by blast
    then show ?thesis using contiguous_from_last [OF c(1) False] False by linarith
  qed simp
  finally show ?thesis .
qed

lemma append_ready_skip:
  assumes "append_ready i n" "log_term_at n i \<noteq> None"
  shows "append_ready (i + 1) n"
  using assms append_ready_known [OF assms(1)] by (simp add: append_ready_def)

text \<open>Cutting the log at the index leaves the entries below and makes room for the new one.\<close>

lemma log_sorted_last_ge: "log_sorted es \<Longrightarrow> x \<in> set es \<Longrightarrow> idx x \<le> idx (last es)"
  using log_sorted_last_less [of es "idx (last es) + 1" x] by simp

lemma truncate_log_from_log:
  assumes "node_inv n" "nd_commit_index n < i"
  shows "nd_log (truncate_log_from i n) = filter (\<lambda>e. idx e < i) (nd_log n)"
proof (cases "nd_log n = [] \<or> idx (last (nd_log n)) < i")
  case True
  then have "\<forall>e \<in> set (nd_log n). idx e < i" using log_sorted_last_less [OF node_inv_sorted [OF assms(1)]] by blast
  then have "filter (\<lambda>e. idx e < i) (nd_log n) = nd_log n" by (simp add: filter_id_conv)
  moreover have "truncate_log_from i n = n" using True by (auto simp: truncate_log_from_def log_position_at_or_after_def)
  ultimately show ?thesis by simp
next
  case False
  have srt: "log_sorted (nd_log n)" by (rule node_inv_sorted [OF assms(1)])
  from False have "nd_log (truncate_log_from i n) = takeWhile (\<lambda>e. idx e < i) (nd_log n)"
    using assms(2)
    by (simp add: truncate_log_from_def log_position_at_or_after_def partition_point_less [OF srt] takeWhile_eq_take [symmetric])
  then show ?thesis using log_sorted_takeWhile(2) [OF srt] by simp
qed

lemma truncate_log_from_simps [simp]:
  "nd_commit_index (truncate_log_from i n) = nd_commit_index n"
  "nd_replica_role (truncate_log_from i n) = nd_replica_role n"
  "nd_safety_applied_index (truncate_log_from i n) = nd_safety_applied_index n"
  "nd_hard_state (truncate_log_from i n) = nd_hard_state n"
  "nd_installed_snapshot (truncate_log_from i n) = nd_installed_snapshot n"
  "snapshot_index (truncate_log_from i n) = snapshot_index n"
  by (simp_all add: truncate_log_from_def split: option.split)

lemma payload_bytes_filter_le: "payload_bytes (filter P es) \<le> payload_bytes es"
  by (induction es) auto

lemma truncate_ready:
  assumes "append_ready i n"
  defines "m \<equiv> truncate_log_from i n"
  shows "append_ready i m" "log_term_at m i = None" "no_rewrite n m" "payload_bytes (nd_log m) \<le> payload_bytes (nd_log n)"
    and "j < i \<Longrightarrow> log_term_at m j = log_term_at n j"
proof -
  have inv: "node_inv n" "node_inv m" and ci: "nd_commit_index n < i"
    using assms truncate_log_from_inv by (auto simp: append_ready_def)
  have log: "nd_log m = filter (\<lambda>e. idx e < i) (nd_log n)" unfolding m_def by (rule truncate_log_from_log [OF inv(1) ci])
  have srt: "log_sorted (nd_log n)" "log_sorted (nd_log m)" using inv node_inv_sorted by auto
  have "if nd_log m = [] then i = nd_commit_index n + 1 else i \<le> idx (last (nd_log m)) + 1"
  proof (cases "nd_log n = []")
    case False
    let ?k = "idx (hd (nd_log n))"
    have k: "contiguous_from ?k (nd_log n)" "?k \<le> nd_commit_index n + 1" "i \<le> idx (last (nd_log n)) + 1"
      using inv(1) assms(1) False by (auto simp: node_inv_def append_ready_def)
    show ?thesis
    proof (cases "?k < i")
      case True
      then have "\<exists>e \<in> set (nd_log n). idx e = i - 1"
        unfolding contiguous_from_mem [OF k(1)] using contiguous_from_last [OF k(1) False] k(3) by linarith
      then obtain x where x: "x \<in> set (nd_log m)" "idx x = i - 1" using True log by auto
      then show ?thesis using log_sorted_last_ge [OF srt(2) x(1)] by auto
    next
      case nlt: False
      then have "i = nd_commit_index n + 1" using k(2) ci by linarith
      moreover have "nd_log m = []"
        unfolding log filter_empty_conv
      proof
        fix x assume "x \<in> set (nd_log n)"
        then have "?k \<le> idx x" using contiguous_from_mem [OF k(1), of "idx x"] by blast
        then show "\<not> idx x < i" using nlt by simp
      qed
      ultimately show ?thesis by simp
    qed
  qed (use assms(1) log in \<open>simp add: append_ready_def\<close>)
  moreover have "nd_commit_index m = nd_commit_index n" by (simp add: m_def)
  ultimately show r: "append_ready i m" using inv(2) ci by (simp add: append_ready_def split: if_splits)
  show "log_term_at m i = None"
    unfolding append_ready_known [OF r] using last_in_set [of "nd_log m"] log by auto
  show "no_rewrite n m" unfolding m_def by (rule truncate_log_from_no_rewrite)
  show "payload_bytes (nd_log m) \<le> payload_bytes (nd_log n)" unfolding log by (rule payload_bytes_filter_le)
  show "log_term_at m j = log_term_at n j" if "j < i"
    by (rule log_term_at_agree [OF srt]) (use that log in \<open>auto simp: m_def\<close>)
qed

text \<open>Appending the entry at the index.\<close>

lemma append_entry_simps [simp]:
  "nd_commit_index (append_entry e n) = nd_commit_index n"
  "nd_replica_role (append_entry e n) = nd_replica_role n"
  "nd_safety_applied_index (append_entry e n) = nd_safety_applied_index n"
  "nd_hard_state (append_entry e n) = nd_hard_state n"
  "nd_installed_snapshot (append_entry e n) = nd_installed_snapshot n"
  "snapshot_index (append_entry e n) = snapshot_index n"
  by (simp_all add: append_entry_def push_entry_def snapshot_index_def truncate_log_at_def Let_def split: option.split)

lemma push_ready:
  assumes "append_ready (idx e) n" "log_term_at n (idx e) = None" "payload_bytes (nd_log n) + length (le_payload e) \<le> u64_max"
    and w: "nd_replica_role n \<noteq> WitnessRole"
  defines "m \<equiv> append_entry e n"
  shows "append_ready (idx e + 1) m" "nd_log m = nd_log n @ [e]" "no_rewrite n m" "log_term_at m (idx e) = Some (trm e)"
    and "j < idx e \<Longrightarrow> log_term_at m j = log_term_at n j"
proof -
  have pre: "append_pre e n" using append_ready_pre assms(1,3) by blast
  have inv: "node_inv n" "node_inv m" using assms append_entry_inv pre by (auto simp: append_ready_def)
  show log: "nd_log m = nd_log n @ [e]"
    using assms(2) unfolding append_ready_known [OF assms(1)] m_def by (auto simp: append_entry_def push_entry_def)
  show "no_rewrite n m" unfolding m_def by (rule append_entry_no_rewrite [OF inv(1) pre])
  have ci: "nd_commit_index n < idx e" using assms(1) by (simp add: append_ready_def)
  show "append_ready (idx e + 1) m" using inv(2) log ci by (simp add: append_ready_def m_def)
  have "snapshot_index m < idx e" using inv(1) ci by (simp add: node_inv_def m_def)
  then show "log_term_at m (idx e) = Some (trm e)" using log_term_at_mem [OF inv(2)] log by auto
  show "log_term_at m j = log_term_at n j" if "j < idx e"
    by (rule log_term_at_agree [OF node_inv_sorted [OF inv(1)] node_inv_sorted [OF inv(2)]])
      (use that log in \<open>auto simp: m_def\<close>)
qed

section \<open>The loop\<close>

text \<open>Once an entry was appended, the log ends just before the next one.\<close>

definition loop_ready :: "log_index \<Rightarrow> append_progress \<Rightarrow> bool" where
  "loop_ready i s \<longleftrightarrow> append_ready i (ap_node s)
     \<and> (0 < ap_count s \<longrightarrow> nd_log (ap_node s) \<noteq> [] \<and> idx (last (nd_log (ap_node s))) + 1 = i)"

text \<open>What the loop leaves alone, and how the log moves on from index \<open>i\<close>.\<close>

definition log_step :: "log_index \<Rightarrow> node \<Rightarrow> node \<Rightarrow> bool" where
  "log_step i n m \<longleftrightarrow> no_rewrite n m \<and> (\<forall>j < i. log_term_at m j = log_term_at n j)
     \<and> nd_commit_index m = nd_commit_index n \<and> nd_replica_role m = nd_replica_role n
     \<and> nd_hard_state m = nd_hard_state n \<and> nd_installed_snapshot m = nd_installed_snapshot n"

lemma log_step_refl [simp]: "log_step i n n"
  by (simp add: log_step_def)

lemma log_step_trans: "log_step i a b \<Longrightarrow> log_step j b c \<Longrightarrow> i \<le> j \<Longrightarrow> log_step i a c"
  by (auto simp: log_step_def intro: no_rewrite_trans)

lemma cut_conflict_ready:
  assumes "loop_ready (idx e) s"
  defines "s1 \<equiv> cut_conflict e s"
  shows "loop_ready (idx e) s1" "log_term_at (ap_node s1) (idx e) = None" "log_step (idx e) (ap_node s) (ap_node s1)"
    and "payload_bytes (nd_log (ap_node s1)) \<le> payload_bytes (nd_log (ap_node s))"
    and "ap_count s1 = ap_count s" "ap_pending s1 = ap_pending s" "ap_change_indexes s1 = ap_change_indexes s"
proof -
  have r: "append_ready (idx e) (ap_node s)" using assms(1) by (simp add: loop_ready_def)
  have cnt: "log_term_at (ap_node s) (idx e) = None" if "0 < ap_count s"
    using assms(1) that append_ready_known [OF r] by (auto simp: loop_ready_def)
  note t = truncate_ready [OF r]
  show "loop_ready (idx e) s1" "log_term_at (ap_node s1) (idx e) = None" "log_step (idx e) (ap_node s) (ap_node s1)"
    "payload_bytes (nd_log (ap_node s1)) \<le> payload_bytes (nd_log (ap_node s))"
    using assms(1) t cnt by (auto simp: s1_def cut_conflict_def loop_ready_def log_step_def)
qed (simp_all add: s1_def cut_conflict_def)

lemma push_loop_ready:
  assumes "loop_ready (idx e) s" "log_term_at (ap_node s) (idx e) = None" "nd_replica_role (ap_node s) \<noteq> WitnessRole"
    and "payload_bytes (nd_log (ap_node s)) + length (le_payload e) \<le> u64_max"
    and "ap_node s1 = append_entry e (ap_node s)" "0 < ap_count s1"
  shows "loop_ready (idx e + 1) s1" "log_term_at (ap_node s1) (idx e) = Some (trm e)"
    and "log_step (idx e) (ap_node s) (ap_node s1)"
    and "payload_bytes (nd_log (ap_node s1)) = payload_bytes (nd_log (ap_node s)) + length (le_payload e)"
  using push_ready [of e "ap_node s"] assms by (auto simp: loop_ready_def log_step_def)

definition loop_result :: "log_index \<Rightarrow> log_entry list \<Rightarrow> append_progress \<Rightarrow> append_progress \<Rightarrow> nat \<Rightarrow> bool" where
  "loop_result i es s s' k \<longleftrightarrow> k \<le> length es \<and> loop_ready (i + k) s' \<and> log_step i (ap_node s) (ap_node s')
     \<and> list_all (\<lambda>e. log_term_at (ap_node s') (idx e) = Some (trm e)) (take k es)
     \<and> payload_bytes (nd_log (ap_node s')) \<le> payload_bytes (nd_log (ap_node s)) + payload_bytes es"

lemma loop_result_Cons:
  assumes "loop_ready (i + 1) s1" "log_step i (ap_node s) (ap_node s1)" "log_term_at (ap_node s1) (idx e) = Some (trm e)"
    and "payload_bytes (nd_log (ap_node s1)) \<le> payload_bytes (nd_log (ap_node s)) + length (le_payload e)"
    and "idx e = i" "loop_result (i + 1) es s1 s' k"
  shows "loop_result i (e # es) s s' (Suc k)"
  using assms log_step_trans [OF assms(2), of "i + 1" "ap_node s'"]
  by (auto simp: loop_result_def log_step_def)

lemma contiguous_from_Cons: "contiguous_from i (e # es) \<longleftrightarrow> idx e = i \<and> contiguous_from (i + 1) es"
  by (auto simp: contiguous_from_def upt_conv_Cons simp del: upt_Suc)

text \<open>What the loop does with an entry it does not know: it stops before a second membership change, or pushes the entry.\<close>

lemma append_loop_new_entry:
  assumes "loop_ready (idx e) s" and serve: "can_serve_data (nd_replica_role (ap_node s))"
    and room: "payload_bytes (nd_log (ap_node s)) + length (le_payload e) \<le> u64_max"
    and new: "log_term_at (ap_node s) (idx e) \<noteq> Some (trm e)"
  obtains (stopped) r s1 where "append_loop changes applied cap (e # es) s = (r, s1)" "loop_result (idx e) (e # es) s s1 0"
      "r = None \<longrightarrow> 0 < ap_count s1" "changes \<noteq> []"
  | (pushed) s3 where "append_loop changes applied cap (e # es) s = (if cap then (None, s3) else append_loop changes applied cap es s3)"
      "loop_ready (idx e + 1) s3" "log_step (idx e) (ap_node s) (ap_node s3)" "log_term_at (ap_node s3) (idx e) = Some (trm e)"
      "payload_bytes (nd_log (ap_node s3)) \<le> payload_bytes (nd_log (ap_node s)) + length (le_payload e)"
      "0 < ap_count s3" "can_serve_data (nd_replica_role (ap_node s3))"
proof -
  let ?s1 = "cut_conflict e s"
  note cut = cut_conflict_ready [OF assms(1)]
  define s3 where "s3 = (let s2 = (if idx e \<in> set changes
      then ?s1\<lparr>ap_pending := Some (idx e), ap_change_indexes := set_insert (idx e) (ap_change_indexes ?s1)\<rparr> else ?s1)
    in s2\<lparr>ap_node := append_entry e (ap_node s2), ap_count := sat_add (ap_count s2) 1\<rparr>)"
  show thesis
  proof (cases "idx e \<in> set changes \<and> (case ap_pending ?s1 of Some p \<Rightarrow> applied < p | None \<Rightarrow> False)")
    case True
    have run: "append_loop changes applied cap (e # es) s = (if ap_count ?s1 = 0 then Some e else None, ?s1)"
      by (simp only: append_loop.simps Let_def serve new True if_True if_False) simp
    have "loop_result (idx e) (e # es) s ?s1 0" using cut by (auto simp: loop_result_def)
    then show thesis by (rule stopped [OF run]) (use True in auto)
  next
    case False
    have s3: "ap_node s3 = append_entry e (ap_node ?s1)" "0 < ap_count s3"
      by (simp_all add: s3_def Let_def sat_add_def)
    have role: "can_serve_data (nd_replica_role (ap_node s3))" "nd_replica_role (ap_node ?s1) \<noteq> WitnessRole"
      using serve cut(3) s3(1) by (auto simp: log_step_def)
    have "payload_bytes (nd_log (ap_node ?s1)) + length (le_payload e) \<le> u64_max" using room cut(4) by simp
    note push = push_loop_ready [OF cut(1,2) role(2) this s3]
    have "append_loop changes applied cap (e # es) s = (if cap then (None, s3) else append_loop changes applied cap es s3)"
      by (simp only: append_loop.simps Let_def s3_def serve new False if_True if_False)
    then show thesis using log_step_trans [OF cut(3) push(3)] push cut(4) s3(2) role(1) by (intro pushed) simp_all
  qed
qed

lemma append_loop_data:
  assumes "loop_ready i s" "contiguous_from i es" "can_serve_data (nd_replica_role (ap_node s))"
    and "payload_bytes (nd_log (ap_node s)) + payload_bytes es \<le> u64_max"
    and "append_loop changes applied cap es s = (r, s')"
  shows "\<exists>k. loop_result i es s s' k \<and> (r = None \<and> ap_count s' = 0 \<longrightarrow> k = length es)
    \<and> (changes = [] \<and> \<not> cap \<longrightarrow> r = None \<and> k = length es)"
  using assms
proof (induction es arbitrary: i s)
  case Nil
  then show ?case by (auto simp: loop_result_def intro!: exI [of _ 0])
next
  case (Cons e es)
  have e: "idx e = i" "contiguous_from (i + 1) es"
    using Cons.prems(2) by (simp_all add: contiguous_from_Cons)
  have room: "payload_bytes (nd_log (ap_node s)) + length (le_payload e) \<le> u64_max" using Cons.prems(4) by simp
  show ?case
  proof (cases "log_term_at (ap_node s) (idx e) = Some (trm e)")
    case True
    have ready: "loop_ready (i + 1) s"
      using Cons.prems(1) True e(1) append_ready_skip [of i "ap_node s"] append_ready_known [of i "ap_node s"]
      by (auto simp: loop_ready_def)
    have run: "append_loop changes applied cap es s = (r, s')" "payload_bytes (nd_log (ap_node s)) + payload_bytes es \<le> u64_max"
      using Cons.prems(3-5) True by simp_all
    obtain k where "loop_result (i + 1) es s s' k" "r = None \<and> ap_count s' = 0 \<longrightarrow> k = length es"
        "changes = [] \<and> \<not> cap \<longrightarrow> r = None \<and> k = length es"
      using Cons.IH [OF ready e(2) Cons.prems(3) run(2,1)] by blast
    with ready show ?thesis
      using loop_result_Cons [of i s s e es s' k] True e(1) by (intro exI [of _ "Suc k"]) auto
  next
    case False
    show ?thesis
    proof (cases rule: append_loop_new_entry [OF Cons.prems(1) [folded e(1)] Cons.prems(3) room False, of changes applied cap es])
      case (1 r1 s1)
      then show ?thesis using Cons.prems(5) e(1) by (intro exI [of _ 0]) auto
    next
      case (2 s3)
      note grow = loop_result_Cons [of i s3 s e es s', OF 2(2,3) [unfolded e(1)] 2(4,5) e(1)]
      show ?thesis
      proof (cases cap)
        case True
        then have "s' = s3" using 2(1) Cons.prems(5) by simp
        then have "loop_result i (e # es) s s' 1" using grow [of 0] 2(2) e(1) by (simp add: loop_result_def)
        then show ?thesis using True \<open>s' = s3\<close> 2(6) by auto
      next
        case nc: False
        have rest: "append_loop changes applied cap es s3 = (r, s')" "payload_bytes (nd_log (ap_node s3)) + payload_bytes es \<le> u64_max"
          using 2(1,5) Cons.prems(4,5) nc by simp_all
        obtain k where "loop_result (i + 1) es s3 s' k" "r = None \<and> ap_count s' = 0 \<longrightarrow> k = length es"
            "changes = [] \<and> \<not> cap \<longrightarrow> r = None \<and> k = length es"
          using Cons.IH [OF 2(2) [unfolded e(1)] e(2) 2(7) rest(2,1)] by blast
        then show ?thesis using grow by (intro exI [of _ "Suc k"]) auto
      qed
    qed
  qed
qed

section \<open>The handler\<close>

lemma misplaced_entry_None:
  "misplaced_entry p k es = None \<Longrightarrow> p + k + length es \<le> u64_max \<Longrightarrow> contiguous_from (p + k + 1) es"
proof (induction es arbitrary: k)
  case (Cons e es)
  have "idx e = p + k + 1" "misplaced_entry p (Suc k) es = None"
    using Cons.prems by (auto simp: wrap_add_def u64_max_def split: if_splits)
  then show ?case using Cons.IH [of "Suc k"] Cons.prems(2) by (simp add: contiguous_from_Cons)
qed simp

lemma match_index_log:
  assumes "node_inv n" "nd_replica_role n \<noteq> WitnessRole" "nd_log n \<noteq> []"
  shows "match_index n = idx (last (nd_log n))"
proof -
  have "idx (hd (nd_log n)) \<le> idx (last (nd_log n))"
    using log_sorted_last_ge [OF node_inv_sorted [OF assms(1)]] assms(3) by simp
  then show ?thesis using assms by (auto simp: match_index_def last_retained_index_def node_inv_def)
qed

lemma append_ready_match:
  assumes "append_ready (i + 1) n" "nd_replica_role n \<noteq> WitnessRole"
  shows "i \<le> match_index n"
  using assms node_inv_commit_le_match [of n] match_index_log [of n]
  by (cases "nd_log n = []") (auto simp: append_ready_def)

lemma append_ready_prev:
  assumes "node_inv n" "nd_commit_index n \<le> p" "p = 0 \<or> log_term_at n p \<noteq> None"
  shows "append_ready (p + 1) n"
proof (cases "p \<le> snapshot_index n")
  case True
  then have "p = nd_commit_index n" using assms(1,2) by (simp add: node_inv_def)
  moreover have "p \<le> idx (last (nd_log n))" if "nd_log n \<noteq> []"
  proof -
    have "snapshot_index n < idx (hd (nd_log n))" using assms(1) that by (simp add: node_inv_def)
    also have "\<dots> \<le> idx (last (nd_log n))"
      using log_sorted_last_ge [OF node_inv_sorted [OF assms(1)]] that by simp
    finally show ?thesis using True by simp
  qed
  ultimately show ?thesis using assms(1) by (simp add: append_ready_def)
next
  case False
  then have "\<exists>e \<in> set (nd_log n). idx e = p" using assms(3) log_term_at_mem [OF assms(1)] by fastforce
  then have "nd_log n \<noteq> []" "p \<le> idx (last (nd_log n))"
    using log_sorted_last_ge [OF node_inv_sorted [OF assms(1)]] by auto
  then show ?thesis using assms by (simp add: append_ready_def)
qed

lemma append_frame [simp]:
  "rc_nodes (refresh_cluster_indexes c) = rc_nodes c" "rc_nodes (clear_reorder_queue_for t c) = rc_nodes c"
  "rc_nodes (reset_pending_membership_change_after_truncation a b c) = rc_nodes c"
  "rc_nodes (cache_reordered_append t q ch c) = rc_nodes c"
  "rc_nodes (remove_reordered t k c) = rc_nodes c" "rc_nodes (tidy_reorder_queue t c) = rc_nodes c"
  by (simp_all add: refresh_cluster_indexes_def Let_def clear_reorder_queue_for_def
      reset_pending_membership_change_after_truncation_def cache_reordered_append_def remove_reordered_def
      tidy_reorder_queue_def split: option.splits)

lemma append_finish_node:
  assumes "append_finish t q lease s c = (x, c')" "cluster_node c t = Some m"
  obtains r where "x = Replay r" "ar_success r"
    "cluster_node c' t = Some (advance_commit (min (aq_leader_commit q) (ar_match_index r)) (ap_node s))"
    "ar_match_index r = (if ap_count s = 0 then min (match_index (ap_node s)) (sat_add (prev_index q) (length (aq_entries q)))
       else match_index (ap_node s))"
  using assms that
  by (auto simp: append_finish_def Let_def append_accepted_def append_reply_def split: option.splits)

abbreviation buffer_full :: "append_entries_request \<Rightarrow> raft_cluster \<Rightarrow> node \<Rightarrow> bool" where
  "buffer_full q c n \<equiv> can_serve_data (nd_replica_role n) \<and> aq_entries q \<noteq> []
     \<and> cf_max_log_buffer_bytes (rc_config c) \<le> nd_retained_log_bytes n"

definition append_admitted :: "append_entries_request \<Rightarrow> u64 \<times> u64 \<Rightarrow> node \<Rightarrow> bool" where
  "append_admitted q lease n \<longleftrightarrow> nd_commit_index n \<le> prev_index q
     \<and> Option.bind (aq_prev_log_id q) (\<lambda>prev. prev_conflict n prev lease) = None
     \<and> misplaced_entry (prev_index q) 0 (aq_entries q) = None"

lemma append_to_node_cases:
  assumes "append_to_node t q changes lease n c = (x, c')"
  obtains (kept) y where "x = Answered y" "c' = c \<or> (c' = cache_reordered_append t q changes c \<and> match_index n < prev_index q)"
  | (heartbeat) y d where "x = Answered y" "c' = refresh_cluster_indexes (modify_node t (\<lambda>_. advance_commit d n) c)"
  | (stopped) y s e where "x = Answered y" "append_admitted q lease n"
      "append_loop changes (nd_safety_applied_index n) (buffer_full q c n) (aq_entries q) (append_begin q c n) = (Some e, s)"
      "c' = modify_node t (\<lambda>_. ap_node s) c"
  | (finished) s where "append_admitted q lease n"
      "append_loop changes (nd_safety_applied_index n) (buffer_full q c n) (aq_entries q) (append_begin q c n) = (None, s)"
      "append_finish t q lease s c = (x, c')"
proof -
  let ?inst = "case bt_get (rc_peer_pipelines c) t of Some p \<Rightarrow> pp_snapshot_installing (rp_status p) | None \<Rightarrow> False"
  let ?hb = "aq_prev_log_id q = None \<and> aq_entries q = []" and ?low = "prev_index q < nd_commit_index n"
  let ?bind = "Option.bind (aq_prev_log_id q) (\<lambda>prev. prev_conflict n prev lease)"
  let ?mis = "misplaced_entry (prev_index q) 0 (aq_entries q)"
  let ?loop = "append_loop changes (nd_safety_applied_index n) (buffer_full q c n) (aq_entries q) (append_begin q c n)"
  note run = assms [unfolded append_to_node_def Let_def]
  show thesis
  proof (cases "?inst \<or> (\<not> ?hb \<and> ?low)")
    case True
    then have "c' = c" "\<exists>y. x = Answered y" using run by (auto split: if_splits)
    then show thesis using kept by blast
  next
    case False
    then have ni: "\<not> ?inst" and nl: "?hb \<or> \<not> ?low" by blast+
    show thesis
    proof (cases ?hb)
      case True
      then show thesis using run ni heartbeat by auto
    next
      case nh: False
      then have nl: "\<not> ?low" using nl by blast
      note run' = run [unfolded if_not_P [OF ni] if_not_P [OF nh] if_not_P [OF nl]]
      show thesis
      proof (cases ?bind)
        case (Some r)
        then have "\<exists>y. x = Answered y" "c' = c \<or> (c' = cache_reordered_append t q changes c \<and> match_index n < prev_index q)"
          using run' by (auto simp del: bind_eq_Some_conv split: if_splits)
        then show thesis using kept by blast
      next
        case none: None
        show thesis
        proof (cases ?mis)
          case (Some e)
          then have "\<exists>y. x = Answered y" "c' = c" using run' none by (auto simp del: bind_eq_None_conv)
          then show thesis using kept by blast
        next
          case None
          have adm: "append_admitted q lease n" unfolding append_admitted_def using nl none None by simp
          obtain o' s where loop: "?loop = (o', s)" by fastforce
          show thesis
            using run' adm stopped [of _ _ s] finished [of s] loop
            unfolding none None option.case loop prod.case by (cases o') auto
        qed
      qed
    qed
  qed
qed

lemma append_finish_Replay: "append_finish t q lease s c = (x, c') \<Longrightarrow> \<exists>r. x = Replay r"
  by (auto simp: append_finish_def Let_def)

lemma append_to_node_Replay:
  assumes "append_to_node t q changes lease n c = (Replay r, c')"
  obtains s where "append_admitted q lease n"
    "append_loop changes (nd_safety_applied_index n) (buffer_full q c n) (aq_entries q) (append_begin q c n) = (None, s)"
    "append_finish t q lease s c = (Replay r, c')"
  using assms by (cases rule: append_to_node_cases) auto

text \<open>A success that is answered at once: the log is left alone and the answer is an index held already.\<close>

lemma prev_conflict_refuses: "prev_conflict n prev lease = Some r \<Longrightarrow> \<not> ar_success r"
  by (auto simp: prev_conflict_def append_refused_def append_reply_def split: if_splits option.splits)

lemma append_to_node_answered:
  assumes "append_to_node t q changes lease n c = (Answered (Inr r), c')" "ar_success r" "cluster_node c t = Some n"
  shows "(c' = c \<and> ar_match_index r = nd_commit_index n \<and> (ar_snapshot_state r = SnapReceiving \<or> prev_index q < nd_commit_index n))
    \<or> (aq_prev_log_id q = None \<and> aq_entries q = [] \<and> ar_match_index r = match_index n
        \<and> cluster_node c' t = Some (advance_commit (min (aq_leader_commit q) (match_index n)) n))"
proof -
  let ?inst = "case bt_get (rc_peer_pipelines c) t of Some p \<Rightarrow> pp_snapshot_installing (rp_status p) | None \<Rightarrow> False"
  let ?hb = "aq_prev_log_id q = None \<and> aq_entries q = []" and ?low = "prev_index q < nd_commit_index n"
  let ?bind = "Option.bind (aq_prev_log_id q) (\<lambda>prev. prev_conflict n prev lease)"
  let ?mis = "misplaced_entry (prev_index q) 0 (aq_entries q)"
  let ?loop = "append_loop changes (nd_safety_applied_index n) (buffer_full q c n) (aq_entries q) (append_begin q c n)"
  note run = assms(1) [unfolded append_to_node_def Let_def]
  consider (inst) "?inst" | (hb) "\<not> ?inst" "?hb" | (low) "\<not> ?inst" "\<not> ?hb" "?low" | (rest) "\<not> ?inst" "\<not> ?hb" "\<not> ?low" by blast
  then show ?thesis
  proof cases
    case inst
    show ?thesis using run [unfolded if_P [OF inst]] by (auto simp: append_accepted_def append_reply_def)
  next
    case hb
    show ?thesis using run [unfolded if_not_P [OF hb(1)] if_P [OF hb(2)]] hb(2) assms(3)
      by (auto simp: append_accepted_def append_reply_def)
  next
    case low
    show ?thesis using run [unfolded if_not_P [OF low(1)] if_not_P [OF low(2)] if_P [OF low(3)]] low(3)
      by (auto simp: append_accepted_def append_reply_def)
  next
    case rest
    note run' = run [unfolded if_not_P [OF rest(1)] if_not_P [OF rest(2)] if_not_P [OF rest(3)]]
    have none: "?bind = None"
    proof (cases ?bind)
      case (Some r')
      then have "\<not> ar_success r'" by (auto simp: bind_eq_Some_conv dest: prev_conflict_refuses)
      then show ?thesis using run' assms(2) unfolding Some option.case by simp
    qed simp
    have mis: "?mis = None"
      using run' assms(2) unfolding none option.case
      by (cases ?mis) (auto simp: append_refused_def append_reply_def)
    obtain o' s where loop: "?loop = (o', s)" by fastforce
    have False
      using run' assms(2) append_finish_Replay [of t q lease s c "Answered (Inr r)" c']
      unfolding none mis option.case loop prod.case by (cases o') (auto simp: append_reply_def)
    then show ?thesis ..
  qed
qed

lemma prev_conflict_None:
  "prev_conflict n prev lease = None \<Longrightarrow> li_index prev = 0 \<or> log_term_at n (li_index prev) = Some (li_term prev)"
  by (auto simp: prev_conflict_def split: if_splits option.splits)

lemma append_begin_simps [simp]:
  "log_term_at (ap_node (append_begin q c n)) i = log_term_at n i"
  "nd_log (ap_node (append_begin q c n)) = nd_log n" "nd_commit_index (ap_node (append_begin q c n)) = nd_commit_index n"
  "nd_replica_role (ap_node (append_begin q c n)) = nd_replica_role n" "ap_count (append_begin q c n) = 0"
  "node_inv (ap_node (append_begin q c n)) = node_inv n"
  by (simp_all add: append_begin_def log_term_at_view [of "n\<lparr>nd_hard_state := h, nd_raft_role := x\<rparr>" n for h x])

lemma append_admitted_prev:
  assumes "append_admitted q lease n" "aq_prev_log_id q = Some prev" "0 < li_index prev"
  shows "log_term_at n (li_index prev) = Some (li_term prev)"
  using prev_conflict_None [of n prev lease] assms by (auto simp: append_admitted_def)

lemma append_admitted_ready:
  assumes "append_admitted q lease n" "node_inv n"
  shows "append_ready (prev_index q + 1) n"
proof (rule append_ready_prev [OF assms(2)])
  show "prev_index q = 0 \<or> log_term_at n (prev_index q) \<noteq> None"
    using append_admitted_prev [OF assms(1)] by (cases "aq_prev_log_id q") (auto simp: prev_index_def)
qed (use assms(1) in \<open>simp add: append_admitted_def\<close>)

lemma append_admitted_contiguous:
  assumes "append_admitted q lease n" "prev_index q + length (aq_entries q) \<le> u64_max"
  shows "contiguous_from (prev_index q + 1) (aq_entries q)"
  using misplaced_entry_None [of "prev_index q" 0 "aq_entries q"] assms by (simp add: append_admitted_def)

text \<open>Taking a request: the target's log afterwards, and what the answer claims of it.\<close>

definition append_taken :: "append_entries_request \<Rightarrow> append_entries_response \<Rightarrow> nat \<Rightarrow> node \<Rightarrow> node \<Rightarrow> bool" where
  "append_taken q r k n n' \<longleftrightarrow> node_inv n' \<and> no_rewrite n n' \<and> k \<le> length (aq_entries q)
     \<and> ar_success r \<and> ar_match_index r = prev_index q + k
     \<and> (\<forall>e \<in> set (take k (aq_entries q)). log_term_at n' (idx e) = Some (trm e))
     \<and> (\<forall>prev. aq_prev_log_id q = Some prev \<and> 0 < li_index prev \<longrightarrow> log_term_at n' (li_index prev) = Some (li_term prev))
     \<and> nd_commit_index n' = max (nd_commit_index n) (min (aq_leader_commit q) (ar_match_index r))"

lemma append_to_node_taken:
  assumes run: "append_to_node t q changes lease n c = (Replay r, c')" and m: "cluster_node c t = Some m"
    and n: "node_inv n" "can_serve_data (nd_replica_role n)" "payload_bytes (nd_log n) + payload_bytes (aq_entries q) \<le> u64_max"
    and b: "prev_index q + length (aq_entries q) \<le> u64_max"
  shows "\<exists>n' k. cluster_node c' t = Some n' \<and> append_taken q r k n n'
    \<and> (changes = [] \<and> \<not> buffer_full q c n \<longrightarrow> k = length (aq_entries q))
    \<and> payload_bytes (nd_log n') \<le> payload_bytes (nd_log n) + payload_bytes (aq_entries q)"
proof -
  let ?p = "prev_index q" and ?s0 = "append_begin q c n" and ?es = "aq_entries q"
  obtain s where s: "append_admitted q lease n"
      "append_loop changes (nd_safety_applied_index n) (buffer_full q c n) ?es ?s0 = (None, s)"
      "append_finish t q lease s c = (Replay r, c')"
    using run by (rule append_to_node_Replay)
  have prev: "log_term_at n (li_index prev) = Some (li_term prev)" if "aq_prev_log_id q = Some prev" "0 < li_index prev" for prev
    using append_admitted_prev [OF s(1)] that by simp
  have ready: "loop_ready (?p + 1) ?s0"
    using append_admitted_ready [OF s(1) n(1)] by (simp add: loop_ready_def append_ready_def split: if_splits)
  have cont: "contiguous_from (?p + 1) ?es" by (rule append_admitted_contiguous [OF s(1) b])
  obtain k where k: "loop_result (?p + 1) ?es ?s0 s k" "ap_count s = 0 \<longrightarrow> k = length ?es"
      "changes = [] \<and> \<not> buffer_full q c n \<longrightarrow> k = length ?es"
    using append_loop_data [OF ready cont _ _ s(2)] n(2,3) unfolding append_begin_simps by blast
  let ?n1 = "ap_node s"
  have n1: "append_ready (?p + k + 1) ?n1" "log_step (?p + 1) (ap_node ?s0) ?n1" "k \<le> length ?es"
      "\<forall>e \<in> set (take k ?es). log_term_at ?n1 (idx e) = Some (trm e)"
    and last: "0 < ap_count s \<longrightarrow> nd_log ?n1 \<noteq> [] \<and> idx (last (nd_log ?n1)) = ?p + k"
    and bytes: "payload_bytes (nd_log ?n1) \<le> payload_bytes (nd_log n) + payload_bytes ?es"
    using k(1) by (auto simp: loop_result_def loop_ready_def list_all_iff ac_simps)
  have inv: "node_inv ?n1" and w: "nd_replica_role ?n1 \<noteq> WitnessRole"
    using n1(1,2) n(2) by (auto simp: append_ready_def log_step_def)
  obtain r' where r': "r = r'" "ar_success r'"
      "cluster_node c' t = Some (advance_commit (min (aq_leader_commit q) (ar_match_index r')) ?n1)"
      "ar_match_index r' = (if ap_count s = 0 then min (match_index ?n1) (sat_add ?p (length ?es)) else match_index ?n1)"
    using append_finish_node [OF s(3) m] by blast
  have matched: "ar_match_index r = ?p + k"
    using r' k(2) last b match_index_log [OF inv w] append_ready_match [OF n1(1) w] by (auto simp: sat_add_def)
  let ?n' = "advance_commit (min (aq_leader_commit q) (ar_match_index r)) ?n1"
  have terms: "log_term_at ?n' i = log_term_at ?n1 i" for i by (rule log_term_at_view) simp_all
  have "no_rewrite n ?n'" using n1(2) by (auto simp: log_step_def no_rewrite_def)
  moreover have "log_term_at ?n' (li_index prev) = Some (li_term prev)"
    if "aq_prev_log_id q = Some prev" "0 < li_index prev" for prev
    unfolding terms using prev [OF that] n1(2) that(1) by (auto simp: log_step_def prev_index_def)
  moreover have "nd_commit_index ?n' = max (nd_commit_index n) (min (aq_leader_commit q) (ar_match_index r))"
    using n1(2) append_ready_match [OF n1(1) w] matched by (simp add: log_step_def)
  ultimately have "append_taken q r k n ?n'"
    using matched n1 r' advance_commit_inv [OF inv] unfolding append_taken_def terms by simp
  then show ?thesis using r' k(3) bytes by (intro exI [of _ ?n'] exI [of _ k]) simp
qed

text \<open>Before it reaches the target's log, a request only changes roles and the target's term.\<close>

definition led :: "node \<Rightarrow> node \<Rightarrow> bool" where
  "led n m \<longleftrightarrow> (\<exists>r h. m = n\<lparr>nd_raft_role := r, nd_hard_state := h\<rparr> \<and> hs_voted_for h = hs_voted_for (nd_hard_state n)
     \<and> current_term_of n \<le> hs_current_term h)"

definition all_led :: "raft_cluster \<Rightarrow> raft_cluster \<Rightarrow> bool" where
  "all_led c c' \<longleftrightarrow> (\<forall>i. rel_option led (cluster_node c i) (cluster_node c' i))"

lemma led_role [simp]: "led n (n\<lparr>nd_raft_role := r\<rparr>)"
  unfolding led_def by (intro exI [of _ r] exI [of _ "nd_hard_state n"]) simp

lemma led_refl [simp]: "led n n"
  using led_role [of n "nd_raft_role n"] by simp

lemma led_trans:
  assumes "led a b" "led b c"
  shows "led a c"
proof -
  obtain r h where "c = a\<lparr>nd_raft_role := r, nd_hard_state := h\<rparr>" "hs_voted_for h = hs_voted_for (nd_hard_state a)"
      "current_term_of a \<le> hs_current_term h"
    using assms by (auto simp: led_def)
  then show ?thesis unfolding led_def by blast
qed

lemma led_follow_term [simp]: "led n (follow_term t n)"
proof (cases "current_term_of n < t")
  case True
  then show ?thesis
    unfolding led_def follow_term_def
    by (intro exI [of _ "plain_role n"] exI [of _ "(nd_hard_state n)\<lparr>hs_current_term := t\<rparr>"]) simp
qed (simp add: follow_term_def)

lemma led_log:
  assumes "led n m"
  shows "node_inv m = node_inv n" "nd_log m = nd_log n" "nd_commit_index m = nd_commit_index n"
    "nd_replica_role m = nd_replica_role n" "nd_installed_snapshot m = nd_installed_snapshot n"
    "nd_retained_log_bytes m = nd_retained_log_bytes n" "nd_witness_ack_index m = nd_witness_ack_index n"
    "no_rewrite n m" "no_rewrite m n' = no_rewrite n n'" "match_index m = match_index n" "log_term_at m i = log_term_at n i"
  using assms match_index_view [of m n] log_term_at_view [of m n] by (auto simp: led_def no_rewrite_def)

lemma all_led_trans: "all_led a b \<Longrightarrow> all_led b c \<Longrightarrow> all_led a c"
  unfolding all_led_def by (metis (full_types) led_trans option.rel_sel)

lemma all_led_nodes: "rc_nodes c' = rc_nodes c \<Longrightarrow> all_led c c'"
  by (simp add: all_led_def option.rel_refl)

lemma renew_lease_nodes [simp]:
  "rc_nodes (renew_follower_lease_from_append_entries e c) = rc_nodes c"
  "rc_config (renew_follower_lease_from_append_entries e c) = rc_config c"
  "rc_reorder_queues (renew_follower_lease_from_append_entries e c) = rc_reorder_queues c"
  by (simp_all add: renew_follower_lease_from_append_entries_def receive_follower_lease_item_def renew_follower_lease_def
      Let_def split: if_splits)

lemma settle_leader_transfer_frame [simp]:
  "rc_nodes (settle_leader_transfer i c) = rc_nodes c" "rc_config (settle_leader_transfer i c) = rc_config c"
  "rc_current_term (settle_leader_transfer i c) = rc_current_term c"
  "rc_leader_id (settle_leader_transfer i c) = rc_leader_id c"
  "rc_reorder_queues (settle_leader_transfer i c) = rc_reorder_queues c"
  by (simp_all add: settle_leader_transfer_def complete_leader_transfer_def abort_leader_transfer_def split: option.split)

lemma adopt_all_led: "all_led c (adopt_append_leader q c)"
  by (auto simp: all_led_def adopt_append_leader_def Let_def option.rel_map option.rel_refl)

lemma adopt_frame [simp]: "rc_config (adopt_append_leader q c) = rc_config c"
  by (simp add: adopt_append_leader_def Let_def reset_leader_lease_epoch_def invalidate_follower_lease_def clear_reorder_queues_def)

lemma grant_frame:
  assumes "grant_append_lease t q c = (lease, c')"
  shows "rc_nodes c' = rc_nodes c" "rc_config c' = rc_config c" "rc_reorder_queues c' = rc_reorder_queues c"
  using assms by (auto simp: grant_append_lease_def Let_def split: if_splits)

lemma queue_frame [simp]:
  "rc_reorder_queues (refresh_cluster_indexes c) = rc_reorder_queues c"
  "rc_reorder_queues (modify_node i f c) = rc_reorder_queues c" "rc_reorder_queues (modify_nodes f' c) = rc_reorder_queues c"
  "rc_reorder_queues (reset_pending_membership_change_after_truncation a b c) = rc_reorder_queues c"
  "rc_reorder_queues (invalidate_follower_lease c) = rc_reorder_queues c"
  "rc_reorder_queues (reset_leader_lease_epoch c) = rc_reorder_queues c"
  "rc_reorder_queues (clear_reorder_queues c) = []"
  by (simp_all add: refresh_cluster_indexes_def modify_node_def modify_nodes_def invalidate_follower_lease_def
      reset_leader_lease_epoch_def clear_reorder_queues_def reset_pending_membership_change_after_truncation_def Let_def)

lemma cached_appends_simps [simp]:
  "cached_appends t (clear_reorder_queue_for t c) = []"
  "cached_appends t (tidy_reorder_queue t c) = cached_appends t c"
  "cached_appends t (remove_reordered t k c) = bt_remove k (cached_appends t c)"
proof -
  show cleared: "cached_appends t (clear_reorder_queue_for t c) = []"
    by (simp add: cached_appends_def clear_reorder_queue_for_def)
  then show "cached_appends t (tidy_reorder_queue t c) = cached_appends t c"
    by (simp add: tidy_reorder_queue_def) (simp add: cached_appends_def)
  show "cached_appends t (remove_reordered t k c) = bt_remove k (cached_appends t c)"
    by (cases "bt_get (rc_reorder_queues c) t") (simp_all add: cached_appends_def remove_reordered_def bt_remove_def)
qed

lemma cached_appends_queues: "rc_reorder_queues c' = rc_reorder_queues c \<Longrightarrow> cached_appends t c' = cached_appends t c"
  by (simp add: cached_appends_def)

lemma adopt_cache: "cached_appends t (adopt_append_leader q c) \<in> {cached_appends t c, []}"
  by (auto simp: adopt_append_leader_def Let_def cached_appends_def bt_get_def)

lemma append_core_cases:
  assumes "append_core t q changes c = (x, c')"
  obtains (refused) y where "x = Answered y" "all_led c c'" "cached_appends t c' \<in> {cached_appends t c, []}"
      "\<And>r. y = Inr r \<Longrightarrow> \<not> ar_success r"
  | (target) lease c1 n0 n where "cluster_node c t = Some n0" "led n0 n" "cluster_node c1 t = Some n" "all_led c c1"
      "rc_config c1 = rc_config c" "append_to_node t q changes lease n c1 = (x, c')" "current_term_of n = aq_term q"
      "rc_current_term c \<le> aq_term q" "cached_appends t c1 \<in> {cached_appends t c, []}"
proof (cases "aq_group_id q \<noteq> rc_group_id c \<or> \<not> leader_is_eligible c (aq_leader_id q) \<or> aq_term q < rc_current_term c")
  case True
  then have "c' = c" "\<exists>y. x = Answered y \<and> (\<forall>r. y = Inr r \<longrightarrow> \<not> ar_success r)"
    using assms by (auto simp: append_core_def append_refused_def append_reply_def split: if_splits option.splits)
  then show thesis using refused all_led_nodes by auto
next
  case False
  obtain lease c1 where c1: "grant_append_lease t q (adopt_append_leader q c) = (lease, c1)" by fastforce
  have cache: "cached_appends t c1 \<in> {cached_appends t c, []}"
    using adopt_cache [of t q c] cached_appends_queues [OF grant_frame(3) [OF c1]] by simp
  have led1: "all_led c c1" using all_led_trans [OF adopt_all_led all_led_nodes [OF grant_frame(1) [OF c1]]] .
  have run: "(case cluster_node c1 t of None \<Rightarrow> (Answered (Inl (NodeNotFound t)), c1)
      | Some n \<Rightarrow> if aq_term q < current_term_of n
          then (Answered (Inr (append_refused n (current_term_of n) (prev_index q) (0, 0))), c1)
          else append_to_node t q changes lease (follow_term (aq_term q) n) (modify_node t (follow_term (aq_term q)) c1))
      = (x, c')"
    using assms False c1 by (auto simp: append_core_def)
  show thesis
  proof (cases "cluster_node c1 t")
    case None
    then show thesis using run refused led1 cache by auto
  next
    case (Some n)
    obtain n0 where n0: "cluster_node c t = Some n0" "led n0 n"
      using led1 Some unfolding all_led_def by (metis option.rel_sel option.sel option.distinct(1) option.exhaust_sel)
    show thesis
    proof (cases "aq_term q < current_term_of n")
      case True
      then show thesis using run Some refused led1 cache by (auto simp: append_refused_def append_reply_def)
    next
      case nlt: False
      let ?c2 = "modify_node t (follow_term (aq_term q)) c1"
      have "all_led c1 ?c2" by (auto simp: all_led_def option.rel_map option.rel_refl intro!: option.rel_refl_strong)
      then have "all_led c ?c2" by (rule all_led_trans [OF led1])
      moreover have "cached_appends t ?c2 \<in> {cached_appends t c, []}"
        using cache cached_appends_queues [of ?c2 c1 t] by simp
      moreover have "rc_config ?c2 = rc_config c" using grant_frame(2) [OF c1] by simp
      moreover have "current_term_of (follow_term (aq_term q) n) = aq_term q" using nlt by (simp add: follow_term_def)
      ultimately show thesis
        using target [of n0 "follow_term (aq_term q) n" ?c2 lease] n0 led_trans [OF n0(2) led_follow_term] run Some nlt False by simp
    qed
  qed
qed

section \<open>Witnesses, and every other end of a request\<close>

lemma append_entry_ready:
  assumes "append_ready (idx e) n" "payload_bytes (nd_log n) + length (le_payload e) \<le> u64_max"
    and w: "nd_replica_role n = WitnessRole \<Longrightarrow> idx e \<le> nd_witness_ack_index n"
  shows "append_ready (idx e + 1) (append_entry e n)"
    and "payload_bytes (nd_log (append_entry e n)) \<le> payload_bytes (nd_log n) + length (le_payload e)"
proof -
  have pre: "append_pre e n" by (rule append_ready_pre [OF assms(1,2)])
  have inv: "node_inv n" "node_inv (append_entry e n)" and ci: "nd_commit_index n < idx e"
    using assms(1) append_entry_inv [OF _ pre w] by (auto simp: append_ready_def)
  from inv(1) pre have "(append_entry e n = n \<and> nd_log n \<noteq> [] \<and> idx e \<le> idx (last (nd_log n))) \<or>
      (\<exists>p. nd_log (append_entry e n) = take p (nd_log n) @ [e])"
  proof (cases rule: append_entry_cases)
    case 1
    then obtain x where x: "x \<in> set (nd_log n)" "idx x = idx e" by blast
    then have "idx e \<le> idx (last (nd_log n))" "nd_log n \<noteq> []"
      using log_sorted_last_ge [OF node_inv_sorted [OF inv(1)] x(1)] by auto
    then show ?thesis using 1 by simp
  next
    case (2 p)
    then show ?thesis by (simp add: cut_and_push_def [symmetric]) blast
  qed
  then show "append_ready (idx e + 1) (append_entry e n)"
    "payload_bytes (nd_log (append_entry e n)) \<le> payload_bytes (nd_log n) + length (le_payload e)"
    using inv ci payload_bytes_take_le [of _ "nd_log n"] by (auto simp: append_ready_def)
qed

lemma append_witness_ready:
  fixes keep :: bool
  assumes "append_ready (idx e) n" "payload_bytes (nd_log n) + length (le_payload e) \<le> u64_max" "nd_replica_role n = WitnessRole"
  defines "m \<equiv> append_witness_entry e keep n"
  shows "append_ready (idx e + 1) m" "no_rewrite n m" "nd_replica_role m = WitnessRole" "nd_commit_index m = nd_commit_index n"
    and "payload_bytes (nd_log m) \<le> payload_bytes (nd_log n) + length (le_payload e)"
proof -
  let ?e = "\<lparr>le_log_id = le_log_id e, le_payload = (if keep then le_payload e else []), le_is_command = False\<rparr>"
  let ?a = "acknowledge_witness_index (idx e) n"
  have m: "m = append_entry ?e ?a" by (simp add: m_def append_witness_entry_def)
  have inv: "node_inv n" using assms(1) by (simp add: append_ready_def)
  have a: "nd_log ?a = nd_log n" "nd_commit_index ?a = nd_commit_index n" "nd_replica_role ?a = WitnessRole"
      "idx e \<le> nd_witness_ack_index ?a"
    using assms(3) by (simp_all add: acknowledge_witness_index_def)
  have "append_ready (idx ?e) ?a"
    using assms(1) a acknowledge_witness_index_inv [OF inv] by (simp add: append_ready_def split: if_splits)
  then show "append_ready (idx e + 1) m"
    "payload_bytes (nd_log m) \<le> payload_bytes (nd_log n) + length (le_payload e)"
    using append_entry_ready [of ?e ?a] a assms(2) unfolding m by (auto intro: order_trans)
  show "no_rewrite n m" unfolding m_def
    by (rule append_witness_entry_no_rewrite [OF inv append_ready_pre [OF assms(1,2)]])
  show "nd_replica_role m = WitnessRole" "nd_commit_index m = nd_commit_index n" using a m by simp_all
qed

lemma append_loop_witness:
  fixes changes :: "log_index list" and applied :: log_index and cap :: bool
  assumes "append_ready i (ap_node s)" "contiguous_from i es" "nd_replica_role (ap_node s) = WitnessRole"
    and "payload_bytes (nd_log (ap_node s)) + payload_bytes es \<le> u64_max"
  defines "s' \<equiv> snd (append_loop changes applied cap es s)"
  shows "node_inv (ap_node s') \<and> no_rewrite (ap_node s) (ap_node s')
    \<and> payload_bytes (nd_log (ap_node s')) \<le> payload_bytes (nd_log (ap_node s)) + payload_bytes es"
  using assms(1-4) unfolding s'_def
proof (induction es arbitrary: i s)
  case Nil
  then show ?case by (simp add: append_ready_def)
next
  case (Cons e es)
  let ?s1 = "s\<lparr>ap_node := append_witness_entry e (idx e \<in> set changes) (ap_node s), ap_count := sat_add (ap_count s) 1\<rparr>"
  have e: "idx e = i" "contiguous_from (i + 1) es" using Cons.prems(2) by (simp_all add: contiguous_from_Cons)
  have b: "payload_bytes (nd_log (ap_node s)) + length (le_payload e) \<le> u64_max" using Cons.prems(4) by simp
  note w = append_witness_ready [OF Cons.prems(1) [folded e(1)] b Cons.prems(3), of "idx e \<in> set changes"]
  have run: "append_loop changes applied cap (e # es) s = append_loop changes applied cap es ?s1"
    using Cons.prems(3) by (simp add: Let_def)
  have "node_inv (ap_node (snd (append_loop changes applied cap es ?s1)))
      \<and> no_rewrite (ap_node ?s1) (ap_node (snd (append_loop changes applied cap es ?s1)))
      \<and> payload_bytes (nd_log (ap_node (snd (append_loop changes applied cap es ?s1))))
        \<le> payload_bytes (nd_log (ap_node ?s1)) + payload_bytes es"
    by (rule Cons.IH [OF _ e(2)]) (use w e(1) Cons.prems(4) in simp_all)
  then show ?case unfolding run using w(2,5) no_rewrite_trans [of "ap_node s" "ap_node ?s1"] by simp
qed

text \<open>Both loops at once, for either kind of target.\<close>

lemma append_loop_safe:
  assumes "append_ready i n" "contiguous_from i es" "payload_bytes (nd_log n) + payload_bytes es \<le> u64_max"
    and "append_loop changes applied cap es (append_begin q c n) = (r, s)"
  shows "node_inv (ap_node s) \<and> no_rewrite n (ap_node s) \<and> payload_bytes (nd_log (ap_node s)) \<le> payload_bytes (nd_log n) + payload_bytes es"
proof -
  let ?s0 = "append_begin q c n"
  have ready: "append_ready i (ap_node ?s0)" using assms(1) by (simp add: append_ready_def split: if_splits)
  have nr: "no_rewrite (ap_node ?s0) m = no_rewrite n m" for m by (simp add: no_rewrite_def)
  show ?thesis
  proof (cases "nd_replica_role n = WitnessRole")
    case True
    then show ?thesis using append_loop_witness [OF ready assms(2), of changes applied cap] assms(3,4) nr by simp
  next
    case False
    then have d: "can_serve_data (nd_replica_role n)" by (cases "nd_replica_role n") auto
    have "loop_ready i ?s0" using ready by (simp add: loop_ready_def)
    then obtain k where "loop_result i es ?s0 s k"
      using append_loop_data [OF _ assms(2) _ _ assms(4)] d assms(3) unfolding append_begin_simps by blast
    then show ?thesis using nr by (simp add: loop_result_def loop_ready_def append_ready_def log_step_def)
  qed
qed

text \<open>How one node moves under a request: by a step of its log, or not at all.\<close>

definition log_safe :: "node \<Rightarrow> node \<Rightarrow> bool" where
  "log_safe n m \<longleftrightarrow> (node_inv n \<longrightarrow> node_inv m \<and> no_rewrite n m)"

lemma log_safe_refl [simp]: "log_safe n n"
  by (simp add: log_safe_def)

lemma log_safe_led: "led n m \<Longrightarrow> log_safe n m"
  by (simp add: log_safe_def led_log)

lemma log_safe_trans: "log_safe a b \<Longrightarrow> log_safe b c \<Longrightarrow> log_safe a c"
  by (auto simp: log_safe_def intro: no_rewrite_trans)

definition all_log_safe :: "raft_cluster \<Rightarrow> raft_cluster \<Rightarrow> bool" where
  "all_log_safe c c' \<longleftrightarrow> (\<forall>i. rel_option log_safe (cluster_node c i) (cluster_node c' i))"

lemma all_log_safe_trans: "all_log_safe a b \<Longrightarrow> all_log_safe b c \<Longrightarrow> all_log_safe a c"
  unfolding all_log_safe_def by (metis (full_types) log_safe_trans option.rel_sel)

lemma all_log_safe_led: "all_led c c' \<Longrightarrow> all_log_safe c c'"
  unfolding all_log_safe_def all_led_def by (metis log_safe_led option.rel_mono_strong)

lemma all_log_safe_nodes: "rc_nodes c' = rc_nodes c \<Longrightarrow> all_log_safe c c'"
  by (simp add: all_log_safe_def option.rel_refl)

lemma all_log_safe_target:
  assumes "cluster_node c t = Some n" "log_safe n n'" "\<And>i. cluster_node c' i = (if i = t then Some n' else cluster_node c i)"
  shows "all_log_safe c c'"
  using assms by (auto simp: all_log_safe_def option.rel_refl)

lemma modify_target:
  assumes "cluster_node c t = Some n" "rc_nodes c' = rc_nodes (modify_node t (\<lambda>_. n') c)"
  shows "cluster_node c' i = (if i = t then Some n' else cluster_node c i)"
  using assms(1) cluster_node_modify_node [of t "\<lambda>_. n'" c i] unfolding assms(2) by (cases "cluster_node c i") auto

lemma append_finish_nodes:
  "append_finish t q lease s c = (x, c') \<Longrightarrow>
     \<exists>d. rc_nodes c' = rc_nodes (modify_node t (\<lambda>_. advance_commit d (ap_node s)) c)"
  by (auto simp: append_finish_def Let_def modify_node_def split: option.splits)

definition request_fits :: "append_entries_request \<Rightarrow> node \<Rightarrow> bool" where
  "request_fits q n \<longleftrightarrow> payload_bytes (nd_log n) + payload_bytes (aq_entries q) \<le> u64_max
     \<and> prev_index q + length (aq_entries q) \<le> u64_max"

lemma append_to_node_safe:
  assumes run: "append_to_node t q changes lease n c = (x, c')" and m: "cluster_node c t = Some n" and fits: "request_fits q n"
  shows "all_log_safe c c'"
    and "node_inv n \<Longrightarrow> cluster_node c' t = Some n' \<Longrightarrow>
      payload_bytes (nd_log n') \<le> payload_bytes (nd_log n) + payload_bytes (aq_entries q)"
proof -
  have adv: "log_safe k (advance_commit d k)" for d k
    using advance_commit_inv by (simp add: log_safe_def no_rewrite_def)
  have loop: "log_safe n (ap_node s) \<and> (node_inv n \<longrightarrow> payload_bytes (nd_log (ap_node s)) \<le> payload_bytes (nd_log n) + payload_bytes (aq_entries q))"
    if "append_admitted q lease n"
      "append_loop changes (nd_safety_applied_index n) (buffer_full q c n) (aq_entries q) (append_begin q c n) = (o', s)" for o' s
    using append_loop_safe [OF append_admitted_ready append_admitted_contiguous _ that(2)] that(1) fits
    unfolding request_fits_def log_safe_def by blast
  note target = modify_target [OF m]
  from run have "\<exists>k. (\<forall>i. cluster_node c' i = (if i = t then Some k else cluster_node c i)) \<and> log_safe n k
      \<and> (node_inv n \<longrightarrow> payload_bytes (nd_log k) \<le> payload_bytes (nd_log n) + payload_bytes (aq_entries q))"
  proof (cases rule: append_to_node_cases)
    case (kept y)
    then show ?thesis using m by (intro exI [of _ n]) auto
  next
    case (heartbeat y d)
    then show ?thesis using adv target [of c' "advance_commit d n"] by (intro exI [of _ "advance_commit d n"]) simp
  next
    case (stopped y s e)
    then show ?thesis using loop target [of c' "ap_node s"] by (intro exI [of _ "ap_node s"]) simp
  next
    case (finished s)
    then obtain d where "rc_nodes c' = rc_nodes (modify_node t (\<lambda>_. advance_commit d (ap_node s)) c)"
      using append_finish_nodes by blast
    then show ?thesis
      using loop [OF finished(1,2)] log_safe_trans [OF _ adv] target
      by (intro exI [of _ "advance_commit d (ap_node s)"]) simp
  qed
  then obtain k where k: "\<And>i. cluster_node c' i = (if i = t then Some k else cluster_node c i)" "log_safe n k"
      "node_inv n \<longrightarrow> payload_bytes (nd_log k) \<le> payload_bytes (nd_log n) + payload_bytes (aq_entries q)" by blast
  show "all_log_safe c c'" by (rule all_log_safe_target [OF m k(2,1)])
  show "payload_bytes (nd_log n') \<le> payload_bytes (nd_log n) + payload_bytes (aq_entries q)"
    if "node_inv n" "cluster_node c' t = Some n'"
    using that k(1) [of t] k(3) by simp
qed

lemma append_core_safe:
  assumes run: "append_core t q changes c = (x, c')"
    and fits: "\<And>n. cluster_node c t = Some n \<Longrightarrow> request_fits q n"
  shows "all_log_safe c c' \<and> (\<forall>n n'. cluster_node c t = Some n \<longrightarrow> node_inv n \<longrightarrow> cluster_node c' t = Some n' \<longrightarrow>
      payload_bytes (nd_log n') \<le> payload_bytes (nd_log n) + payload_bytes (aq_entries q))"
  using run
proof (cases rule: append_core_cases)
  case (refused y)
  show ?thesis
  proof (intro conjI allI impI)
    show "all_log_safe c c'" by (rule all_log_safe_led [OF refused(2)])
    fix n n' assume "cluster_node c t = Some n" "cluster_node c' t = Some n'"
    then have "led n n'" using refused(2) [unfolded all_led_def, THEN spec [of _ t]] by simp
    from led_log(2) [OF this] show "payload_bytes (nd_log n') \<le> payload_bytes (nd_log n) + payload_bytes (aq_entries q)"
      by simp
  qed
next
  case (target lease c1 n0 n)
  have "request_fits q n" using fits [OF target(1)] led_log(2) [OF target(2)] by (simp add: request_fits_def)
  note safe = append_to_node_safe [OF target(6,3) this]
  have "all_log_safe c c'" by (rule all_log_safe_trans [OF all_log_safe_led [OF target(4)] safe(1)])
  moreover have "payload_bytes (nd_log k') \<le> payload_bytes (nd_log n0) + payload_bytes (aq_entries q)"
    if "node_inv n0" "cluster_node c' t = Some k'" for k'
    using safe(2) [of k'] that led_log(1,2) [OF target(2)] by simp
  ultimately show ?thesis using target(1) by simp
qed

end
