(* ===== verification/MR_Replay_Safety.thy ===== *)
theory MR_Replay_Safety
  imports MR_Append_Safety
begin

text \<open>
  What the whole append handler guarantees, replay of early appends included: the match
  index of a request that is taken is backed by its entries, committed entries are never replaced and the replica
  invariant is kept, and the replay ends and satisfies the recursion of the code. The section on
  defects evaluates runs in which the handler breaks a guarantee of Raft.
\<close>

section \<open>The cache of early appends\<close>

lemma append_finish_cache:
  assumes "append_finish t q lease s c = (x, c')"
  shows "cached_appends t c' \<in> {cached_appends t c, []}"
proof (cases "ap_last_retained s")
  case None
  then have "rc_reorder_queues c' = rc_reorder_queues c" using assms by (auto simp: append_finish_def Let_def)
  then show ?thesis using cached_appends_queues [of c' c t] by simp
next
  case (Some k)
  then obtain c1 where "rc_reorder_queues c' = rc_reorder_queues (clear_reorder_queue_for t c1)"
    using assms by (auto simp: append_finish_def Let_def)
  then show ?thesis using cached_appends_queues [of c' "clear_reorder_queue_for t c1" t] by simp
qed

lemma append_to_node_cache:
  assumes "append_to_node t q changes lease n c = (x, c')"
  shows "cached_appends t c' \<in> {cached_appends t c, []} \<or> match_index n < prev_index q"
  using assms
proof (cases rule: append_to_node_cases)
  case (heartbeat y d)
  then show ?thesis using cached_appends_queues [of c' c t] by simp
next
  case (stopped y s e)
  then show ?thesis using cached_appends_queues [of c' c t] by simp
next
  case (finished s)
  then show ?thesis using append_finish_cache by blast
qed auto

lemma append_core_cache:
  assumes "append_core t q changes c = (x, c')"
  shows "cached_appends t c' \<in> {cached_appends t c, []} \<or> (\<exists>n. cluster_node c t = Some n \<and> match_index n < prev_index q)"
  using assms
proof (cases rule: append_core_cases)
  case (target lease c1 n0 n)
  then show ?thesis using append_to_node_cache [OF target(6)] led_log(10) [OF target(2)] by auto
qed simp

text \<open>
  The requests cached for a node, each under the index its previous log id names, and the bytes
  they could add to the node's log.
\<close>

definition cached_ok :: "log_index \<times> reordered_append \<Rightarrow> bool" where
  "cached_ok kr \<longleftrightarrow> prev_index (ra_request (snd kr)) = fst kr
     \<and> fst kr + length (aq_entries (ra_request (snd kr))) \<le> u64_max"

definition cached_bytes :: "(log_index \<times> reordered_append) list \<Rightarrow> nat" where
  "cached_bytes krs = sum_list (map (\<lambda>kr. payload_bytes (aq_entries (ra_request (snd kr)))) krs)"

definition replay_ok :: "node_id \<Rightarrow> raft_cluster \<Rightarrow> bool" where
  "replay_ok t c \<longleftrightarrow> list_all cached_ok (cached_appends t c)
     \<and> (\<forall>n. cluster_node c t = Some n \<longrightarrow> node_inv n \<and> payload_bytes (nd_log n) + cached_bytes (cached_appends t c) \<le> u64_max)"

lemma next_reordered_Some:
  assumes "next_reordered t m c = Some (k, r)"
  obtains krs where "cached_appends t c = (k, r) # krs" "k \<le> m"
  using assms by (auto simp: next_reordered_def split: list.splits if_splits)

lemma cached_bytes_filter: "cached_bytes (filter P krs) \<le> cached_bytes krs"
  by (induction krs) (auto simp: cached_bytes_def)

lemma all_log_safe_target_node:
  assumes "all_log_safe c c'" "cluster_node c t = Some n" "node_inv n"
  obtains n' where "cluster_node c' t = Some n'" "node_inv n'" "no_rewrite n n'"
proof -
  have "rel_option log_safe (Some n) (cluster_node c' t)" using assms(1,2) unfolding all_log_safe_def by metis
  then obtain n' where "cluster_node c' t = Some n'" "log_safe n n'" by (auto elim: option.rel_cases)
  then show thesis using that assms(3) by (simp add: log_safe_def)
qed

lemma replay_round:
  assumes ok: "replay_ok t c" and n: "cluster_node c t = Some n" and nx: "next_reordered t (match_index n) c = Some (k, r)"
    and core: "append_core t (ra_request r) (ra_membership_change_indexes r) (remove_reordered t k c) = (x, c1)"
  shows "replay_ok t c1" "all_log_safe c c1" "length (cached_appends t c1) < length (cached_appends t c)"
proof -
  let ?q = "ra_request r" and ?c0 = "remove_reordered t k c"
  obtain krs where krs: "cached_appends t c = (k, r) # krs" "k \<le> match_index n" using nx by (rule next_reordered_Some)
  have c0: "cached_appends t ?c0 = filter (\<lambda>e. fst e \<noteq> k) krs" "cluster_node ?c0 t = Some n"
    using krs n by (simp_all add: bt_remove_def)
  have kr: "cached_ok (k, r)" "list_all cached_ok krs" and inv: "node_inv n"
      and room: "payload_bytes (nd_log n) + (payload_bytes (aq_entries ?q) + cached_bytes krs) \<le> u64_max"
    using ok n krs(1) by (auto simp: replay_ok_def cached_bytes_def)
  have fits: "request_fits ?q n" using kr(1) room by (simp add: request_fits_def cached_ok_def)
  have safe0: "all_log_safe ?c0 c1" and grow: "\<forall>n1. cluster_node c1 t = Some n1 \<longrightarrow>
      payload_bytes (nd_log n1) \<le> payload_bytes (nd_log n) + payload_bytes (aq_entries ?q)"
    using append_core_safe [OF core] fits c0(2) inv by auto
  have "all_log_safe c ?c0" by (rule all_log_safe_nodes) simp
  then show safe: "all_log_safe c c1" using safe0 by (rule all_log_safe_trans)
  have "\<not> match_index n < prev_index ?q" using kr(1) krs(2) by (simp add: cached_ok_def)
  then have cache: "cached_appends t c1 \<in> {filter (\<lambda>e. fst e \<noteq> k) krs, []}" using append_core_cache [OF core] c0 by auto
  then show "length (cached_appends t c1) < length (cached_appends t c)"
    using krs(1) by (auto simp: less_Suc_eq_le)
  have "list_all cached_ok (cached_appends t c1)" "cached_bytes (cached_appends t c1) \<le> cached_bytes krs"
    using cache kr(2) cached_bytes_filter by (auto simp: list_all_iff cached_bytes_def)
  then show "replay_ok t c1"
    unfolding replay_ok_def using all_log_safe_target_node [OF safe n inv] grow room by fastforce
qed

lemma drain_unfold:
  "drain_reordered_appends fuel t c = (case cluster_node c t of
     None \<Rightarrow> (Inl (NodeNotFound t), c)
   | Some n \<Rightarrow> (case (next_reordered t (match_index n) c, fuel) of
       (Some (k, r), Suc f) \<Rightarrow>
         (case append_core t (ra_request r) (ra_membership_change_indexes r) (remove_reordered t k c) of
            (Answered (Inl e), c1) \<Rightarrow> (Inl e, c1)
          | (Answered (Inr response), c1) \<Rightarrow>
              (if ar_success response then drain_reordered_appends f t c1 else (Inr (), tidy_reorder_queue t c1))
          | (Replay response, c1) \<Rightarrow>
              (case drain_reordered_appends f t c1 of
                 (Inl e, c2) \<Rightarrow> (Inl e, c2) | (Inr _, c2) \<Rightarrow> drain_reordered_appends f t c2))
     | _ \<Rightarrow> (Inr (), tidy_reorder_queue t c)))"
  by (rule drain_reordered_appends.simps)

lemma drain_stop:
  assumes "cluster_node c t = Some n" "next_reordered t (match_index n) c = None \<or> fuel = 0"
  shows "drain_reordered_appends fuel t c = (Inr (), tidy_reorder_queue t c)"
  using assms by (subst drain_unfold) (auto split: option.split)

lemma replay_ok_tidy [simp]: "replay_ok t (tidy_reorder_queue t c) = replay_ok t c"
  by (simp add: replay_ok_def)

lemma drain_safe:
  assumes "replay_ok t c"
  defines "c' \<equiv> \<lambda>f. snd (drain_reordered_appends f t c)"
  shows "replay_ok t (c' f) \<and> all_log_safe c (c' f) \<and> length (cached_appends t (c' f)) \<le> length (cached_appends t c)"
  using assms(1) unfolding c'_def
proof (induction f arbitrary: c rule: less_induct)
  case (less f)
  have tidy: "replay_ok t (tidy_reorder_queue t c1) \<and> all_log_safe c (tidy_reorder_queue t c1)
      \<and> length (cached_appends t (tidy_reorder_queue t c1)) \<le> length (cached_appends t c)"
    if "replay_ok t c1" "all_log_safe c c1" "length (cached_appends t c1) \<le> length (cached_appends t c)" for c1
    using that all_log_safe_trans [OF that(2) all_log_safe_nodes [of "tidy_reorder_queue t c1" c1]] by simp
  show ?case
  proof (cases "cluster_node c t")
    case None
    then show ?thesis using less.prems by (subst (1 2 3) drain_unfold) (simp add: all_log_safe_nodes)
  next
    case n: (Some n)
    show ?thesis
    proof (cases "next_reordered t (match_index n) c = None \<or> f = 0")
      case True
      then show ?thesis using drain_stop [OF n True] tidy [OF less.prems] by (simp add: all_log_safe_nodes)
    next
      case False
      then obtain k r g where nx: "next_reordered t (match_index n) c = Some (k, r)" and f: "f = Suc g"
        by (cases f) (auto simp: not0_implies_Suc)
      obtain x c1 where core: "append_core t (ra_request r) (ra_membership_change_indexes r) (remove_reordered t k c) = (x, c1)"
        by fastforce
      note round = replay_round [OF less.prems n nx core]
      let ?good = "\<lambda>d. replay_ok t d \<and> all_log_safe c d \<and> length (cached_appends t d) \<le> length (cached_appends t c)"
      have ih: "?good (snd (drain_reordered_appends g t d))" if "?good d" for d
        using less.IH [of g d] f that all_log_safe_trans by (meson le_trans lessI)
      have "?good c1" using round by simp
      from ih [OF this] have d1: "?good (snd (drain_reordered_appends g t c1))" .
      have "?good (tidy_reorder_queue t c1)" using tidy round by simp
      then show ?thesis
        using \<open>?good c1\<close> d1 ih [OF d1] f n nx core
        by (subst (1 2 3) drain_unfold) (auto split: append_end.split sum.split prod.split)
    qed
  qed
qed

lemma drain_fuel:
  assumes "replay_ok t c" "length (cached_appends t c) \<le> f" "length (cached_appends t c) \<le> g"
  shows "drain_reordered_appends f t c = drain_reordered_appends g t c"
  using assms
proof (induction f arbitrary: g c rule: less_induct)
  case (less f)
  show ?case
  proof (cases "cluster_node c t")
    case None
    then show ?thesis by (subst (1 2) drain_unfold) simp
  next
    case n: (Some n)
    show ?thesis
    proof (cases "next_reordered t (match_index n) c")
      case None
      then show ?thesis using drain_stop [OF n] by simp
    next
      case (Some kr)
      obtain k r where nx: "next_reordered t (match_index n) c = Some (k, r)" using Some by (cases kr) auto
      then have "cached_appends t c \<noteq> []" by (auto elim: next_reordered_Some)
      then obtain f' g' where fg: "f = Suc f'" "g = Suc g'" using less.prems(2,3) by (cases f; cases g) auto
      obtain x c1 where core: "append_core t (ra_request r) (ra_membership_change_indexes r) (remove_reordered t k c) = (x, c1)"
        by fastforce
      note round = replay_round [OF less.prems(1) n nx core]
      have len: "length (cached_appends t c1) \<le> f'" "length (cached_appends t c1) \<le> g'"
        using round(3) less.prems(2,3) fg by simp_all
      have one: "drain_reordered_appends f' t c1 = drain_reordered_appends g' t c1"
        using less.IH [OF _ round(1) len] fg by simp
      let ?c2 = "snd (drain_reordered_appends g' t c1)"
      have ok2: "replay_ok t ?c2" and len2: "length (cached_appends t ?c2) \<le> length (cached_appends t c1)"
        using drain_safe [OF round(1), of g'] by auto
      then have two: "drain_reordered_appends f' t ?c2 = drain_reordered_appends g' t ?c2"
        using less.IH [of f' ?c2 g'] fg len by simp
      show ?thesis
        using n nx core fg one two
        by (subst (1 2) drain_unfold) (auto split: append_end.split sum.split prod.split)
    qed
  qed
qed

text \<open>A request that is taken leaves the cached ones alone, or drops them.\<close>

lemma append_core_Replay_cache:
  assumes "append_core t q changes c = (Replay r, c')"
  shows "cached_appends t c' \<in> {cached_appends t c, []}"
  using assms
proof (cases rule: append_core_cases)
  case (target lease c1 n0 n)
  obtain s where "append_finish t q lease s c1 = (Replay r, c')" using target(6) by (rule append_to_node_Replay)
  from append_finish_cache [OF this] target(9) show ?thesis by auto
qed simp

lemma append_core_Replay_success:
  assumes "append_core t q changes c = (Replay r, c')"
  shows "ar_success r"
  using assms
proof (cases rule: append_core_cases)
  case (target lease c1 n0 n)
  obtain s where "append_finish t q lease s c1 = (Replay r, c')" using target(6) by (rule append_to_node_Replay)
  then show ?thesis by (auto simp: append_finish_def Let_def append_accepted_def append_reply_def)
qed simp

definition handler_fits :: "node_id \<Rightarrow> append_entries_request \<Rightarrow> raft_cluster \<Rightarrow> bool" where
  "handler_fits t q c \<longleftrightarrow> prev_index q + length (aq_entries q) \<le> u64_max
     \<and> (\<forall>n. cluster_node c t = Some n \<longrightarrow>
          payload_bytes (nd_log n) + cached_bytes (cached_appends t c) + payload_bytes (aq_entries q) \<le> u64_max)"

lemma append_handler_log_safe:
  assumes ok: "replay_ok t c" "handler_fits t q c"
  shows "all_log_safe c (snd (append_entries_with_membership_change_indexes_to t q changes c))"
proof -
  obtain x c1 where core: "append_core t q changes c = (x, c1)" by fastforce
  have fits: "request_fits q n" if "cluster_node c t = Some n" for n
    using ok(2) that by (auto simp: handler_fits_def request_fits_def)
  note safe = append_core_safe [OF core fits]
  show ?thesis
  proof (cases x)
    case (Answered y)
    then show ?thesis using core safe by (simp add: append_entries_with_membership_change_indexes_to_def)
  next
    case (Replay r)
    have cache: "cached_appends t c1 \<in> {cached_appends t c, []}"
      using append_core_Replay_cache core Replay by blast
    have "replay_ok t c1"
      unfolding replay_ok_def
    proof (intro conjI allI impI)
      show "list_all cached_ok (cached_appends t c1)" using cache ok(1) by (auto simp: replay_ok_def)
      fix n1 assume n1: "cluster_node c1 t = Some n1"
      have "rel_option log_safe (cluster_node c t) (Some n1)" using safe n1 unfolding all_log_safe_def by metis
      then obtain n where n: "cluster_node c t = Some n" "log_safe n n1" by (auto elim: option.rel_cases)
      have inv: "node_inv n" using ok(1) n(1) by (simp add: replay_ok_def)
      then show "node_inv n1" using n(2) by (simp add: log_safe_def)
      have "payload_bytes (nd_log n1) \<le> payload_bytes (nd_log n) + payload_bytes (aq_entries q)"
        using safe n(1) n1 inv by blast
      moreover have "cached_bytes (cached_appends t c1) \<le> cached_bytes (cached_appends t c)"
        using cache by (auto simp: cached_bytes_def)
      moreover have "payload_bytes (nd_log n) + cached_bytes (cached_appends t c) + payload_bytes (aq_entries q) \<le> u64_max"
        using ok(2) n(1) by (simp add: handler_fits_def)
      ultimately show "payload_bytes (nd_log n1) + cached_bytes (cached_appends t c1) \<le> u64_max" by linarith
    qed
    then have "all_log_safe c1 (snd (drain_reordered_appends (length (cached_appends t c1)) t c1))"
      using drain_safe by blast
    moreover have "snd (append_entries_with_membership_change_indexes_to t q changes c)
        = snd (drain_reordered_appends (length (cached_appends t c1)) t c1)"
      using core Replay by (simp add: append_entries_with_membership_change_indexes_to_def split: prod.split sum.split)
    ultimately show ?thesis using all_log_safe_trans safe by metis
  qed
qed

lemma append_handler_end:
  assumes "append_entries_with_membership_change_indexes_to t q changes c = (Inr r, c')"
  obtains "append_core t q changes c = (Answered (Inr r), c')"
  | c1 where "append_core t q changes c = (Replay r, c1)" "drain_reordered_appends (length (cached_appends t c1)) t c1 = (Inr (), c')"
  using assms by (auto simp: append_entries_with_membership_change_indexes_to_def split: append_end.splits prod.splits sum.splits)

lemma append_core_answered:
  assumes "append_core t q changes c = (Answered (Inr r), c')" "ar_success r" "cluster_node c t = Some n" "node_inv n"
  shows "\<exists>n'. cluster_node c' t = Some n' \<and> nd_log n' = nd_log n \<and> node_inv n'
    \<and> (nd_commit_index n' = nd_commit_index n \<and> ar_match_index r = nd_commit_index n
         \<and> (ar_snapshot_state r = SnapReceiving \<or> prev_index q < nd_commit_index n)
       \<or> aq_prev_log_id q = None \<and> aq_entries q = [] \<and> ar_match_index r = match_index n
         \<and> nd_commit_index n' = max (nd_commit_index n) (min (aq_leader_commit q) (ar_match_index r)))"
  using assms(1)
proof (cases rule: append_core_cases)
  case (target lease c1 n0 n1)
  then have "n0 = n" using assms(3) by simp
  note same = led_log [OF target(2) [unfolded this]]
  have "node_inv (advance_commit d n1)" for d by (rule advance_commit_inv) (use same(1) assms(4) in simp)
  with append_to_node_answered [OF target(6) assms(2) target(3)] show ?thesis
    using same target(3) assms(4) by auto
qed (use assms(2) in auto)

lemma append_core_taken:
  assumes run: "append_core t q changes c = (Replay r, c1)" and n: "cluster_node c t = Some n" "node_inv n"
    "can_serve_data (nd_replica_role n)" "request_fits q n"
  shows "\<exists>n' k. cluster_node c1 t = Some n' \<and> append_taken q r k n n'
    \<and> (changes = [] \<and> nd_retained_log_bytes n < cf_max_log_buffer_bytes (rc_config c) \<longrightarrow> k = length (aq_entries q))"
  using run
proof (cases rule: append_core_cases)
  case (target lease c2 n0 n1)
  then have n0: "n0 = n" using n(1) by simp
  note same = led_log [OF target(2) [unfolded n0]]
  obtain n' k where "cluster_node c1 t = Some n'" "append_taken q r k n1 n'"
      "changes = [] \<and> \<not> buffer_full q c2 n1 \<longrightarrow> k = length (aq_entries q)"
    using append_to_node_taken [OF target(6,3)] n same by (auto simp: request_fits_def)
  then show ?thesis
    using same(3,6) same(9) [of n'] target(5)
    by (intro exI [of _ n'] exI [of _ k]) (auto simp: append_taken_def not_le)
qed simp

section \<open>Properties\<close>

text \<open>
  C8: What an append answered with success means, for a data replica, by the three ways the
  handler succeeds. (1) It answers its commit index and leaves its log and commit index alone:
  it is installing a snapshot, or the request starts below its commit index; nothing is said of
  the entries of the request. (2) A bare heartbeat: the log is kept, the last index is answered,
  and the commit index moves to the leader's, at most to the last index. (3) It takes the
  request: the match index answered is the index of the last of the first \<open>k\<close> entries, and its log
  then holds the term of each of those entries at its index and the term the request names
  before them; all entries are taken unless the request carries a membership change or the log
  buffer is full; the commit index moves to the leader's, at most to the match index, never back;
  no entry at or below the old commit index is replaced; the replica invariant is kept; and this
  is the replica the handler leaves behind where no later request was waiting in its cache.
\<close>

theorem append_acknowledges_matching_log:
  assumes run: "append_entries_with_membership_change_indexes_to t q changes c = (Inr r, c')" "ar_success r"
    and n: "cluster_node c t = Some n" "node_inv n" "can_serve_data (nd_replica_role n)" "request_fits q n"
  shows "(\<exists>n'. cluster_node c' t = Some n' \<and> nd_log n' = nd_log n \<and> node_inv n'
      \<and> (nd_commit_index n' = nd_commit_index n \<and> ar_match_index r = nd_commit_index n
           \<and> (ar_snapshot_state r = SnapReceiving \<or> prev_index q < nd_commit_index n)
         \<or> aq_prev_log_id q = None \<and> aq_entries q = [] \<and> ar_match_index r = match_index n
           \<and> nd_commit_index n' = max (nd_commit_index n) (min (aq_leader_commit q) (ar_match_index r))))
    \<or> (\<exists>c1 n' k. append_core t q changes c = (Replay r, c1) \<and> cluster_node c1 t = Some n' \<and> node_inv n'
      \<and> k \<le> length (aq_entries q) \<and> ar_match_index r = prev_index q + k
      \<and> (\<forall>e \<in> set (take k (aq_entries q)). log_term_at n' (idx e) = Some (trm e))
      \<and> (\<forall>prev. aq_prev_log_id q = Some prev \<and> 0 < li_index prev \<longrightarrow> log_term_at n' (li_index prev) = Some (li_term prev))
      \<and> (changes = [] \<and> nd_retained_log_bytes n < cf_max_log_buffer_bytes (rc_config c) \<longrightarrow> k = length (aq_entries q))
      \<and> nd_commit_index n' = max (nd_commit_index n) (min (aq_leader_commit q) (ar_match_index r))
      \<and> (\<forall>e \<in> set (nd_log n'). idx e \<le> nd_commit_index n \<longrightarrow> e \<in> set (nd_log n))
      \<and> (cached_appends t c = [] \<longrightarrow> cluster_node c' t = Some n'))"
  using run(1)
proof (cases rule: append_handler_end)
  case 1
  from append_core_answered [OF this run(2) n(1,2)] show ?thesis by (rule disjI1)
next
  case (2 c1)
  obtain n' k where n': "cluster_node c1 t = Some n'" "append_taken q r k n n'"
      "changes = [] \<and> nd_retained_log_bytes n < cf_max_log_buffer_bytes (rc_config c) \<longrightarrow> k = length (aq_entries q)"
    using append_core_taken [OF 2(1) n] by blast
  have "cluster_node c' t = Some n'" if "cached_appends t c = []"
    using append_core_Replay_cache [OF 2(1)] that 2(2) drain_stop [OF n'(1), of 0] n'(1) by auto
  then show ?thesis using 2(1) n' unfolding append_taken_def no_rewrite_def
    by (intro disjI2 exI [of _ c1] exI [of _ n'] exI [of _ k]) blast
qed

definition sample_append :: "node_id \<Rightarrow> raft_term \<Rightarrow> log_id option \<Rightarrow> log_entry list \<Rightarrow> log_index \<Rightarrow> append_entries_request" where
  "sample_append i t prev es commit = \<lparr>aq_group_id = 1, aq_term = t, aq_leader_id = i, aq_prev_log_id = prev,
     aq_entries = es, aq_leader_commit = commit, aq_lease_epoch = 0\<rparr>"

definition deliver :: "node_id \<Rightarrow> append_entries_request \<Rightarrow> raft_cluster \<Rightarrow> raft_cluster" where
  "deliver i q c = snd (append_entries_to i q c)"

abbreviation sample_request :: append_entries_request where
  "sample_request \<equiv> sample_append 1 1 None [sample_log_entry 1 1, sample_log_entry 1 2] 1"

lemma sample_cluster_node: "cluster_node sample_cluster 3 = Some (node_new 3 VoterRole False)"
  by code_simp

text \<open>The match index of an outcome that is a success; an empty replica takes a request of two entries whole.\<close>

definition accepted_match :: "(append_entries_response, raft_cluster) outcome \<Rightarrow> nat option" where
  "accepted_match out = (case fst out of Inr r \<Rightarrow> (if ar_success r then Some (ar_match_index r) else None) | Inl _ \<Rightarrow> None)"

lemma accepted_matchE:
  assumes "accepted_match out = Some m"
  obtains r where "out = (Inr r, snd out)" "ar_success r" "ar_match_index r = m"
  using assms by (cases out) (auto simp: accepted_match_def split: sum.splits if_splits)

theorem append_acknowledges_matching_log_witness:
  "accepted_match (append_entries_to 3 sample_request sample_cluster) = Some 2
   \<and> (\<exists>n'. cluster_node (deliver 3 sample_request sample_cluster) 3 = Some n' \<and> log_term_at n' 1 = Some 1 \<and> log_term_at n' 2 = Some 1)"
proof -
  have m: "accepted_match (append_entries_to 3 sample_request sample_cluster) = Some 2"
    and cache: "cached_appends 3 sample_cluster = []" by code_simp+
  obtain r where r: "append_entries_to 3 sample_request sample_cluster = (Inr r, deliver 3 sample_request sample_cluster)"
      "ar_success r" "ar_match_index r = 2"
    using m unfolding deliver_def by (rule accepted_matchE)
  have h: "request_fits sample_request (node_new 3 VoterRole False)" "can_serve_data (nd_replica_role (node_new 3 VoterRole False))"
    by code_simp+
  have "nd_commit_index (node_new 3 VoterRole False) = 0" "aq_entries sample_request \<noteq> []" "prev_index sample_request = 0" by code_simp+
  with append_acknowledges_matching_log [OF r(1) [unfolded append_entries_to_def] r(2) sample_cluster_node node_inv_new h(2,1)] r(3) cache
  obtain n' k where "cluster_node (deliver 3 sample_request sample_cluster) 3 = Some n'" "2 = k"
      "\<forall>e \<in> set (take k (aq_entries sample_request)). log_term_at n' (idx e) = Some (trm e)"
    by auto
  then show ?thesis using m by (auto simp: sample_append_def sample_log_entry_def)
qed

text \<open>
  C5: The append handler with the replay of cached requests never breaks a replica: every node
  that satisfied the replica invariant still does, its commit index does not move back and no
  entry at or below its commit index is replaced, as long as the bytes of the request and of the
  cached ones fit the byte counter.
\<close>

theorem append_handler_safe:
  fixes changes :: "log_index list"
  assumes "replay_ok t c" "handler_fits t q c" "cluster_node c i = Some n" "node_inv n"
  defines "c' \<equiv> snd (append_entries_with_membership_change_indexes_to t q changes c)"
  shows "\<exists>n'. cluster_node c' i = Some n' \<and> node_inv n' \<and> nd_commit_index n \<le> nd_commit_index n'
    \<and> (\<forall>e \<in> set (nd_log n'). idx e \<le> nd_commit_index n \<longrightarrow> e \<in> set (nd_log n))"
proof -
  have "all_log_safe c c'" unfolding c'_def by (rule append_handler_log_safe [OF assms(1,2)])
  then obtain n' where "cluster_node c' i = Some n'" "node_inv n'" "no_rewrite n n'"
    using assms(3,4) by (rule all_log_safe_target_node)
  then show ?thesis by (auto simp: no_rewrite_def)
qed

lemma sample_replay_ok: "replay_ok 3 sample_cluster" "handler_fits 3 sample_request sample_cluster"
proof -
  have q: "cached_appends 3 sample_cluster = []" by code_simp
  have b: "payload_bytes (nd_log (node_new 3 VoterRole False)) + payload_bytes (aq_entries sample_request) \<le> u64_max"
    "prev_index sample_request + length (aq_entries sample_request) \<le> u64_max" by code_simp+
  show "replay_ok 3 sample_cluster" "handler_fits 3 sample_request sample_cluster"
    using b node_inv_new by (simp_all add: replay_ok_def handler_fits_def q sample_cluster_node cached_bytes_def)
qed

theorem append_handler_safe_witness:
  "\<exists>n'. cluster_node (deliver 3 sample_request sample_cluster) 3 = Some n' \<and> node_inv n' \<and> nd_commit_index n' = 1"
proof -
  have "map_option nd_commit_index (cluster_node (deliver 3 sample_request sample_cluster) 3) = Some 1" by code_simp
  with append_handler_safe [OF sample_replay_ok sample_cluster_node node_inv_new, of "[]"] show ?thesis
    by (auto simp: deliver_def append_entries_to_def)
qed

text \<open>One round of the replay that finds a request the target can place.\<close>

lemma drain_round:
  assumes "replay_ok t c" and n: "cluster_node c t = Some n" and nx: "next_reordered t (match_index n) c = Some (k, r)"
  defines "drain \<equiv> \<lambda>c. drain_reordered_appends (length (cached_appends t c)) t c"
  shows "drain c =
    (case append_entries_with_membership_change_indexes_to t (ra_request r) (ra_membership_change_indexes r) (remove_reordered t k c) of
       (Inl e, c1) \<Rightarrow> (Inl e, c1)
     | (Inr response, c1) \<Rightarrow> (if ar_success response then drain c1 else (Inr (), tidy_reorder_queue t c1)))"
proof -
  let ?h = "append_entries_with_membership_change_indexes_to t (ra_request r) (ra_membership_change_indexes r) (remove_reordered t k c)"
  obtain x c1 where core: "append_core t (ra_request r) (ra_membership_change_indexes r) (remove_reordered t k c) = (x, c1)"
    by fastforce
  note round = replay_round [OF assms(1) n nx core]
  obtain f where f: "length (cached_appends t c) = Suc f" using round(3) by (cases "length (cached_appends t c)") auto
  have one: "drain_reordered_appends f t c1 = drain c1"
    unfolding drain_def using drain_fuel [OF round(1)] round(3) f by simp
  let ?c2 = "snd (drain c1)"
  have ok2: "replay_ok t ?c2" and len2: "length (cached_appends t ?c2) \<le> length (cached_appends t c1)"
    using drain_safe [OF round(1)] by (auto simp: drain_def)
  have two: "drain_reordered_appends f t ?c2 = drain ?c2"
    using len2 round(3) f by (simp only: drain_def) (intro drain_fuel [OF ok2 [unfolded drain_def]], simp_all)
  have "drain c = (case (x, c1) of (Answered (Inl e), c1) \<Rightarrow> (Inl e, c1)
      | (Answered (Inr response), c1) \<Rightarrow>
          (if ar_success response then drain_reordered_appends f t c1 else (Inr (), tidy_reorder_queue t c1))
      | (Replay response, c1) \<Rightarrow>
          (case drain_reordered_appends f t c1 of
             (Inl e, c2) \<Rightarrow> (Inl e, c2) | (Inr _, c2) \<Rightarrow> drain_reordered_appends f t c2))"
    unfolding drain_def by (subst drain_unfold) (simp only: n nx f core option.case prod.case nat.case)
  also have "\<dots> = (case ?h of (Inl e, c1) \<Rightarrow> (Inl e, c1)
      | (Inr response, c1) \<Rightarrow> (if ar_success response then drain c1 else (Inr (), tidy_reorder_queue t c1)))"
  proof (cases x)
    case (Answered y)
    then have "?h = (y, c1)" using core by (simp add: append_entries_with_membership_change_indexes_to_def)
    then show ?thesis unfolding Answered using one by (cases y) simp_all
  next
    case (Replay response)
    obtain y c2 where d: "drain c1 = (y, c2)" by fastforce
    have "?h = (case y of Inl e \<Rightarrow> Inl e | Inr _ \<Rightarrow> Inr response, c2)"
      using core Replay d by (cases y) (simp_all add: append_entries_with_membership_change_indexes_to_def drain_def)
    then show ?thesis
      unfolding Replay using one two d append_core_Replay_success [OF core [unfolded Replay]] by (cases y) simp_all
  qed
  finally show ?thesis .
qed

text \<open>
  C20: The replay always ends. With the number of cached requests as fuel (or any more) it
  satisfies the equation of the source's loop, in which every round takes the first cached request the
  target can now place, hands it to the handler, which replays in turn, and goes on.
\<close>

theorem replay_satisfies_loop:
  assumes "replay_ok t c"
  defines "drain \<equiv> \<lambda>c. drain_reordered_appends (length (cached_appends t c)) t c"
  shows "(\<forall>fuel \<ge> length (cached_appends t c). drain_reordered_appends fuel t c = drain c)
    \<and> drain c = (case cluster_node c t of
         None \<Rightarrow> (Inl (NodeNotFound t), c)
       | Some n \<Rightarrow> (case next_reordered t (match_index n) c of
           None \<Rightarrow> (Inr (), tidy_reorder_queue t c)
         | Some (k, r) \<Rightarrow>
             (case append_entries_with_membership_change_indexes_to t (ra_request r) (ra_membership_change_indexes r)
                     (remove_reordered t k c) of
                (Inl e, c1) \<Rightarrow> (Inl e, c1)
              | (Inr response, c1) \<Rightarrow>
                  (if ar_success response then drain c1 else (Inr (), tidy_reorder_queue t c1)))))" (is "_ \<and> _ = ?loop")
proof
  show "\<forall>fuel \<ge> length (cached_appends t c). drain_reordered_appends fuel t c = drain c"
    unfolding drain_def by (intro allI impI drain_fuel [OF assms(1)]) simp_all
  show "drain c = ?loop"
  proof (cases "cluster_node c t")
    case None
    then have "drain c = (Inl (NodeNotFound t), c)" unfolding drain_def by (subst drain_unfold) simp
    then show ?thesis unfolding None option.case .
  next
    case n: (Some n)
    show ?thesis
    proof (cases "next_reordered t (match_index n) c")
      case None
      then have "drain c = (Inr (), tidy_reorder_queue t c)" unfolding drain_def using drain_stop [OF n] by simp
      then show ?thesis unfolding n None option.case .
    next
      case (Some kr)
      obtain k r where nx: "next_reordered t (match_index n) c = Some (k, r)" using Some by (cases kr) auto
      have "drain c = (case append_entries_with_membership_change_indexes_to t (ra_request r) (ra_membership_change_indexes r)
            (remove_reordered t k c) of (Inl e, c1) \<Rightarrow> (Inl e, c1)
          | (Inr response, c1) \<Rightarrow> (if ar_success response then drain c1 else (Inr (), tidy_reorder_queue t c1)))"
        unfolding drain_def by (rule drain_round [OF assms(1) n nx])
      then show ?thesis unfolding n nx option.case prod.case .
    qed
  qed
qed

abbreviation early_request :: append_entries_request where
  "early_request \<equiv> sample_append 1 1 (Some \<lparr>li_term = 1, li_index = 1\<rparr>) [sample_log_entry 1 2] 0"

definition waiting_cluster :: raft_cluster where
  "waiting_cluster = snd (append_core 3 (sample_append 1 1 None [sample_log_entry 1 1] 0) [] (deliver 3 early_request sample_cluster))"

theorem replay_satisfies_loop_witness:
  "length (cached_appends 3 waiting_cluster) = 1
   \<and> drain_reordered_appends 7 3 waiting_cluster = drain_reordered_appends 1 3 waiting_cluster
   \<and> map_option match_index (cluster_node (snd (drain_reordered_appends 1 3 waiting_cluster)) 3) = Some 2"
proof -
  have "list_all cached_ok (cached_appends 3 waiting_cluster)"
    "case cluster_node waiting_cluster 3 of None \<Rightarrow> False
     | Some n \<Rightarrow> node_inv n \<and> payload_bytes (nd_log n) + cached_bytes (cached_appends 3 waiting_cluster) \<le> u64_max"
    by code_simp+
  then have ok: "replay_ok 3 waiting_cluster" by (simp add: replay_ok_def split: option.splits)
  have len: "length (cached_appends 3 waiting_cluster) = 1" by code_simp
  have "map_option match_index (cluster_node (snd (drain_reordered_appends 1 3 waiting_cluster)) 3) = Some 2" by code_simp
  moreover have "drain_reordered_appends 7 3 waiting_cluster = drain_reordered_appends 1 3 waiting_cluster"
    using replay_satisfies_loop [OF ok, THEN conjunct1, THEN spec, of 7] unfolding len by (rule mp) simp_all
  ultimately show ?thesis using len by (intro conjI)
qed

subsection \<open>Defects\<close>

text \<open>
  A heartbeat commits entries the leader never sent. A request without a previous log id and
  without entries raises the target's commit index up to its own match index and checks no term.
  Here node 3 holds an entry of term 1 at index 2 that its leader never replicated, node 1 takes and
  commits another entry at index 2 from the leader of term 2, and a heartbeat of that leader makes
  node 3 commit its old entry: two replicas have committed different entries at one index.
\<close>

lemma heartbeat_commits_divergent_entry:
  "let e = sample_log_entry 1 1;
       c1 = deliver 3 (sample_append 1 1 None [e, sample_log_entry 1 2] 0) sample_cluster;
       c2 = deliver 1 (sample_append 2 2 None [e, sample_log_entry 2 2] 2) c1;
       c3 = deliver 3 (sample_append 2 2 None [] 2) c2
   in map (\<lambda>n. (nd_id n, nd_commit_index n, log_term_at n 2)) (bt_values (rc_nodes c3))
      = [(1, 2, Some 2), (2, 0, None), (3, 2, Some 1)]"
  by code_simp

definition deliver_change_at_two :: "raft_cluster \<Rightarrow> raft_cluster" where
  "deliver_change_at_two c = snd (append_entries_with_membership_change_indexes_to 3
     (sample_append 2 2 (Some (le_log_id (sample_log_entry 1 1))) [sample_log_entry 2 2] 0) [2] c)"

text \<open>
  A request that removes a conflict forgets the membership change it carries. The change is
  registered while its entry is appended, and the reset after the truncation then drops every
  registered change above the cut, the new one included: the entry at index 2 is in the log, but
  the group has no pending change, so a second one may start. Without the conflict the change is pending.
\<close>

lemma truncation_forgets_membership_change:
  "let e = sample_log_entry 1 1;
       cut = deliver_change_at_two (deliver 3 (sample_append 1 1 None [e, sample_log_entry 1 2] 0) sample_cluster);
       appended = deliver_change_at_two (deliver 3 (sample_append 1 1 None [e] 0) sample_cluster)
   in map_option (\<lambda>n. log_term_at n 2) (cluster_node cut 3) = Some (Some 2)
      \<and> rc_pending_membership_change_index cut = None
      \<and> rc_pending_membership_change_index appended = Some 2"
  by code_simp

end
