(* ===== verification/MR_Election_History.thy ===== *)
theory MR_Election_History
  imports MR_Replay_Safety
begin

text \<open>
  Votes over a whole history: vote requests, appends and campaigns are interleaved as a step
  relation, and a vote once granted stays the only one of its term. The section on defects evaluates
  a run in which a replica's term moves back.
\<close>

section \<open>Appends keep votes\<close>

definition keeps_vote :: "node \<Rightarrow> node \<Rightarrow> bool" where
  "keeps_vote n m \<longleftrightarrow> hs_voted_for (nd_hard_state m) = hs_voted_for (nd_hard_state n) \<and> current_term_of n \<le> current_term_of m"

definition all_keep_votes :: "raft_cluster \<Rightarrow> raft_cluster \<Rightarrow> bool" where
  "all_keep_votes c c' \<longleftrightarrow> (\<forall>i n. cluster_node c i = Some n \<longrightarrow> (\<exists>m. cluster_node c' i = Some m \<and> keeps_vote n m))"

lemma keeps_vote_trans: "keeps_vote a b \<Longrightarrow> keeps_vote b c \<Longrightarrow> keeps_vote a c"
  by (simp add: keeps_vote_def)

lemma all_keep_votes_trans: "all_keep_votes a b \<Longrightarrow> all_keep_votes b c \<Longrightarrow> all_keep_votes a c"
  unfolding all_keep_votes_def by (meson keeps_vote_trans)

lemma all_keep_votes_nodes: "rc_nodes c' = rc_nodes c \<Longrightarrow> all_keep_votes c c'"
  by (auto simp: all_keep_votes_def keeps_vote_def)

lemma all_keep_votes_led:
  assumes "all_led c c'"
  shows "all_keep_votes c c'"
  unfolding all_keep_votes_def
proof (intro allI impI)
  fix i n assume n: "cluster_node c i = Some n"
  have "rel_option led (cluster_node c i) (cluster_node c' i)" using assms by (simp add: all_led_def)
  then obtain m where "cluster_node c' i = Some m" "led n m" unfolding n by (auto elim: option.rel_cases)
  then show "\<exists>m. cluster_node c' i = Some m \<and> keeps_vote n m" by (auto simp: led_def keeps_vote_def)
qed

lemma all_keep_votes_modify:
  assumes "\<And>m. cluster_node c t = Some m \<Longrightarrow> keeps_vote m (f m)"
  shows "all_keep_votes c (modify_node t f c)"
  using assms by (auto simp: all_keep_votes_def keeps_vote_def)

lemma log_ops_keep_hard_state [simp]:
  "nd_hard_state (truncate_log_from i n) = nd_hard_state n"
  "nd_hard_state (append_entry e n) = nd_hard_state n"
  "nd_hard_state (append_witness_entry e' keep n) = nd_hard_state n"
proof -
  show "nd_hard_state (truncate_log_from i n) = nd_hard_state n"
    by (simp add: truncate_log_from_def split: option.split)
  have a: "nd_hard_state (append_entry x m) = nd_hard_state m" for x m
    by (simp add: append_entry_def push_entry_def split: option.split)
  then show "nd_hard_state (append_entry e n) = nd_hard_state n" .
  show "nd_hard_state (append_witness_entry e' keep n) = nd_hard_state n"
    by (simp add: append_witness_entry_def a acknowledge_witness_index_def)
qed

lemma append_loop_hard_state:
  "nd_hard_state (ap_node (snd (append_loop changes applied cap es s))) = nd_hard_state (ap_node s)"
proof (induction es arbitrary: s cap)
  case (Cons e es)
  have cut: "nd_hard_state (ap_node (cut_conflict e s)) = nd_hard_state (ap_node s)"
    by (simp add: cut_conflict_def)
  show ?case by (simp add: Let_def Cons.IH cut split: option.split)
qed simp

lemma term_frame [simp]:
  "rc_current_term (refresh_cluster_indexes c) = rc_current_term c"
  "rc_current_term (clear_reorder_queue_for t c) = rc_current_term c"
  "rc_current_term (reset_pending_membership_change_after_truncation a b c) = rc_current_term c"
  "rc_current_term (cache_reordered_append t q ch c) = rc_current_term c"
  "rc_current_term (remove_reordered t k c) = rc_current_term c" "rc_current_term (tidy_reorder_queue t c) = rc_current_term c"
  "rc_current_term (renew_follower_lease_from_append_entries e c) = rc_current_term c"
  by (simp_all add: refresh_cluster_indexes_def Let_def clear_reorder_queue_for_def
      reset_pending_membership_change_after_truncation_def cache_reordered_append_def remove_reordered_def
      tidy_reorder_queue_def renew_follower_lease_from_append_entries_def receive_follower_lease_item_def
      renew_follower_lease_def split: option.splits)

lemma append_finish_votes:
  assumes "append_finish t q lease s c = (x, c')" "cluster_node c t = Some n" "keeps_vote n (ap_node s)"
  shows "all_keep_votes c c' \<and> rc_current_term c' = rc_current_term c"
proof -
  let ?f = "\<lambda>_. advance_commit (min (aq_leader_commit q)
      (if ap_count s = 0 then min (match_index (ap_node s)) (sat_add (prev_index q) (length (aq_entries q)))
       else match_index (ap_node s))) (ap_node s)"
  have "rc_nodes c' = rc_nodes (modify_node t ?f c)" "rc_current_term c' = rc_current_term c"
    using assms(1) by (auto simp: append_finish_def Let_def split: option.splits)
  moreover have "all_keep_votes c (modify_node t ?f c)"
    by (rule all_keep_votes_modify) (use assms(2,3) in \<open>simp add: keeps_vote_def\<close>)
  ultimately show ?thesis by (auto simp: all_keep_votes_def)
qed

lemma append_begin_votes: "current_term_of n = aq_term q \<Longrightarrow> keeps_vote n (ap_node (append_begin q c n))"
  by (simp add: keeps_vote_def append_begin_def)

lemma append_loop_votes:
  assumes "append_loop changes applied cap es (append_begin q c n) = (r, s)" "current_term_of n = aq_term q"
  shows "keeps_vote n (ap_node s)"
  using append_begin_votes [OF assms(2), of c] append_loop_hard_state [of changes applied cap es "append_begin q c n"]
  by (simp add: assms(1) keeps_vote_def)

lemma append_to_node_votes:
  assumes "append_to_node t q changes lease n c = (x, c')" "cluster_node c t = Some n" "current_term_of n = aq_term q"
  shows "all_keep_votes c c' \<and> rc_current_term c' = rc_current_term c"
  using assms(1)
proof (cases rule: append_to_node_cases)
  case (kept y)
  then show ?thesis by (auto simp: all_keep_votes_nodes)
next
  case (heartbeat y d)
  have "all_keep_votes c (modify_node t (\<lambda>_. advance_commit d n) c)"
    by (rule all_keep_votes_modify) (use assms(2) in \<open>simp add: keeps_vote_def\<close>)
  then show ?thesis using heartbeat by (auto simp: all_keep_votes_def)
next
  case (stopped y s e)
  have "all_keep_votes c (modify_node t (\<lambda>_. ap_node s) c)"
    by (rule all_keep_votes_modify) (use assms(2) append_loop_votes [OF stopped(3) assms(3)] in simp)
  then show ?thesis using stopped(4) by simp
next
  case (finished s)
  show ?thesis by (rule append_finish_votes [OF finished(3) assms(2) append_loop_votes [OF finished(2) assms(3)]])
qed

lemma append_core_votes:
  assumes "append_core t q changes c = (x, c')"
  shows "all_keep_votes c c'"
  using assms
proof (cases rule: append_core_cases)
  case (refused y)
  then show ?thesis by (simp add: all_keep_votes_led)
next
  case (target lease c1 n0 n)
  have "all_keep_votes c1 c'" using append_to_node_votes [OF target(6,3,7)] by simp
  with all_keep_votes_led [OF target(4)] show ?thesis by (rule all_keep_votes_trans)
qed

lemma append_core_term: "rc_current_term c \<le> rc_current_term (snd (append_core t q changes c))"
proof -
  have adopt: "rc_current_term c \<le> rc_current_term (adopt_append_leader q c)"
    by (simp add: adopt_append_leader_def Let_def)
  obtain lease c1 where c1: "grant_append_lease t q (adopt_append_leader q c) = (lease, c1)" by fastforce
  then have le: "rc_current_term c \<le> rc_current_term c1"
    using adopt by (auto simp: grant_append_lease_def Let_def split: if_splits)
  have node: "rc_current_term c1 \<le> rc_current_term (snd (append_to_node t q changes lease (follow_term (aq_term q) n)
      (modify_node t (follow_term (aq_term q)) c1)))"
    if "cluster_node c1 t = Some n" "\<not> aq_term q < current_term_of n" for n
  proof -
    obtain x c' where run: "append_to_node t q changes lease (follow_term (aq_term q) n)
        (modify_node t (follow_term (aq_term q)) c1) = (x, c')" by fastforce
    have "current_term_of (follow_term (aq_term q) n) = aq_term q" using that(2) by (simp add: follow_term_def)
    then show ?thesis using append_to_node_votes [OF run] that(1) run by simp
  qed
  show ?thesis using le node c1 by (auto simp: append_core_def split: option.split intro: order_trans)
qed

definition vote_mono :: "raft_cluster \<Rightarrow> raft_cluster \<Rightarrow> bool" where
  "vote_mono c c' \<longleftrightarrow> all_keep_votes c c' \<and> rc_current_term c \<le> rc_current_term c'"

lemma vote_mono_trans: "vote_mono a b \<Longrightarrow> vote_mono b c \<Longrightarrow> vote_mono a c"
  unfolding vote_mono_def by (meson all_keep_votes_trans order_trans)

lemma vote_mono_frame: "rc_nodes c' = rc_nodes c \<Longrightarrow> rc_current_term c' = rc_current_term c \<Longrightarrow> vote_mono c c'"
  by (simp add: vote_mono_def all_keep_votes_nodes)

lemma append_core_mono: "append_core t q changes c = (x, c') \<Longrightarrow> vote_mono c c'"
  unfolding vote_mono_def using append_core_votes [of t q changes c x c'] append_core_term [of c t q changes] by simp

lemma drain_votes: "vote_mono c (snd (drain_reordered_appends fuel t c))"
proof (induction fuel arbitrary: c)
  case 0
  then show ?case by (subst drain_unfold) (simp add: vote_mono_frame split: option.split)
next
  case (Suc f)
  have tidy: "vote_mono d (tidy_reorder_queue t d)" for d by (rule vote_mono_frame) simp_all
  show ?case
  proof (cases "cluster_node c t")
    case None
    then show ?thesis by (subst drain_unfold) (simp add: vote_mono_frame)
  next
    case n: (Some n)
    show ?thesis
    proof (cases "next_reordered t (match_index n) c")
      case None
      then show ?thesis using drain_stop [OF n, of "Suc f"] tidy by simp
    next
      case (Some kr)
      obtain k r where nx: "next_reordered t (match_index n) c = Some (k, r)" using Some by (cases kr) auto
      obtain x c1 where core: "append_core t (ra_request r) (ra_membership_change_indexes r) (remove_reordered t k c) = (x, c1)"
        by fastforce
      have "vote_mono c (remove_reordered t k c)" by (rule vote_mono_frame) simp_all
      then have c1: "vote_mono c c1" by (rule vote_mono_trans [OF _ append_core_mono [OF core]])
      have d1: "vote_mono c (snd (drain_reordered_appends f t c1))" by (rule vote_mono_trans [OF c1 Suc.IH])
      have d2: "vote_mono c (snd (drain_reordered_appends f t (snd (drain_reordered_appends f t c1))))"
        by (rule vote_mono_trans [OF d1 Suc.IH])
      show ?thesis
        using n nx core c1 d1 d2 vote_mono_trans [OF c1 tidy]
        by (subst drain_unfold) (auto split: append_end.split sum.split prod.split)
    qed
  qed
qed

lemma append_handler_votes: "vote_mono c (snd (append_entries_with_membership_change_indexes_to t q changes c))"
proof -
  obtain x c1 where core: "append_core t q changes c = (x, c1)" by fastforce
  have c1: "vote_mono c c1" by (rule append_core_mono [OF core])
  have "vote_mono c (snd (drain_reordered_appends (length (cached_appends t c1)) t c1))"
    by (rule vote_mono_trans [OF c1 drain_votes])
  then show ?thesis using core c1
    by (auto simp: append_entries_with_membership_change_indexes_to_def split: append_end.split sum.split prod.split)
qed

section \<open>A vote that holds\<close>

text \<open>Node \<open>t\<close> has voted for \<open>k\<close> in term \<open>T\<close>, or is past that term.\<close>

definition pinned :: "raft_term \<Rightarrow> node_id \<Rightarrow> node_id \<Rightarrow> raft_cluster \<Rightarrow> bool" where
  "pinned T k t c \<longleftrightarrow> T \<le> rc_current_term c
     \<and> (case cluster_node c t of None \<Rightarrow> False
        | Some n \<Rightarrow> T \<le> current_term_of n \<and> (current_term_of n = T \<longrightarrow> hs_voted_for (nd_hard_state n) = Some k))"

lemma pinned_mono:
  assumes "vote_mono c c'" "pinned T k t c"
  shows "pinned T k t c'"
proof (cases "cluster_node c t")
  case (Some n)
  then obtain m where "cluster_node c' t = Some m" "keeps_vote n m"
    using assms(1) by (auto simp: vote_mono_def all_keep_votes_def)
  then show ?thesis using assms Some by (auto simp: pinned_def vote_mono_def keeps_vote_def)
qed (use assms(2) in \<open>simp add: pinned_def\<close>)

lemma pinned_observe [simp]: "pinned T k t (observe_vote_request_candidate i j pv c) = pinned T k t c"
  by (cases "cluster_node c t") (simp_all add: pinned_def observe_vote_request_candidate_def)

lemma pinned_adopt: "pinned T k t c \<Longrightarrow> pinned T k t (adopt_request_term i x c)"
  by (cases "cluster_node c t") (auto simp: pinned_def adopt_request_term_def)

lemma pinned_cast:
  assumes "pinned T k t c" "cast_vote i q n c = (r, c')" "cluster_node c i = Some n"
  shows "pinned T k t c'"
proof (cases rule: cast_vote_cases [of i q n c])
  case (kept r')
  then show ?thesis using assms by simp
next
  case (moved r')
  then have "c' = modify_node i (\<lambda>m. m\<lparr>nd_hard_state := vote_state q (nd_hard_state n)\<rparr>) c" using assms(2) by simp
  then show ?thesis using assms(1,3)
    by (cases "cluster_node c t") (auto simp: pinned_def vote_state_def split: if_splits)
next
  case (granted r')
  then have c': "c' = granted_cluster i q n c" using assms(2) by simp
  show ?thesis using assms(1,3) granted(5,6)
    by (cases "cluster_node c t")
      (auto simp: c' pinned_def granted_cluster_node granted_cluster_term vote_state_def split: if_splits)
qed

lemma pinned_vote:
  assumes "pinned T k t c"
  shows "pinned T k t (snd (vote_to i q c))"
proof -
  obtain r c' where run: "vote_to i q c = (r, c')" by fastforce
  show ?thesis
  proof (cases rule: vote_to_cases [OF run])
    case 1
    then show ?thesis using run assms by auto
  next
    case (2 n0 n1 v)
    have "pinned T k t (adopt_request_term i (vq_term q)
        (observe_vote_request_candidate i (vq_candidate_id q) (vq_pre_vote q) c))"
      by (rule pinned_adopt) (simp add: assms)
    then show ?thesis using run pinned_cast 2(5,6) by simp
  qed
qed

lemma pinned_append: "pinned T k t c \<Longrightarrow> pinned T k t (snd (append_entries_with_membership_change_indexes_to i q changes c))"
  by (rule pinned_mono [OF append_handler_votes])

section \<open>Campaigns\<close>

lemma all_keep_votes_modify_all: "(\<And>m. keeps_vote m (f m)) \<Longrightarrow> all_keep_votes c (modify_nodes f c)"
  by (simp add: all_keep_votes_def)

lemma refresh_commit_mono: "vote_mono c (refresh_commit_index c)"
proof -
  have "vote_mono c (refresh_cluster_indexes (modify_nodes (\<lambda>n. if nd_healthy n then advance_commit k n else n)
      (c\<lparr>rc_commit_index := k\<rparr>)))" for k
    by (auto simp: vote_mono_def all_keep_votes_def keeps_vote_def)
  then show ?thesis
    by (simp add: refresh_commit_index_def vote_mono_frame Let_def split: option.split)
qed

lemma refresh_witness_mono: "vote_mono c (snd (refresh_witness_commit_quorum_policy c))"
proof -
  let ?c = "c\<lparr>rc_count_witness_in_commit_quorum := b\<rparr>"
  have set: "vote_mono c (c\<lparr>rc_count_witness_in_commit_quorum := b\<rparr>)" for b by (rule vote_mono_frame) simp_all
  show ?thesis
    unfolding refresh_witness_commit_quorum_policy_def Let_def snd_conv
    using set vote_mono_trans [OF set refresh_commit_mono] by (simp split: if_split)
qed

lemma reset_pipelines_frame [simp]:
  "rc_nodes (reset_replication_pipelines_for_leader i c) = rc_nodes c"
  "rc_current_term (reset_replication_pipelines_for_leader i c) = rc_current_term c"
proof -
  have "rc_nodes (reset_pipeline_for i j d) = rc_nodes d \<and> rc_current_term (reset_pipeline_for i j d) = rc_current_term d" for j d
    by (simp add: reset_pipeline_for_def modify_pipeline_def entry_pipeline_def Let_def)
  then have "rc_nodes (fold (reset_pipeline_for i) js d) = rc_nodes d
      \<and> rc_current_term (fold (reset_pipeline_for i) js d) = rc_current_term d" for js d
    by (induction js arbitrary: d) simp_all
  then show "rc_nodes (reset_replication_pipelines_for_leader i c) = rc_nodes c"
    "rc_current_term (reset_replication_pipelines_for_leader i c) = rc_current_term c"
    by (simp_all add: reset_replication_pipelines_for_leader_def)
qed

lemma broadcast_noop_mono: "vote_mono c (snd (broadcast_leader_noop c))"
proof -
  have keep: "keeps_vote m (receive_noop j e m)" for j e m by (simp add: receive_noop_def keeps_vote_def)
  have "vote_mono c (refresh_cluster_indexes (modify_nodes (receive_noop j e) (c\<lparr>rc_last_log_index := i\<rparr>)))" for j e i
    by (auto simp: vote_mono_def all_keep_votes_def intro: keep)
  then show ?thesis by (simp add: broadcast_leader_noop_def vote_mono_frame Let_def split: option.split sum.split)
qed

text \<open>A campaign moves every replica to a term that was never used.\<close>

lemma pinned_install:
  assumes "pinned T k t c" "cluster_node c' t = map_option f (cluster_node c t)" "T < x" "rc_current_term c' = x"
    "\<And>m. current_term_of (f m) = x"
  shows "pinned T k t c'"
  using assms by (cases "cluster_node c t") (auto simp: pinned_def)

definition campaigned :: "node_id \<Rightarrow> raft_term \<Rightarrow> raft_cluster \<Rightarrow> raft_cluster" where
  "campaigned i x c = modify_nodes (install_vote Leader i x)
     (invalidate_follower_lease (reset_leader_lease_epoch (settle_leader_transfer i (clear_reorder_queues
       (c\<lparr>rc_last_index_before_current_term := rc_last_log_index c, rc_current_term := x,
          rc_leader_id := Some i, rc_vote_responses := [], rc_pre_vote_responses := []\<rparr>)))))"

lemma campaign_ends:
  fixes c :: raft_cluster and i :: node_id
  defines "led_group \<equiv> \<lambda>x. reset_replication_pipelines_for_leader i
     (snd (refresh_witness_commit_quorum_policy (campaigned i x c)))"
  obtains (idle) "snd (campaign i forced c) = c"
  | (lead) x where "checked_succ (rc_current_term c) = Some x"
      "snd (campaign i forced c) = led_group x \<or> snd (campaign i forced c) = snd (broadcast_leader_noop (led_group x))"
proof -
  have bc: "snd (case b of (Inl e, d) \<Rightarrow> (Inl e, d) | (Inr _, d) \<Rightarrow> (Inr (), d)) = snd b"
    for b :: "(log_id, raft_cluster) outcome" by (simp split: prod.split sum.split)
  let ?stop = "(\<not> rc_running c \<or> rc_prohibits_election c \<or> is_follower_lease_valid c) \<and> \<not> forced
      \<or> checked_succ (rc_current_term c) = None
      \<or> (case cluster_node c i of None \<Rightarrow> True | Some n \<Rightarrow> \<not> can_be_leader (nd_replica_role n) \<or> \<not> nd_healthy n
           \<or> rc_leader_id c = Some i \<and> nd_raft_role n = Leader)"
  show thesis
  proof (cases ?stop)
    case True
    then have "snd (campaign i forced c) = c" by (auto simp: campaign_def split: option.split)
    then show thesis by (rule idle)
  next
    case False
    then obtain n x where n: "cluster_node c i = Some n" and x: "checked_succ (rc_current_term c) = Some x"
      by (cases "cluster_node c i") auto
    have go: "(\<not> rc_running c \<and> \<not> forced) = False" "(rc_prohibits_election c \<and> \<not> forced) = False"
        "(is_follower_lease_valid c \<and> \<not> forced) = False" "can_be_leader (nd_replica_role n) = True" "nd_healthy n = True"
        "(rc_leader_id c = Some i \<and> nd_raft_role n = Leader) = False"
      using False n by auto
    have "campaign i forced c = (if rc_running c
         then (case broadcast_leader_noop (led_group x) of (Inl e, d) \<Rightarrow> (Inl e, d) | (Inr _, d) \<Rightarrow> (Inr (), d))
         else (Inr (), led_group x))"
      unfolding campaign_def n x go option.case if_False not_True_eq_False
      by (simp add: Let_def led_group_def campaigned_def)
    then show thesis using lead [OF x] bc by (auto split: if_splits)
  qed
qed

lemma pinned_campaign:
  assumes "pinned T k t c"
  shows "pinned T k t (snd (campaign i forced c))"
proof (cases rule: campaign_ends [of i forced c])
  case (lead x)
  let ?c4 = "snd (refresh_witness_commit_quorum_policy (campaigned i x c))"
  let ?c5 = "reset_replication_pipelines_for_leader i ?c4"
  have "T < x" using assms lead(1) by (auto simp: pinned_def checked_succ_def split: if_splits)
  then have c3: "pinned T k t (campaigned i x c)"
    by (intro pinned_install [OF assms, where f = "install_vote Leader i x"]) (simp_all add: campaigned_def install_vote_def)
  have "vote_mono ?c4 ?c5" by (rule vote_mono_frame) simp_all
  then have c5: "pinned T k t ?c5" using pinned_mono refresh_witness_mono c3 by blast
  show ?thesis using lead(2) c5 pinned_mono [OF broadcast_noop_mono c5] by auto
qed (simp add: assms)

lemma pinned_timeout_now: "pinned T k t c \<Longrightarrow> pinned T k t (snd (timeout_now i j c))"
  using pinned_campaign [of T k t c j True] by (auto simp: timeout_now_def split: option.splits prod.splits sum.splits)

lemma pinned_start_vote:
  assumes "pinned T k t c" "T < u64_max"
  shows "pinned T k t (snd (start_vote_after_pre_vote_quorum i c))"
proof -
  have "T < sat_add (rc_current_term c) 1" using assms by (auto simp: pinned_def sat_add_def)
  then show ?thesis
    using assms(1) pinned_install [OF assms(1), where f = "install_vote Candidate i (sat_add (rc_current_term c) 1)"]
    by (auto simp: start_vote_after_pre_vote_quorum_def Let_def install_vote_def split: option.splits)
qed

section \<open>Histories\<close>

text \<open>One message or one campaign, whoever it is addressed to and whatever it says.\<close>

inductive message_step :: "raft_cluster \<Rightarrow> raft_cluster \<Rightarrow> bool" where
  vote: "message_step c (snd (vote_to i q c))"
| append: "message_step c (snd (append_entries_with_membership_change_indexes_to i r changes c))"
| campaign: "message_step c (snd (campaign i forced c))"
| timeout_now: "message_step c (snd (timeout_now j i c))"
| start_vote: "message_step c (snd (start_vote_after_pre_vote_quorum i c))"

lemma pinned_step: "message_step c c' \<Longrightarrow> pinned T k t c \<Longrightarrow> T < u64_max \<Longrightarrow> pinned T k t c'"
  by (cases rule: message_step.cases)
    (auto intro: pinned_vote pinned_append pinned_campaign pinned_timeout_now pinned_start_vote)

lemma pinned_steps: "message_step\<^sup>*\<^sup>* c c' \<Longrightarrow> pinned T k t c \<Longrightarrow> T < u64_max \<Longrightarrow> pinned T k t c'"
  by (induction rule: rtranclp_induct) (auto intro: pinned_step)

lemma pinned_granted:
  assumes "vote_to t q c = (Inr r, c')" "vr_vote_granted r" "\<not> vq_pre_vote q"
  shows "pinned (vq_term q) (vq_candidate_id q) t c'"
proof (cases rule: vote_to_cases [OF assms(1)])
  case 1
  then show ?thesis using assms by auto
next
  case (2 n0 n1 v)
  have "vq_term q \<le> rc_current_term c'" using cast_vote_granted [OF 2(6)] 2(7) assms(2) by simp
  then show ?thesis using vote_to_granted [OF assms] by (auto simp: pinned_def)
qed

text \<open>
  C3: A replica votes for one candidate per term. Once it granted a vote, then after any sequence
  of vote requests, appends (with replay of early ones), campaigns and timeouts, every vote it
  grants in the same term goes to the same candidate.
\<close>

theorem vote_once_per_term:
  assumes "vote_to t q1 c = (Inr r1, c1)" "vr_vote_granted r1" "\<not> vq_pre_vote q1"
    and "message_step\<^sup>*\<^sup>* c1 c2"
    and "vote_to t q2 c2 = (Inr r2, c3)" "vr_vote_granted r2" "\<not> vq_pre_vote q2"
    and "vq_term q1 = vq_term q2" "vq_term q1 < u64_max"
  shows "vq_candidate_id q1 = vq_candidate_id q2"
proof -
  have "pinned (vq_term q1) (vq_candidate_id q1) t c2"
    by (rule pinned_steps [OF assms(4) pinned_granted [OF assms(1-3)] assms(9)])
  then have "pinned (vq_term q1) (vq_candidate_id q1) t c3" using pinned_vote [of _ _ t c2 t q2] assms(5) by simp
  then show ?thesis using vote_to_granted [OF assms(5-7)] assms(8) by (auto simp: pinned_def)
qed

definition history_cluster :: raft_cluster where
  "history_cluster = deliver 3 (sample_append 1 5 None [sample_log_entry 5 1] 0) (snd (vote_to 3 (sample_vote 1 5) sample_cluster))"

theorem vote_once_per_term_witness:
  "vote_outcome (vote_to 3 (sample_vote 1 5) sample_cluster)
   \<and> message_step\<^sup>*\<^sup>* (snd (vote_to 3 (sample_vote 1 5) sample_cluster)) history_cluster
   \<and> \<not> vote_outcome (vote_to 3 (sample_vote 2 5) history_cluster)"
proof -
  let ?c1 = "snd (vote_to 3 (sample_vote 1 5) sample_cluster)"
  have 1: "vote_outcome (vote_to 3 (sample_vote 1 5) sample_cluster)" by code_simp
  then obtain r where r: "vote_to 3 (sample_vote 1 5) sample_cluster = (Inr r, ?c1)" "vr_vote_granted r"
    by (rule vote_outcomeE)
  have pv: "\<not> vq_pre_vote (sample_vote i 5)" for i by (simp add: sample_vote_def)
  have step: "message_step\<^sup>*\<^sup>* ?c1 history_cluster"
    unfolding history_cluster_def deliver_def append_entries_to_def by (intro r_into_rtranclp message_step.append)
  have "\<not> vote_outcome (vote_to 3 (sample_vote 2 5) history_cluster)"
  proof
    assume "vote_outcome (vote_to 3 (sample_vote 2 5) history_cluster)"
    then obtain r2 where "vote_to 3 (sample_vote 2 5) history_cluster
        = (Inr r2, snd (vote_to 3 (sample_vote 2 5) history_cluster))" "vr_vote_granted r2"
      by (rule vote_outcomeE)
    from vote_once_per_term [OF r pv step this pv] show False by (simp add: sample_vote_def u64_max_def)
  qed
  with 1 step show ?thesis by simp
qed

section \<open>Defects\<close>

text \<open>
  A vote can move a replica's term back. An append of the known leader with a higher term
  raises the target's term but not the group's, since the leader is already known; a later vote
  request with a term between the two counts as newer than the group's term and sets the
  target's term down to its own.
\<close>

lemma vote_lowers_term:
  "let c1 = deliver 3 (sample_append 1 1 None [] 0) sample_cluster;
       c2 = deliver 3 (sample_append 1 9 None [] 0) c1;
       c3 = snd (vote_to 3 (sample_vote 2 5) c2)
   in (rc_current_term c2, map current_term_of (bt_values (rc_nodes c2)), map current_term_of (bt_values (rc_nodes c3)))
      = (1, [0, 0, 9], [0, 0, 5])"
  by code_simp

end
