(* ===== verification/MR_Replication.thy ===== *)
theory MR_Replication
  imports MR_Append
begin

text \<open>
  Replication of \<^verbatim>\<open>facade/cluster_runtime.rs\<close> as the leader drives it: snapshot triggers, log
  compaction and memory release, catching up a peer, promotion of learners, append and vote
  responses, proposals, heartbeats, leader transfers and membership changes. Loops that copy node
  ids or log entries in chunks of sixteen visit each one once and in order; they are folds.
\<close>

section \<open>Snapshot triggers\<close>

definition resolve_snapshot_trigger_timeout_ticks :: "raft_cluster \<Rightarrow> u64" where
  "resolve_snapshot_trigger_timeout_ticks c =
     (if 0 < cf_snapshot_trigger_timeout_ticks (rc_config c) then cf_snapshot_trigger_timeout_ticks (rc_config c)
      else max (60000 div max (cf_heartbeat_interval_ms (rc_config c)) 1) 1)"

definition snapshot_members :: "raft_cluster \<Rightarrow> peer list" where
  "snapshot_members c = map (\<lambda>n. \<lparr>pr_node_id = nd_id n, pr_raft_addr = [], pr_snapshot_addr = [],
     pr_role = nd_replica_role n, pr_auto_promote = nd_auto_promote n\<rparr>) (bt_values (rc_nodes c))"

definition trigger_snapshot :: "raft_cluster \<Rightarrow> (snapshot_metadata, raft_cluster) outcome" where
  "trigger_snapshot c = (case require_running ''trigger a snapshot'' c of
     Inl e \<Rightarrow> (Inl e, c)
   | Inr _ \<Rightarrow> (case rc_snapshot_trigger c of
       Some t \<Rightarrow> (Inr (tg_meta t),
         c\<lparr>rc_duplicate_snapshot_trigger_requests := wrap_add (rc_duplicate_snapshot_trigger_requests c) 1\<rparr>)
     | None \<Rightarrow>
        (let meta = \<lparr>sm_snapshot_id = show_nat (rc_group_id c) @ ''-'' @ show_nat (rc_commit_index c),
                     sm_last_log_id = \<lparr>li_term = rc_current_term c, li_index = rc_commit_index c\<rparr>,
                     sm_membership = bt_keys (rc_nodes c), sm_members = snapshot_members c, sm_payload_bytes = 0\<rparr>
         in (Inr meta, c\<lparr>rc_snapshot_trigger := Some \<lparr>tg_meta = meta, tg_elapsed_ticks = 0,
               tg_timeout_ticks = resolve_snapshot_trigger_timeout_ticks c, tg_timed_out = False\<rparr>\<rparr>))))"

definition tick_snapshot_trigger :: "raft_cluster \<Rightarrow> bool \<times> raft_cluster" where
  "tick_snapshot_trigger c = (case rc_snapshot_trigger c of
     None \<Rightarrow> (False, c)
   | Some t \<Rightarrow>
      (let t1 = t\<lparr>tg_elapsed_ticks := sat_add (tg_elapsed_ticks t) 1\<rparr>;
           due = (\<not> tg_timed_out t1 \<and> tg_timeout_ticks t1 \<le> tg_elapsed_ticks t1)
       in (due, c\<lparr>rc_snapshot_trigger := Some (if due then t1\<lparr>tg_timed_out := True\<rparr> else t1)\<rparr>)))"

definition complete_snapshot_trigger :: "string \<Rightarrow> raft_cluster \<Rightarrow> (unit, raft_cluster) outcome" where
  "complete_snapshot_trigger snapshot_id c = (case rc_snapshot_trigger c of
     None \<Rightarrow> (Inl (InvalidRequest ''no snapshot trigger is in progress''), c)
   | Some t \<Rightarrow>
      (if sm_snapshot_id (tg_meta t) \<noteq> snapshot_id
       then (Inl (InvalidRequest (''snapshot trigger mismatch: expected '' @ sm_snapshot_id (tg_meta t) @ '', got '' @ snapshot_id)), c)
       else (Inr (), c\<lparr>rc_snapshot_trigger := None\<rparr>)))"

definition retained_leader_entries :: "raft_cluster \<Rightarrow> u64" where
  "retained_leader_entries c = (case Option.bind (rc_leader_id c) (cluster_node c) of
     Some n \<Rightarrow> length (nd_log n) | None \<Rightarrow> 0)"

definition snapshot_is_due :: "raft_cluster \<Rightarrow> bool" where
  "snapshot_is_due c = (if \<not> cf_can_trigger_snapshot (rc_config c) \<or> rc_snapshot_trigger c \<noteq> None then False
     else cf_snapshot_threshold_entries (rc_config c) \<le> retained_leader_entries c)"

text \<open>Offering a finished snapshot: each waiting pipeline starts a transfer; an error ends the loop.\<close>

fun offer_snapshot :: "node_id \<Rightarrow> string \<Rightarrow> log_index \<Rightarrow> (node_id \<times> replication_pipeline) list
    \<Rightarrow> (unit, (node_id \<times> replication_pipeline) list) outcome" where
  "offer_snapshot leader_id snapshot_id i [] = (Inr (), [])"
| "offer_snapshot leader_id snapshot_id i ((p, pl) # ps) =
     (let s = rp_status pl
      in if p \<noteq> leader_id \<and> 0 < pp_required_snapshot_index s \<and> pp_required_snapshot_index s \<le> i
            \<and> \<not> pp_snapshot_sending s \<and> \<not> pp_snapshot_installing s
         then (case begin_snapshot_send snapshot_id i 1 pl of
                 (Inl e, pl1) \<Rightarrow> (Inl e, (p, pl1) # ps)
               | (Inr _, pl1) \<Rightarrow> (case offer_snapshot leader_id snapshot_id i ps of (r, ps1) \<Rightarrow> (r, (p, pl1) # ps1)))
         else (case offer_snapshot leader_id snapshot_id i ps of (r, ps1) \<Rightarrow> (r, (p, pl) # ps1)))"

definition publish_ready_snapshot_to_waiting_peers :: "snapshot_metadata \<Rightarrow> raft_cluster \<Rightarrow> (unit, raft_cluster) outcome" where
  "publish_ready_snapshot_to_waiting_peers meta c = (case rc_leader_id c of
     None \<Rightarrow> (Inr (), c)
   | Some leader_id \<Rightarrow>
      (let i = li_index (sm_last_log_id meta);
           c1 = modify_node leader_id (\<lambda>n. if snapshot_index n \<le> i then n\<lparr>nd_installed_snapshot := Some meta\<rparr> else n) c
       in case offer_snapshot leader_id (sm_snapshot_id meta) i (rc_peer_pipelines c1) of
            (r, ps) \<Rightarrow> (r, c1\<lparr>rc_peer_pipelines := ps\<rparr>)))"

definition handle_snapshot_ready :: "string \<Rightarrow> bool \<Rightarrow> raft_cluster \<Rightarrow> (unit, raft_cluster) outcome" where
  "handle_snapshot_ready snapshot_id success c = (case rc_snapshot_trigger c of
     None \<Rightarrow> (Inr (), c)
   | Some t \<Rightarrow>
      (if sm_snapshot_id (tg_meta t) \<noteq> snapshot_id then (Inr (), c)
       else (let c1 = c\<lparr>rc_snapshot_trigger := None\<rparr>
             in if success then publish_ready_snapshot_to_waiting_peers (tg_meta t) c1 else (Inr (), c1))))"

section \<open>Compaction and memory\<close>

definition compact_node :: "node_id option \<Rightarrow> log_index option \<Rightarrow> log_index \<Rightarrow> node \<Rightarrow> nat \<times> node" where
  "compact_node leader_id leader_limit i n =
     compact_log_through (if Some (nd_id n) = leader_id
       then (case leader_limit of Some l \<Rightarrow> min i l | None \<Rightarrow> i) else i) n"

definition compact_logs_through_with_leader_limit :: "log_index \<Rightarrow> log_index option \<Rightarrow> raft_cluster \<Rightarrow> u64 \<times> raft_cluster" where
  "compact_logs_through_with_leader_limit i leader_limit c =
     (let f = compact_node (rc_leader_id c) leader_limit i
      in (sum_list (map (fst \<circ> f) (bt_values (rc_nodes c))), refresh_cluster_indexes (modify_nodes (snd \<circ> f) c)))"

definition compact_logs_through :: "log_index \<Rightarrow> raft_cluster \<Rightarrow> u64 \<times> raft_cluster" where
  "compact_logs_through i c =
     compact_logs_through_with_leader_limit i
       (case rc_leader_id c of None \<Rightarrow> None
        | Some l \<Rightarrow> (case min_replicated_index l c of Inl _ \<Rightarrow> None | Inr m \<Rightarrow> Some m)) c"

definition is_busy :: "raft_cluster \<Rightarrow> bool" where
  "is_busy c = (case Option.bind (rc_leader_id c) (cluster_node c) of
     None \<Rightarrow> False | Some n \<Rightarrow> cf_max_log_buffer_bytes (rc_config c) \<le> nd_retained_log_bytes n)"

definition should_release_memory :: "raft_cluster \<Rightarrow> bool" where
  "should_release_memory c = (case Option.bind (rc_leader_id c) (cluster_node c) of
     None \<Rightarrow> False
   | Some n \<Rightarrow> max (sat_mul (cf_max_log_buffer_bytes (rc_config c)) 9 div 10) 1 \<le> nd_retained_log_bytes n)"

definition release_memory_to :: "log_index \<Rightarrow> log_index option \<Rightarrow> raft_cluster \<Rightarrow> bool \<times> raft_cluster" where
  "release_memory_to release_index leader_limit c =
     (if release_index \<le> 1 then (False, c)
      else (case compact_logs_through_with_leader_limit (release_index - 1) leader_limit c of (k, c1) \<Rightarrow> (0 < k, c1)))"

definition cluster_release_memory :: "raft_cluster \<Rightarrow> (bool, raft_cluster) outcome" where
  "cluster_release_memory c = (case rc_leader_id c of
     None \<Rightarrow> (case release_memory_to (min_or_zero (map nd_safety_applied_index (bt_values (rc_nodes c)))) None c of
        (b, c1) \<Rightarrow> (Inr b, c1))
   | Some leader_id \<Rightarrow>
      (case (if cf_can_trigger_snapshot (rc_config c) then min_replicated_index leader_id c
             else min_index_any_member_needs leader_id c) of
         Inl e \<Rightarrow> (Inl e, c)
       | Inr replicated \<Rightarrow>
          (let i = (if should_release_memory c \<and> cf_can_trigger_snapshot (rc_config c)
                    then max replicated (case cluster_node c leader_id of
                           Some l \<Rightarrow> nd_safety_applied_index l | None \<Rightarrow> replicated)
                    else replicated)
           in case release_memory_to i (Some i) c of (b, c1) \<Rightarrow> (Inr b, c1))))"

section \<open>Promotion and catch-up\<close>

definition become_voter :: "node \<Rightarrow> node" where
  "become_voter n = n\<lparr>nd_replica_role := VoterRole, nd_raft_role := Follower, nd_auto_promote := False,
     nd_auto_promote_state := APPromoted\<rparr>"

definition promote_peer :: "node_id \<Rightarrow> raft_cluster \<Rightarrow> (unit, raft_cluster) outcome" where
  "promote_peer i c = (case require_running ''promote a peer'' c of
     Inl e \<Rightarrow> (Inl e, c)
   | Inr _ \<Rightarrow> (case cluster_node c i of
       None \<Rightarrow> (Inl (NodeNotFound i), c)
     | Some n \<Rightarrow>
        (if nd_replica_role n \<noteq> LearnerRole
         then (Inl (InvalidRequest (''node '' @ show_nat i @ '' is not a learner'')), c)
         else if match_index n < rc_commit_index c
         then (Inl (InvalidRequest (''node '' @ show_nat i @ '' is behind committed index '' @ show_nat (rc_commit_index c))), c)
         else (Inr (), reset_leader_lease_epoch (modify_node i become_voter c)))))"

definition promote_caught_up_auto_learner :: "node_id \<Rightarrow> raft_cluster \<Rightarrow> (bool, raft_cluster) outcome" where
  "promote_caught_up_auto_learner i c =
     (if (case cluster_node c i of None \<Rightarrow> False
          | Some n \<Rightarrow> nd_replica_role n = LearnerRole \<and> nd_auto_promote n \<and> 0 < match_index n
                      \<and> rc_commit_index c \<le> match_index n)
      then and_then (promote_peer i (modify_node i (\<lambda>n. n\<lparr>nd_auto_promote_state := APPromoting\<rparr>) c)) (\<lambda>_ c1. (Inr True, c1))
      else (Inr False, c))"

definition maybe_auto_promote_zero_lag_learner :: "node_id \<Rightarrow> raft_cluster \<Rightarrow> (unit, raft_cluster) outcome" where
  "maybe_auto_promote_zero_lag_learner i c =
     (if (case cluster_node c i of None \<Rightarrow> False
          | Some n \<Rightarrow> nd_replica_role n = LearnerRole \<and> nd_auto_promote n \<and> 0 < match_index n
                      \<and> rc_last_log_index c \<le> match_index n)
      then (if membership_change_fence_active c
            then (Inr (), modify_node i (\<lambda>n. n\<lparr>nd_auto_promote_state := APPromoting\<rparr>) c)
            else promote_peer i c)
      else (Inr (), c))"

record learner_catch_up_loop_report =
  cu_learner_id :: node_id
  cu_leader_commit_index :: log_index
  cu_learner_match_index_before :: log_index
  cu_learner_match_index_after :: log_index
  cu_rounds :: u64
  cu_caught_up :: bool
  cu_reason :: string

definition receive_catch_up :: "log_entry \<Rightarrow> node \<Rightarrow> node" where
  "receive_catch_up e n = (if nd_replica_role n = WitnessRole then append_witness_entry e False n else append_entry e n)"

definition lent_snapshot :: "node \<Rightarrow> node \<Rightarrow> snapshot_metadata option" where
  "lent_snapshot leader peer = (case nd_installed_snapshot leader of
     Some s \<Rightarrow> (if match_index peer < li_index (sm_last_log_id s) then Some s else None) | None \<Rightarrow> None)"

definition missing_entries :: "log_index \<Rightarrow> node \<Rightarrow> log_entry list" where
  "missing_entries matched leader = (case log_position_at_or_after leader (sat_add matched 1) of
     None \<Rightarrow> [] | Some position \<Rightarrow> drop position (nd_log leader))"

text \<open>The peer after the snapshot, the missing entries and the commit index of the leader.\<close>

definition catch_up_node :: "log_index \<Rightarrow> node \<Rightarrow> node \<Rightarrow> node" where
  "catch_up_node commit leader peer =
     (let lent = lent_snapshot leader peer;
          peer1 = (if lent = None then peer else peer\<lparr>nd_installed_snapshot := lent\<rparr>);
          peer2 = fold receive_catch_up (missing_entries (match_index peer1) leader) peer1
      in advance_commit (min commit (match_index peer2)) peer2)"

definition success_response :: "raft_term \<Rightarrow> log_index \<Rightarrow> append_entries_response" where
  "success_response t matched = append_reply t True matched None None None SnapNone (0, 0)"

definition catch_up_pipeline :: "node_id \<Rightarrow> snapshot_metadata option \<Rightarrow> raft_term \<Rightarrow> log_index \<Rightarrow> log_index
    \<Rightarrow> replication_pipeline \<Rightarrow> bool \<times> replication_pipeline" where
  "catch_up_pipeline i lent t matched commit p =
     (let p1 = (case lent of None \<Rightarrow> p
          | Some s \<Rightarrow>
             (let k = li_index (sm_last_log_id s)
              in mark_snapshot_rejoin_after_compacted_log (snd (receive_snapshot_chunk 0 True
                   (snd (begin_snapshot_install (''catchup-'' @ show_nat i @ ''-'' @ show_nat k) k 1 p))))))
      in record_learner_catchup_round commit (snd (handle_append_response (success_response t matched) p1)))"

definition catch_up_reason :: "string \<Rightarrow> bool \<Rightarrow> string" where
  "catch_up_reason prefix caught_up = (if prefix = [] then []
     else prefix @ (if caught_up then ''_caught_up'' else ''_still_lagging''))"

definition catch_up_peer_with_reason :: "node_id \<Rightarrow> string \<Rightarrow> raft_cluster \<Rightarrow> (learner_catch_up_loop_report, raft_cluster) outcome" where
  "catch_up_peer_with_reason i prefix c = (case rc_leader_id c of
     None \<Rightarrow> (Inl NoLeader, c)
   | Some leader_id \<Rightarrow> (case cluster_node c leader_id of
       None \<Rightarrow> (Inl (NodeNotFound leader_id), c)
     | Some leader \<Rightarrow> (case cluster_node c i of
         None \<Rightarrow> (Inl (NodeNotFound i), c)
       | Some peer \<Rightarrow>
          (let commit = rc_commit_index c; peer1 = catch_up_node commit leader peer;
               c1 = modify_node i (\<lambda>_. peer1) c;
               (caught_up, c2) = (case bt_get (rc_peer_pipelines c1) i of
                  None \<Rightarrow> (commit \<le> match_index peer1, c1)
                | Some p \<Rightarrow> (case catch_up_pipeline i (lent_snapshot leader peer) (rc_current_term c1) (match_index peer1) commit p of
                    (b, p1) \<Rightarrow> (b, modify_pipeline i (\<lambda>_. p1) c1)))
           in and_then (mark_peer_active i c2) (\<lambda>_ c3.
                let c4 = refresh_cluster_indexes c3
                in and_then (if caught_up then promote_caught_up_auto_learner i c4 else (Inr False, c4)) (\<lambda>_ c5.
                     (Inr \<lparr>cu_learner_id = i, cu_leader_commit_index = commit,
                           cu_learner_match_index_before = match_index peer, cu_learner_match_index_after = match_index peer1,
                           cu_rounds = (case bt_get (rc_peer_pipelines c5) i of
                              Some p \<Rightarrow> pp_learner_catchup_rounds (rp_status p) | None \<Rightarrow> 0),
                           cu_caught_up = caught_up, cu_reason = catch_up_reason prefix caught_up\<rparr>, c5)))))))"

definition catch_up_peer :: "node_id \<Rightarrow> raft_cluster \<Rightarrow> (learner_catch_up_loop_report, raft_cluster) outcome" where
  "catch_up_peer i c = catch_up_peer_with_reason i ''peer'' c"

definition learner_catch_up_loop :: "node_id \<Rightarrow> raft_cluster \<Rightarrow> (learner_catch_up_loop_report, raft_cluster) outcome" where
  "learner_catch_up_loop i c = (case cluster_node c i of
     None \<Rightarrow> (Inl (NodeNotFound i), c)
   | Some n \<Rightarrow>
      (if nd_replica_role n \<noteq> LearnerRole
       then (Inl (InvalidRequest (''node '' @ show_nat i @ '' is not a learner'')), c)
       else catch_up_peer_with_reason i ''learner'' c))"

definition partition_peer :: "node_id \<Rightarrow> raft_cluster \<Rightarrow> (unit, raft_cluster) outcome" where
  "partition_peer i c = set_node_healthy i False c"

definition heal_peer :: "node_id \<Rightarrow> raft_cluster \<Rightarrow> (learner_catch_up_loop_report, raft_cluster) outcome" where
  "heal_peer i c = and_then (set_node_healthy i True c) (\<lambda>_ c1. catch_up_peer_with_reason i ''healed_peer'' c1)"

section \<open>Append responses\<close>

definition trigger_new_snapshot_if_leader_snapshot_is_stale ::
  "node_id \<Rightarrow> log_index \<Rightarrow> raft_cluster \<Rightarrow> (unit, raft_cluster) outcome" where
  "trigger_new_snapshot_if_leader_snapshot_is_stale i required c = (case rc_leader_id c of
     None \<Rightarrow> (Inr (), c)
   | Some leader_id \<Rightarrow>
      (if required \<le> (case cluster_node c leader_id of Some n \<Rightarrow> snapshot_index n | None \<Rightarrow> 0) then (Inr (), c)
       else (let c1 = modify_pipeline i (\<lambda>p. snd (cancel_snapshot_send_for_new_snapshot p)) c
             in if rc_snapshot_trigger c1 = None then and_then (trigger_snapshot c1) (\<lambda>_ c2. (Inr (), c2))
                else (Inr (), c1))))"

text \<open>What a response of a later term does to the group.\<close>

definition step_down_to :: "raft_term \<Rightarrow> raft_cluster \<Rightarrow> raft_cluster" where
  "step_down_to t c = invalidate_leader_lease (invalidate_follower_lease (clear_reorder_queues
     (c\<lparr>rc_current_term := t, rc_leader_id := None\<rparr>)))"

definition role_after_response :: "bool \<Rightarrow> node \<Rightarrow> node" where
  "role_after_response remote n =
     (if remote \<and> can_be_leader (nd_replica_role n) then n\<lparr>nd_raft_role := Follower\<rparr>
      else if nd_replica_role n = LearnerRole then n\<lparr>nd_raft_role := Learner\<rparr> else n)"

definition record_lease_response :: "node_id \<Rightarrow> append_entries_response \<Rightarrow> bool \<Rightarrow> bool \<Rightarrow> raft_cluster \<Rightarrow> raft_cluster" where
  "record_lease_response i r recompute wanted c =
     (if wanted \<and> 0 < ar_lease_confirmation_epoch r \<and> 0 < ar_lease_duration_ms r
      then snd (receive_leader_lease_confirmation_inner i (ar_lease_confirmation_epoch r) (ar_lease_duration_ms r) recompute c)
      else if wanted \<and> cf_enable_lease_read (rc_config c) then record_leader_lease_confirmation_inner i recompute c
      else c)"

definition pipeline_response :: "node_id \<Rightarrow> append_entries_response \<Rightarrow> bool \<Rightarrow> raft_cluster \<Rightarrow> (unit, raft_cluster) outcome" where
  "pipeline_response i r recompute c = (case bt_get (rc_peer_pipelines c) i of
     None \<Rightarrow> (Inr (), c)
   | Some p \<Rightarrow>
      (case handle_append_response r (snd (update_snapshot_progress (ar_snapshot_state r = SnapReceiving)
              (max (cf_heartbeat_interval_ms (rc_config c)) 1) (max (cf_election_timeout_ms (rc_config c)) 1) p)) of
         (res, p1) \<Rightarrow> (let c1 = modify_pipeline i (\<lambda>_. p1) c
                      in (res, if recompute then refresh_commit_index c1 else c1))))"

definition wants_append_retry :: "node_id \<Rightarrow> raft_cluster \<Rightarrow> bool" where
  "wants_append_retry i c = (rc_leader_id c \<noteq> None \<and> (case bt_get (rc_peer_pipelines c) i of
     None \<Rightarrow> False
   | Some p \<Rightarrow> (let s = rp_status p in \<not> pp_paused s \<and> \<not> pp_snapshot_sending s \<and> \<not> pp_snapshot_installing s
       \<and> pp_required_snapshot_index s = pp_acked_snapshot_index s)))"

text \<open>After the pipeline took the response: snapshot, retry, promotion, transfer.\<close>

definition follow_up_response :: "node_id \<Rightarrow> append_entries_response \<Rightarrow> unit result \<Rightarrow> raft_cluster \<Rightarrow> (unit, raft_cluster) outcome" where
  "follow_up_response i r res c =
     and_then (case ar_require_snapshot r of
                 Some k \<Rightarrow> trigger_new_snapshot_if_leader_snapshot_is_stale i k c | None \<Rightarrow> (Inr (), c)) (\<lambda>_ c1.
       let rejected = (\<not> ar_success r \<and> res = Inl (InvalidRequest ''append rejected by peer pipeline''))
       in if \<not> rejected \<and> \<not> is_ok res then (res, c1)
          else and_then (if rejected \<and> wants_append_retry i c1
                         then and_then (catch_up_peer_with_reason i ''append_reject_retry'' c1) (\<lambda>_ c2. (Inr (), c2))
                         else (Inr (), c1)) (\<lambda>_ c2.
            and_then (if ar_success r then maybe_auto_promote_zero_lag_learner i c2 else (Inr (), c2)) (\<lambda>_ c3.
              if ar_success r \<and> (case active_leader_transfer c3 of Some t \<Rightarrow> lt_transferee_id t = i | None \<Rightarrow> False)
                 \<and> rc_last_log_index c3 \<le> ar_match_index r
              then campaign i True c3 else (Inr (), c3))))"

definition handle_append_entries_response_inner ::
  "node_id \<Rightarrow> node_id \<Rightarrow> append_entries_response \<Rightarrow> bool \<Rightarrow> bool \<Rightarrow> raft_cluster \<Rightarrow> (unit, raft_cluster) outcome" where
  "handle_append_entries_response_inner local_id i r recompute record_lease c =
     (if cluster_node c local_id = None then (Inl (NodeNotFound local_id), c)
      else case (if rc_current_term c < ar_term r then peer_response_is_active i c else Inr True) of
        Inl e \<Rightarrow> (Inl e, c)
      | Inr active \<Rightarrow>
         (if \<not> active then (Inr (), c)
          else and_then (mark_peer_active i c) (\<lambda>_ c1.
            let c2 = modify_node i (role_after_response (i \<noteq> local_id)) c1
            in if rc_current_term c2 < ar_term r
               then (Inr (), modify_nodes (demote_to_term (ar_term r))
                      (snd (abort_leader_transfer ''append_response_high_term'' (step_down_to (ar_term r) c2))))
               else (case pipeline_response i r recompute (record_lease_response i r recompute record_lease c2) of
                       (res, c3) \<Rightarrow> follow_up_response i r res c3))))"

definition handle_append_entries_response :: "node_id \<Rightarrow> node_id \<Rightarrow> append_entries_response \<Rightarrow> raft_cluster \<Rightarrow> (unit, raft_cluster) outcome" where
  "handle_append_entries_response local_id i r c = handle_append_entries_response_inner local_id i r True True c"

section \<open>Proposals\<close>

record propose_options =
  po_expected_term :: "raft_term option"
  po_is_command :: bool
  po_is_membership_change :: bool

definition default_propose_options :: propose_options where
  "default_propose_options = \<lparr>po_expected_term = None, po_is_command = True, po_is_membership_change = False\<rparr>"

text \<open>A healthy follower in the proposal loop: the entry, and the answer it stands for.\<close>

definition follower_takes :: "log_entry \<Rightarrow> bool \<Rightarrow> node \<Rightarrow> node" where
  "follower_takes e is_change n =
     (if sat_add (match_index n) 1 = idx e
      then (if can_serve_data (nd_replica_role n) then append_entry e n
            else if nd_replica_role n = WitnessRole then append_witness_entry e is_change n else n)
      else n)"

definition follower_answer :: "log_entry \<Rightarrow> node \<Rightarrow> node \<Rightarrow> append_entries_response" where
  "follower_answer e old new =
     (let contiguous = (sat_add (match_index old) 1 = idx e)
      in append_reply (current_term_of new) contiguous (match_index new)
           (if contiguous then None else Some (sat_add (match_index new) 1))
           (if contiguous then None else Some (idx e)) None SnapNone (0, 0))"

definition propose_to :: "node_id \<Rightarrow> log_entry \<Rightarrow> bool \<Rightarrow> bool \<Rightarrow> node_id \<Rightarrow> raft_cluster \<Rightarrow> (unit, raft_cluster) outcome" where
  "propose_to leader_id e is_change renewing i c = (case cluster_node c i of
     None \<Rightarrow> (Inr (), c)
   | Some n \<Rightarrow>
      (if i = leader_id then (Inr (), modify_node i (append_entry e) c)
       else case bt_get (rc_peer_pipelines c) i of
         None \<Rightarrow> (Inr (), c)
       | Some p \<Rightarrow> (case queue_append e p of
           (Inl err, p1) \<Rightarrow> (Inl err, modify_pipeline i (\<lambda>_. p1) c)
         | (Inr _, p1) \<Rightarrow>
            (let c1 = modify_pipeline i (\<lambda>_. snd (flush_append_batch 64 (max (cf_max_payload_bytes (rc_config c)) 1) p1)) c
             in if \<not> nd_healthy n then (Inr (), c1)
                else
                 (let n1 = follower_takes e is_change n; r = follower_answer e n n1;
                      c2 = modify_node i (\<lambda>_. n1) c1;
                      c3 = (if ar_success r \<and> renewing then record_leader_lease_confirmation_inner i False c2 else c2)
                  in (Inr (), snd (handle_append_entries_response_inner leader_id i r False False c3)))))))"

fun propose_loop :: "node_id \<Rightarrow> log_entry \<Rightarrow> bool \<Rightarrow> bool \<Rightarrow> node_id list \<Rightarrow> raft_cluster \<Rightarrow> (unit, raft_cluster) outcome" where
  "propose_loop leader_id e is_change renewing [] c = (Inr (), c)"
| "propose_loop leader_id e is_change renewing (i # is) c =
     and_then (propose_to leader_id e is_change renewing i c) (\<lambda>_ c1. propose_loop leader_id e is_change renewing is c1)"

text \<open>The part that stores and replicates the entry, once the proposal is admitted.\<close>

definition propose_entry :: "node_id \<Rightarrow> bool \<Rightarrow> log_entry \<Rightarrow> raft_cluster \<Rightarrow> (log_id, raft_cluster) outcome" where
  "propose_entry leader_id is_change e c =
     (let c1 = (if is_change then c\<lparr>rc_pending_membership_change_index := Some (idx e),
                      rc_membership_change_indexes := set_insert (idx e) (rc_membership_change_indexes c)\<rparr> else c);
          (renewing, c2) = begin_leader_lease_renewal (c1\<lparr>rc_last_log_index := idx e\<rparr>);
          c3 = (if renewing then record_leader_lease_confirmation_inner leader_id False c2 else c2)
      in and_then (propose_loop leader_id e is_change renewing (bt_keys (rc_nodes c3)) c3) (\<lambda>_ c4.
           let c5 = refresh_commit_index c4
           in (Inr (le_log_id e), if renewing then snd (finish_leader_lease_renewal c5) else c5)))"

definition expected_term_mismatch :: "propose_options \<Rightarrow> raft_cluster \<Rightarrow> raft_error option" where
  "expected_term_mismatch opts c =
     (if po_is_membership_change opts then None
      else case po_expected_term opts of
        None \<Rightarrow> None
      | Some t \<Rightarrow> (if t = rc_current_term c then None
          else Some (InvalidRequest (''expected term '' @ show_nat t @ '' does not match current term '' @ show_nat (rc_current_term c)))))"

definition reclaim_for_proposal :: "raft_cluster \<Rightarrow> (unit, raft_cluster) outcome" where
  "reclaim_for_proposal c =
     and_then (if should_release_memory c then and_then (cluster_release_memory c) (\<lambda>_ c1. (Inr (), c1)) else (Inr (), c)) (\<lambda>_ c1.
       if is_busy c1
       then and_then (cluster_release_memory c1) (\<lambda>released c2.
              if released then (Inr (), c2) else (Inl (InvalidRequest ''out of memory buffer''), c2))
       else (Inr (), c1))"

definition propose_with_options :: "payload \<Rightarrow> propose_options \<Rightarrow> raft_cluster \<Rightarrow> (log_id, raft_cluster) outcome" where
  "propose_with_options payload opts c = (case expected_term_mismatch opts c of
     Some e \<Rightarrow> (Inl e, c)
   | None \<Rightarrow> (case rc_leader_id c of
       None \<Rightarrow> (Inl NoLeader, c)
     | Some leader_id \<Rightarrow> (case require_running ''propose'' c of
         Inl e \<Rightarrow> (Inl e, c)
       | Inr _ \<Rightarrow>
          (if cf_max_payload_bytes (rc_config c) < length payload
           then (Inl (InvalidRequest ''payload exceeds max_payload_bytes''), c)
           else case cluster_node c leader_id of
             None \<Rightarrow> (Inl (NodeNotFound leader_id), c)
           | Some leader \<Rightarrow>
              (if \<not> nd_healthy leader then (Inl (NotLeader leader_id), c)
               else and_then (reclaim_for_proposal c) (\<lambda>_ c1.
                 case next_log_index c1 of
                   Inl e \<Rightarrow> (Inl e, c1)
                 | Inr i \<Rightarrow>
                    (let pending = (case rc_pending_membership_change_index c1 of
                           Some p \<Rightarrow> nd_safety_applied_index leader < p | None \<Rightarrow> False);
                         is_change = (po_is_membership_change opts \<and> \<not> pending)
                     in propose_entry leader_id is_change
                          \<lparr>le_log_id = \<lparr>li_term = rc_current_term c1, li_index = i\<rparr>, le_payload = payload,
                           le_is_command = (po_is_command opts \<and> \<not> is_change)\<rparr> c1)))))))"

definition propose :: "payload \<Rightarrow> raft_cluster \<Rightarrow> (log_id, raft_cluster) outcome" where
  "propose payload c = propose_with_options payload default_propose_options c"

datatype membership_proposal_outcome = ProposalAccepted log_index | ProposalDowngraded log_index log_index

definition propose_membership_change :: "payload \<Rightarrow> raft_cluster \<Rightarrow> (membership_proposal_outcome, raft_cluster) outcome" where
  "propose_membership_change payload c =
     and_then (propose_with_options payload
         \<lparr>po_expected_term = None, po_is_command = False, po_is_membership_change = True\<rparr> c) (\<lambda>l c1.
       (Inr (if rc_pending_membership_change_index c1 = Some (li_index l) then ProposalAccepted (li_index l)
             else ProposalDowngraded (li_index l) (case rc_pending_membership_change_index c1 of
                    Some p \<Rightarrow> p | None \<Rightarrow> (case rc_pending_membership_change_index c of Some p \<Rightarrow> p | None \<Rightarrow> 0))), c1))"

section \<open>Vote responses\<close>

definition become_leader_current_term :: "node_id \<Rightarrow> raft_cluster \<Rightarrow> (unit, raft_cluster) outcome" where
  "become_leader_current_term i c = (case cluster_node c i of
     None \<Rightarrow> (Inl (NodeNotFound i), c)
   | Some n \<Rightarrow>
      (if \<not> can_be_leader (nd_replica_role n) then (Inl (cannot_become ''leader'' i), c)
       else if \<not> nd_healthy n then (Inl (not_healthy i), c)
       else
        (let c1 = clear_reorder_queues (clear_election_responses
                    (c\<lparr>rc_leader_id := Some i, rc_last_index_before_current_term := rc_last_log_index c\<rparr>));
             c2 = modify_nodes (install_vote Leader i (rc_current_term c))
                    (invalidate_follower_lease (reset_leader_lease_epoch c1));
             c3 = reset_replication_pipelines_for_leader i c2
         in if rc_running c3 \<and> 0 < rc_last_index_before_current_term c3
            then and_then (propose [110, 111, 45, 111, 112] c3) (\<lambda>_ c4. (Inr (), c4))
            else (Inr (), c3))))"

text \<open>\<^verbatim>\<open>entry(k).or_insert(v)\<close>.\<close>

definition or_insert :: "nat \<Rightarrow> 'v \<Rightarrow> 'v btree \<Rightarrow> 'v btree" where
  "or_insert k v m = (if bt_contains_key m k then m else bt_insert k v m)"

definition count_response :: "node_id \<Rightarrow> node_id \<Rightarrow> bool \<Rightarrow> bool btree \<Rightarrow> bool btree" where
  "count_response local_id i granted m = bt_insert i granted (or_insert local_id True m)"

definition granted_ids :: "bool btree \<Rightarrow> node_id list" where
  "granted_ids m = map fst (filter snd m)"

definition record_vote_response :: "node_id \<Rightarrow> node_id \<Rightarrow> bool \<Rightarrow> bool \<Rightarrow> raft_cluster \<Rightarrow> (unit, raft_cluster) outcome" where
  "record_vote_response local_id i granted is_pre_vote c = (case cluster_node c i of
     None \<Rightarrow> (Inl (NodeNotFound i), c)
   | Some n \<Rightarrow>
      (if \<not> participates_in_quorum (nd_replica_role n) \<or> (rc_ignore_witness c \<and> nd_replica_role n = WitnessRole)
       then (Inr (), c)
       else
        (let c1 = discard_election_responses_from_an_earlier_term c;
             c2 = (if is_pre_vote then c1\<lparr>rc_pre_vote_responses := count_response local_id i granted (rc_pre_vote_responses c1)\<rparr>
                   else c1\<lparr>rc_vote_responses := count_response local_id i granted (rc_vote_responses c1)\<rparr>);
             votes = (if is_pre_vote then rc_pre_vote_responses c2 else rc_vote_responses c2);
             members = cluster_membership c2
         in if quorum_reached_with_witness_policy members (granted_ids votes) (rc_ignore_witness c2)
            then (if is_pre_vote then start_vote_after_pre_vote_quorum local_id c2 else become_leader_current_term local_id c2)
            else
             (let rejected = length (filter Not (bt_values votes));
                  participants = length (mb_voters members) + length (mb_witnesses members)
              in if participants - quorum_size_with_witness_policy members (rc_ignore_witness c2) < rejected
                 then (Inr (), modify_node local_id (\<lambda>n. n\<lparr>nd_raft_role := Follower\<rparr>)
                        (clear_election_responses (invalidate_leader_lease (invalidate_follower_lease
                          (c2\<lparr>rc_leader_id := None\<rparr>)))))
                 else (Inr (), c2)))))"

definition handle_vote_response_inner :: "node_id \<Rightarrow> node_id option \<Rightarrow> vote_response \<Rightarrow> bool \<Rightarrow> raft_cluster \<Rightarrow> (unit, raft_cluster) outcome" where
  "handle_vote_response_inner local_id peer_id r is_pre_vote c =
     (if cluster_node c local_id = None then (Inl (NodeNotFound local_id), c)
      else if vr_term r \<le> rc_current_term c
      then (case peer_id of Some i \<Rightarrow> record_vote_response local_id i (vr_vote_granted r) is_pre_vote c | None \<Rightarrow> (Inr (), c))
      else case (case peer_id of Some i \<Rightarrow> peer_response_is_active i c | None \<Rightarrow> Inr True) of
        Inl e \<Rightarrow> (Inl e, c)
      | Inr active \<Rightarrow>
         (if \<not> active then (Inr (), c)
          else if is_pre_vote \<and> vr_vote_granted r
          then (case peer_id of Some i \<Rightarrow> record_vote_response local_id i True is_pre_vote c | None \<Rightarrow> (Inr (), c))
          else (Inr (), modify_nodes (demote_to_term (vr_term r)) (clear_election_responses (step_down_to (vr_term r) c)))))"

definition handle_vote_response :: "node_id \<Rightarrow> vote_response \<Rightarrow> bool \<Rightarrow> raft_cluster \<Rightarrow> (unit, raft_cluster) outcome" where
  "handle_vote_response local_id r is_pre_vote c = handle_vote_response_inner local_id None r is_pre_vote c"

definition handle_vote_response_from :: "node_id \<Rightarrow> node_id \<Rightarrow> vote_response \<Rightarrow> bool \<Rightarrow> raft_cluster \<Rightarrow> (unit, raft_cluster) outcome" where
  "handle_vote_response_from local_id i r is_pre_vote c = handle_vote_response_inner local_id (Some i) r is_pre_vote c"

section \<open>Heartbeats\<close>

definition heartbeat_request :: "node_id \<Rightarrow> node_id \<Rightarrow> raft_cluster \<Rightarrow> append_entries_request" where
  "heartbeat_request leader_id i c = \<lparr>aq_group_id = rc_group_id c, aq_term = rc_current_term c, aq_leader_id = leader_id,
     aq_prev_log_id = None, aq_entries = [],
     aq_leader_commit = min (rc_commit_index c) (case cluster_node c i of Some n \<Rightarrow> match_index n | None \<Rightarrow> 0),
     aq_lease_epoch = rc_leader_lease_epoch c\<rparr>"

text \<open>One peer of the round; the count is that of the heartbeats sent.\<close>

definition heartbeat_to :: "node_id \<Rightarrow> node_id \<Rightarrow> u64 \<Rightarrow> raft_cluster \<Rightarrow> (u64, raft_cluster) outcome" where
  "heartbeat_to leader_id i sent c =
     (let status = map_option rp_status (bt_get (rc_peer_pipelines c) i);
          healthy = (case cluster_node c i of Some n \<Rightarrow> nd_healthy n | None \<Rightarrow> False);
          timed_out = (case status of Some s \<Rightarrow> pp_offline_timeout_reached s | None \<Rightarrow> False);
          in_snapshot = (case status of Some s \<Rightarrow> pp_snapshot_sending s \<or> pp_snapshot_installing s | None \<Rightarrow> False)
      in if (\<not> healthy \<and> \<not> timed_out) \<or> in_snapshot then (Inr sent, c)
         else and_then (append_entries_to i (heartbeat_request leader_id i c) c) (\<lambda>r c1.
           and_then (handle_append_entries_response_inner leader_id i r False True c1) (\<lambda>_ c2.
             let c3 = modify_pipeline i record_heartbeat_response c2;
                 probe = (case bt_get (rc_peer_pipelines c3) i of None \<Rightarrow> False
                   | Some p \<Rightarrow> pp_match_index (rp_status p) < rc_last_log_index c3
                       \<and> pp_next_index (rp_status p) = sat_add (rc_last_log_index c3) 1)
             in and_then (if probe then and_then (catch_up_peer_with_reason i ''heartbeat_tail_probe'' c3) (\<lambda>_ c4. (Inr (), c4))
                          else (Inr (), c3)) (\<lambda>_ c4. (Inr (sat_add sent 1), c4)))))"

fun heartbeat_round :: "node_id \<Rightarrow> node_id list \<Rightarrow> u64 \<Rightarrow> raft_cluster \<Rightarrow> (u64, raft_cluster) outcome" where
  "heartbeat_round leader_id [] sent c = (Inr sent, c)"
| "heartbeat_round leader_id (i # is) sent c =
     and_then (heartbeat_to leader_id i sent c) (\<lambda>sent1 c1. heartbeat_round leader_id is sent1 c1)"

definition broadcast_heartbeat :: "raft_cluster \<Rightarrow> (u64, raft_cluster) outcome" where
  "broadcast_heartbeat c = (case rc_leader_id c of
     None \<Rightarrow> (Inr 0, c)
   | Some leader_id \<Rightarrow>
      (if \<not> (case cluster_node c leader_id of Some n \<Rightarrow> nd_healthy n | None \<Rightarrow> False) then (Inr 0, c)
       else and_then (mark_peer_active leader_id c) (\<lambda>_ c1.
         if length (rc_nodes c1) = 1 then (Inr 0, c1)
         else and_then (heartbeat_round leader_id (filter (\<lambda>i. i \<noteq> leader_id) (bt_keys (rc_nodes c1))) 0 c1) (\<lambda>sent c2.
           if 0 < sent
           then (let c3 = refresh_commit_index c2
                 in (Inr sent, c3\<lparr>rc_leader_lease_valid := leader_lease_quorum_reached c3\<rparr>))
           else (Inr sent, c2)))))"

definition wake_paused_peer :: "node_id \<Rightarrow> node_id \<Rightarrow> u64 \<Rightarrow> raft_cluster \<Rightarrow> (u64, raft_cluster) outcome" where
  "wake_paused_peer leader_id i sent c =
     (if \<not> (case cluster_node c i of Some n \<Rightarrow> nd_healthy n | None \<Rightarrow> False) then (Inr sent, c)
      else case bt_get (rc_peer_pipelines c) i of
        None \<Rightarrow> (Inr sent, c)
      | Some p \<Rightarrow>
         (if pp_snapshot_sending (rp_status p) \<or> pp_snapshot_installing (rp_status p) then (Inr sent, c)
          else (case take_empty_append_due_to_old_pause p of (due, p1) \<Rightarrow>
             (let c1 = modify_pipeline i (\<lambda>_. p1) c
              in if \<not> due then (Inr sent, c1)
                 else and_then (append_entries_to i (heartbeat_request leader_id i c1) c1) (\<lambda>r c2.
                   and_then (handle_append_entries_response leader_id i r c2) (\<lambda>_ c3. (Inr (sat_add sent 1), c3)))))))"

fun wake_round :: "node_id \<Rightarrow> node_id list \<Rightarrow> u64 \<Rightarrow> raft_cluster \<Rightarrow> (u64, raft_cluster) outcome" where
  "wake_round leader_id [] sent c = (Inr sent, c)"
| "wake_round leader_id (i # is) sent c =
     and_then (wake_paused_peer leader_id i sent c) (\<lambda>sent1 c1. wake_round leader_id is sent1 c1)"

definition broadcast_commit_index_to_old_paused_peers :: "raft_cluster \<Rightarrow> (u64, raft_cluster) outcome" where
  "broadcast_commit_index_to_old_paused_peers c = (case rc_leader_id c of
     None \<Rightarrow> (Inr 0, c)
   | Some leader_id \<Rightarrow> wake_round leader_id (filter (\<lambda>i. i \<noteq> leader_id) (bt_keys (rc_peer_pipelines c))) 0 c)"

section \<open>Leader transfer\<close>

datatype leader_transfer_admission_kind =
  IgnoredSelf | IgnoredUnknownPeer | IgnoredIneligiblePeer | DuplicateTransfer | TransferReplaced | TransferAccepted

definition matrixraft_leader_transfer_admission_kind ::
  "node_id \<Rightarrow> node_id \<Rightarrow> node_id option \<Rightarrow> replica_role option \<Rightarrow> leader_transfer_admission_kind" where
  "matrixraft_leader_transfer_admission_kind local_id transferee current role =
     (if transferee = local_id then IgnoredSelf
      else case role of
        None \<Rightarrow> IgnoredUnknownPeer
      | Some r \<Rightarrow> (if \<not> can_be_leader r then IgnoredIneligiblePeer
          else if current = Some transferee then DuplicateTransfer
          else if current \<noteq> None then TransferReplaced else TransferAccepted))"

definition modify_active_transfer :: "(leader_transfer_state \<Rightarrow> leader_transfer_state) \<Rightarrow> raft_cluster \<Rightarrow> raft_cluster" where
  "modify_active_transfer f c = (case active_leader_transfer c of
     None \<Rightarrow> c | Some t \<Rightarrow> c\<lparr>rc_leader_transfer := Some (f t)\<rparr>)"

definition open_transfer :: "node_id \<Rightarrow> node \<Rightarrow> raft_cluster \<Rightarrow> raft_cluster" where
  "open_transfer target n c =
     (let replacing = (active_leader_transfer c \<noteq> None);
          aborted = wrap_add (rc_aborted_leader_transfers c) (if replacing then 1 else 0);
          c1 = (if replacing then c\<lparr>rc_aborted_leader_transfers := aborted\<rparr> else c)
      in c1\<lparr>rc_leader_transfer := Some \<lparr>lt_transferee_id = target, lt_elapsed_ticks = 0,
              lt_timeout_ticks = rc_leader_transfer_timeout_ticks c1, lt_aborted_transfers = aborted,
              lt_duplicate_requests = rc_duplicate_leader_transfer_requests c1,
              lt_reason = (if \<not> nd_healthy n then ''waiting_for_transferee_available''
                           else if rc_last_log_index c \<le> match_index n then ''transfer_ready''
                           else ''waiting_for_transferee_catchup''),
              lt_conclusion = None\<rparr>\<rparr>)"

definition begin_leader_transfer :: "node_id \<Rightarrow> raft_cluster \<Rightarrow> (leader_transfer_state option, raft_cluster) outcome" where
  "begin_leader_transfer target c = (case rc_leader_id c of
     None \<Rightarrow> (Inl NoLeader, c)
   | Some leader_id \<Rightarrow> (case cluster_node c leader_id of
       None \<Rightarrow> (Inl NoLeader, c)
     | Some leader \<Rightarrow>
        (if nd_raft_role leader \<noteq> Leader \<or> \<not> nd_healthy leader then (Inl NoLeader, c)
         else case matrixraft_leader_transfer_admission_kind leader_id target
                (map_option lt_transferee_id (active_leader_transfer c)) (map_option nd_replica_role (cluster_node c target)) of
           DuplicateTransfer \<Rightarrow>
             (let c1 = c\<lparr>rc_duplicate_leader_transfer_requests := sat_add (rc_duplicate_leader_transfer_requests c) 1\<rparr>;
                  c2 = modify_active_transfer (\<lambda>t. t\<lparr>lt_duplicate_requests := sat_add (lt_duplicate_requests t) 1,
                         lt_reason := ''duplicate_transfer_in_progress''\<rparr>) c1
              in (Inr (active_leader_transfer c2), c2))
         | TransferAccepted \<Rightarrow> (case cluster_node c target of
             None \<Rightarrow> (Inl (NodeNotFound target), c)
           | Some n \<Rightarrow> (let c1 = open_transfer target n c in (Inr (active_leader_transfer c1), c1)))
         | TransferReplaced \<Rightarrow> (case cluster_node c target of
             None \<Rightarrow> (Inl (NodeNotFound target), c)
           | Some n \<Rightarrow> (let c1 = open_transfer target n c in (Inr (active_leader_transfer c1), c1)))
         | _ \<Rightarrow> (Inr None, c))))"

definition leader_transfer_target_caught_up :: "node_id \<Rightarrow> raft_cluster \<Rightarrow> bool result" where
  "leader_transfer_target_caught_up target c = (case cluster_node c target of
     None \<Rightarrow> Inl (NodeNotFound target)
   | Some n \<Rightarrow> Inr (nd_healthy n \<and> rc_last_log_index c \<le> match_index n))"

datatype leader_transfer_outcome = TransferIgnored | TransferPending | Transferred

definition finish_leader_transfer :: "'a \<Rightarrow> 'a \<Rightarrow> node_id \<Rightarrow> raft_cluster \<Rightarrow> ('a, raft_cluster) outcome" where
  "finish_leader_transfer waiting done target c = (case leader_transfer_target_caught_up target c of
     Inl e \<Rightarrow> (Inl e, c)
   | Inr caught_up \<Rightarrow>
      (if \<not> caught_up then (Inr waiting, c)
       else and_then (campaign target True c) (\<lambda>_ c1. (Inr done, snd (complete_leader_transfer ''transfer_complete'' c1)))))"

definition transfer_leader_outcome :: "node_id \<Rightarrow> raft_cluster \<Rightarrow> (leader_transfer_outcome, raft_cluster) outcome" where
  "transfer_leader_outcome target c = and_then (begin_leader_transfer target c) (\<lambda>t c1.
     if t = None then (Inr TransferIgnored, c1) else finish_leader_transfer TransferPending Transferred target c1)"

definition transfer_leader :: "node_id \<Rightarrow> raft_cluster \<Rightarrow> (unit, raft_cluster) outcome" where
  "transfer_leader target c = and_then (transfer_leader_outcome target c) (\<lambda>_ c1. (Inr (), c1))"

definition try_complete_leader_transfer :: "raft_cluster \<Rightarrow> (bool, raft_cluster) outcome" where
  "try_complete_leader_transfer c = (case active_leader_transfer c of
     None \<Rightarrow> (Inr False, c)
   | Some t \<Rightarrow> finish_leader_transfer False True (lt_transferee_id t) c)"

text \<open>The scan of \<^verbatim>\<open>closest_follower\<close>: best match index, least id above the leader's, least id.\<close>

definition closest_step :: "node_id \<Rightarrow> node \<Rightarrow> log_index option \<times> node_id option \<times> node_id option
    \<Rightarrow> log_index option \<times> node_id option \<times> node_id option" where
  "closest_step leader_id n acc = (case acc of (best, successor, wrapped) \<Rightarrow>
     (if nd_id n = leader_id \<or> \<not> nd_healthy n \<or> \<not> can_be_leader (nd_replica_role n) then acc
      else if (case best of Some b \<Rightarrow> match_index n < b | None \<Rightarrow> False) then acc
      else
       (let (best, successor, wrapped) = (if best = Some (match_index n) then acc else (Some (match_index n), None, None));
            least = (\<lambda>cur. Some (case cur of None \<Rightarrow> nd_id n | Some k \<Rightarrow> min k (nd_id n)))
        in (best, if leader_id < nd_id n then least successor else successor, least wrapped))))"

definition closest_follower :: "raft_cluster \<Rightarrow> node_id option" where
  "closest_follower c = (case rc_leader_id c of
     None \<Rightarrow> None
   | Some leader_id \<Rightarrow> (case fold (closest_step leader_id) (bt_values (rc_nodes c)) (None, None, None) of
       (_, successor, wrapped) \<Rightarrow> (case successor of Some i \<Rightarrow> Some i | None \<Rightarrow> wrapped)))"

definition step_down :: "node_id option \<Rightarrow> raft_cluster \<Rightarrow> (node_id option, raft_cluster) outcome" where
  "step_down transferee c = (case (case transferee of Some i \<Rightarrow> Some i | None \<Rightarrow> closest_follower c) of
     None \<Rightarrow> (Inl (InvalidRequest ''no healthy follower to step down to''), c)
   | Some target \<Rightarrow> and_then (transfer_leader target c) (\<lambda>_ c1. (Inr (Some target), c1)))"

definition forget_leader :: "string \<Rightarrow> raft_cluster \<Rightarrow> raft_cluster" where
  "forget_leader reason c = clear_reorder_queues (clear_election_responses (snd (abort_leader_transfer reason
     (invalidate_follower_lease (invalidate_leader_lease (c\<lparr>rc_leader_id := None\<rparr>))))))"

definition resign_leader :: "raft_cluster \<Rightarrow> (bool, raft_cluster) outcome" where
  "resign_leader c = (case require_running ''resign'' c of
     Inl e \<Rightarrow> (Inl e, c)
   | Inr _ \<Rightarrow> (case rc_leader_id c of
       None \<Rightarrow> (Inr False, c)
     | Some leader_id \<Rightarrow> (case cluster_node c leader_id of
         None \<Rightarrow> (Inr False, forget_leader ''resign_missing_leader'' c)
       | Some n \<Rightarrow>
          (let c1 = modify_node leader_id (\<lambda>n. if can_be_leader (nd_replica_role n)
                 then n\<lparr>nd_raft_role := Follower, nd_auto_promote := False\<rparr> else n) c
           in (Inr True, refresh_replication_pipelines (forget_leader ''resign_leader'' c1))))))"

end
