(* ===== verification/MR_Group_Change.thy ===== *)
theory MR_Group_Change
  imports MR_Replication
begin

text \<open>
  Operations of \<^verbatim>\<open>facade/cluster_runtime.rs\<close> that change who is in the group or replace a replica's
  log by a snapshot: adding, promoting and removing peers, committed membership operations, snapshot
  installation with its fence (\<^verbatim>\<open>snapshot.rs\<close>), results of apply tasks, and the per-peer snapshot calls.
\<close>

section \<open>Adding, promoting and removing peers\<close>

definition drop_peer_state :: "node_id \<Rightarrow> raft_cluster \<Rightarrow> raft_cluster" where
  "drop_peer_state i c = clear_reorder_queue_for i (c\<lparr>rc_snapshot_installers := bt_remove i (rc_snapshot_installers c),
     rc_pending_snapshots := bt_remove i (rc_pending_snapshots c)\<rparr>)"

definition add_peer :: "peer \<Rightarrow> raft_cluster \<Rightarrow> (unit, raft_cluster) outcome" where
  "add_peer p c = (case require_running ''add a peer'' c of
     Inl e \<Rightarrow> (Inl e, c)
   | Inr _ \<Rightarrow>
      (let i = pr_node_id p
       in if bt_contains_key (rc_nodes c) i
          then (Inl (InvalidRequest (''duplicate raft node id '' @ show_nat i)), c)
          else
           (let c1 = drop_peer_state i c;
                c2 = c1\<lparr>rc_nodes := bt_insert i (node_new i (pr_role p) (pr_auto_promote p)) (rc_nodes c1),
                        rc_peer_pipelines := bt_insert i (pipeline_new i (wrap_add (rc_last_log_index c1) 1)
                          (config_pipeline_limits (rc_config c1))) (rc_peer_pipelines c1)\<rparr>;
                c3 = refresh_replication_pipelines (reset_leader_lease_epoch c2)
            in if (case rc_leader_id c3 of Some l \<Rightarrow> l \<noteq> i | None \<Rightarrow> False)
               then and_then (catch_up_peer_with_reason i ''added_peer'' c3) (\<lambda>_ c4. (Inr (), c4))
               else (Inr (), c3))))"

definition cluster_add_learner :: "peer \<Rightarrow> raft_cluster \<Rightarrow> (unit, raft_cluster) outcome" where
  "cluster_add_learner p c = add_peer (p\<lparr>pr_role := LearnerRole\<rparr>) c"

definition cluster_add_witness :: "peer \<Rightarrow> raft_cluster \<Rightarrow> (unit, raft_cluster) outcome" where
  "cluster_add_witness p c = add_peer (p\<lparr>pr_role := WitnessRole\<rparr>) c"

text \<open>A node leaves the maps; a transfer to it ends.\<close>

definition forget_node :: "string \<Rightarrow> node_id \<Rightarrow> raft_cluster \<Rightarrow> raft_cluster" where
  "forget_node reason i c =
     (let c1 = c\<lparr>rc_nodes := bt_remove i (rc_nodes c), rc_peer_pipelines := bt_remove i (rc_peer_pipelines c)\<rparr>;
          c2 = remove_election_response_from i (drop_peer_state i c1)
      in if (case active_leader_transfer c2 of Some t \<Rightarrow> lt_transferee_id t = i | None \<Rightarrow> False)
         then snd (abort_leader_transfer reason c2) else c2)"

definition cluster_remove_peer :: "node_id \<Rightarrow> raft_cluster \<Rightarrow> (unit, raft_cluster) outcome" where
  "cluster_remove_peer i c = (case require_running ''remove a peer'' c of
     Inl e \<Rightarrow> (Inl e, c)
   | Inr _ \<Rightarrow>
      (let target = (if rc_leader_id c = Some i then closest_follower c else None)
       in if \<not> bt_contains_key (rc_nodes c) i then (Inr (), c)
          else
           (let c1 = forget_node ''transferee_removed'' i c
            in and_then (if rc_leader_id c1 = Some i
                 then (let c2 = invalidate_leader_lease (c1\<lparr>rc_leader_id := None\<rparr>)
                       in case target of Some t \<Rightarrow> campaign t True c2 | None \<Rightarrow> (Inr (), c2))
                 else (Inr (), refresh_commit_index (reset_leader_lease_epoch c1)))
               (\<lambda>_ c2. (Inr (), refresh_replication_pipelines c2)))))"

datatype membership_operation = AddNode peer | AddVoter peer | AddLearner peer | AddWitness peer
  | Promote node_id | Remove node_id | TransferLeader node_id

definition apply_committed_add :: "peer \<Rightarrow> raft_cluster \<Rightarrow> (bool, raft_cluster) outcome" where
  "apply_committed_add p c = (case cluster_node c (pr_node_id p) of
     None \<Rightarrow> and_then (add_peer p c) (\<lambda>_ c1. (Inr True, c1))
   | Some n \<Rightarrow>
      (if nd_replica_role n = LearnerRole \<and> pr_role p = VoterRole
       then (Inr True, refresh_replication_pipelines (reset_leader_lease_epoch (modify_node (pr_node_id p) become_voter c)))
       else (Inr False, c)))"

fun apply_committed_membership_operation :: "membership_operation \<Rightarrow> raft_cluster \<Rightarrow> (bool, raft_cluster) outcome" where
  "apply_committed_membership_operation (AddNode p) c = apply_committed_add p c"
| "apply_committed_membership_operation (AddVoter p) c = apply_committed_add (p\<lparr>pr_role := VoterRole\<rparr>) c"
| "apply_committed_membership_operation (AddLearner p) c = apply_committed_add (p\<lparr>pr_role := LearnerRole\<rparr>) c"
| "apply_committed_membership_operation (AddWitness p) c = apply_committed_add (p\<lparr>pr_role := WitnessRole\<rparr>) c"
| "apply_committed_membership_operation (Promote i) c = (case cluster_node c i of
     None \<Rightarrow> (Inl (NodeNotFound i), c)
   | Some n \<Rightarrow> (case nd_replica_role n of
       VoterRole \<Rightarrow> (Inr False, c)
     | WitnessRole \<Rightarrow> (Inl (InvalidRequest (''node '' @ show_nat i @ '' is not a learner'')), c)
     | LearnerRole \<Rightarrow> (Inr True, refresh_replication_pipelines (reset_leader_lease_epoch (modify_node i become_voter c)))))"
| "apply_committed_membership_operation (Remove i) c =
     (if \<not> bt_contains_key (rc_nodes c) i then (Inr False, c)
      else and_then (cluster_remove_peer i c) (\<lambda>_ c1. (Inr True, c1)))"
| "apply_committed_membership_operation (TransferLeader i) c =
     and_then (transfer_leader i c) (\<lambda>_ c1. (Inr True, c1))"

section \<open>Membership of a snapshot or a record\<close>

definition reset_removed_node :: "node_id \<Rightarrow> raft_cluster \<Rightarrow> raft_cluster" where
  "reset_removed_node i c =
     (let c1 = forget_node ''snapshot_membership_removed_transferee'' i c
      in if rc_leader_id c1 = Some i then invalidate_leader_lease (c1\<lparr>rc_leader_id := None\<rparr>) else c1)"

definition reset_member :: "peer \<Rightarrow> node btree \<Rightarrow> node btree" where
  "reset_member p ns =
     (if bt_contains_key ns (pr_node_id p)
      then bt_modify (pr_node_id p) (\<lambda>n.
             let n1 = n\<lparr>nd_replica_role := pr_role p, nd_auto_promote := (pr_role p = LearnerRole \<and> pr_auto_promote p)\<rparr>
             in if nd_replica_role n1 = LearnerRole then n1\<lparr>nd_raft_role := Learner\<rparr> else n1) ns
      else bt_insert (pr_node_id p) (node_new (pr_node_id p) (pr_role p) (pr_auto_promote p)) ns)"

definition reset_membership_from_snapshot :: "node_id \<Rightarrow> node_id list \<Rightarrow> peer list \<Rightarrow> raft_cluster \<Rightarrow> raft_cluster" where
  "reset_membership_from_snapshot target ids members c =
     (let retained0 = fold set_insert (ids @ map pr_node_id members) [];
          retained = (if bt_contains_key (rc_nodes c) target then set_insert target retained0 else retained0);
          c1 = fold reset_removed_node (filter (\<lambda>i. i \<notin> set retained) (bt_keys (rc_nodes c))) c;
          ns1 = fold reset_member members (rc_nodes c1);
          ns2 = fold (\<lambda>i. or_insert i (node_new i VoterRole False)) retained ns1;
          c2 = refresh_replication_pipelines (refresh_commit_index (reset_leader_lease_epoch (c1\<lparr>rc_nodes := ns2\<rparr>)))
      in case rc_leader_id c2 of
           None \<Rightarrow> c2
         | Some l \<Rightarrow> modify_nodes (\<lambda>n. n\<lparr>nd_raft_role := role_under Leader l n\<rparr>) c2)"

definition record_membership_as_members :: "membership \<Rightarrow> peer list" where
  "record_membership_as_members m =
     map (\<lambda>(i, r). \<lparr>pr_node_id = i, pr_raft_addr = [], pr_snapshot_addr = [], pr_role = r, pr_auto_promote = False\<rparr>)
       (map (\<lambda>i. (i, VoterRole)) (mb_voters m) @ map (\<lambda>i. (i, LearnerRole)) (mb_learners m)
        @ map (\<lambda>i. (i, WitnessRole)) (mb_witnesses m))"

definition restore_membership_from_record :: "node_id \<Rightarrow> membership \<Rightarrow> raft_cluster \<Rightarrow> raft_cluster" where
  "restore_membership_from_record target m c =
     (let members = record_membership_as_members m
      in if members = [] then c else reset_membership_from_snapshot target (map pr_node_id members) members c)"

section \<open>Snapshot installation\<close>

definition matrixraft_validate_snapshot_floor_log_matching :: "snapshot_metadata \<Rightarrow> log_index \<Rightarrow> log_id option \<Rightarrow> unit result" where
  "matrixraft_validate_snapshot_floor_log_matching meta first_retained prev =
     (if 0 < first_retained \<and> first_retained \<le> li_index (sm_last_log_id meta)
      then Inl (Storage ''first retained log index overlaps snapshot floor'')
      else case prev of
        None \<Rightarrow> Inr ()
      | Some l \<Rightarrow>
         (if li_index l < li_index (sm_last_log_id meta) then Inl (Storage ''previous log id is below snapshot floor'')
          else if li_index l = li_index (sm_last_log_id meta) \<and> li_term l \<noteq> li_term (sm_last_log_id meta)
          then Inl (Storage ''snapshot floor term does not match previous log id'') else Inr ()))"

definition matrixraft_validate_snapshot_install :: "raft_snapshot \<Rightarrow> apply_snapshot_fence \<Rightarrow> unit result" where
  "matrixraft_validate_snapshot_install s f =
     (if af_installed_snapshot_index f \<noteq> li_index (sm_last_log_id (rs_meta s))
      then Inl (Storage ''snapshot install fence does not match snapshot last log index'')
      else matrixraft_validate_snapshot_floor_log_matching (rs_meta s) (af_first_retained_log_index f) (Some (sm_last_log_id (rs_meta s))))"

text \<open>Why a validated snapshot cannot be installed on a node now, if it cannot.\<close>

definition install_blocker :: "node_id \<Rightarrow> log_index \<Rightarrow> node \<Rightarrow> string option" where
  "install_blocker target i n = (case nd_rejected_apply_index n of
     Some required \<Rightarrow> (if i < required
        then Some (''snapshot index '' @ show_nat i @ '' is below rejected apply index '' @ show_nat required) else None)
   | None \<Rightarrow>
      (if nd_safety_applied_index n < nd_applied_index n
       then Some (''cannot install snapshot while node '' @ show_nat target @ '' has inflight apply tasks ''
              @ show_nat (nd_safety_applied_index n) @ ''..'' @ show_nat (nd_applied_index n))
       else if nd_applied_index n < nd_commit_index n
       then Some (''cannot install snapshot while node '' @ show_nat target @ '' has unapplied entries ''
              @ show_nat (nd_applied_index n) @ ''..'' @ show_nat (nd_commit_index n))
       else if i \<le> nd_commit_index n
       then Some (''snapshot index '' @ show_nat i @ '' is not newer than committed index '' @ show_nat (nd_commit_index n))
       else None))"

definition install_snapshot_to :: "node_id \<Rightarrow> raft_snapshot \<Rightarrow> apply_snapshot_fence \<Rightarrow> raft_cluster \<Rightarrow> (unit, raft_cluster) outcome" where
  "install_snapshot_to target s f c =
     (if rs_group_id s \<noteq> rc_group_id c then (Inl (InvalidRequest ''snapshot group id mismatch''), c)
      else case matrixraft_validate_snapshot_install s f of
        Inl e \<Rightarrow> (Inl e, c)
      | Inr _ \<Rightarrow> (case cluster_node c target of
          None \<Rightarrow> (Inl (NodeNotFound target), c)
        | Some n \<Rightarrow>
           (let i = li_index (sm_last_log_id (rs_meta s))
            in case install_blocker target i n of
                 Some reason \<Rightarrow> (Inl (InvalidRequest reason), c)
               | None \<Rightarrow>
                  (let c1 = clear_reorder_queue_for target (modify_node target (install_snapshot s) c);
                       c2 = reset_membership_from_snapshot target (sm_membership (rs_meta s)) (sm_members (rs_meta s)) c1;
                       c3 = mark_snapshot_membership_floor_applied i c2;
                       c4 = c3\<lparr>rc_snapshot_installers := bt_remove target (rc_snapshot_installers c3),
                            rc_pending_snapshots := bt_remove target (rc_pending_snapshots c3)\<rparr>;
                       c5 = modify_pipeline target (\<lambda>p. snd (receive_snapshot_chunk 0 True (snd (begin_snapshot_install
                              (''installed-'' @ show_nat target @ ''-'' @ show_nat i) i 1 p)))) c4
                   in (Inr (), refresh_cluster_indexes c5)))))"

definition install_snapshot_with_tail_to ::
  "node_id \<Rightarrow> raft_snapshot \<Rightarrow> apply_snapshot_fence \<Rightarrow> log_entry list \<Rightarrow> raft_cluster \<Rightarrow> (unit, raft_cluster) outcome" where
  "install_snapshot_with_tail_to target s f tail c =
     (let i = li_index (sm_last_log_id (rs_meta s))
      in if (case tail of [] \<Rightarrow> False | e # _ \<Rightarrow> idx e \<le> i)
         then (Inl (InvalidRequest ''tail catch-up entry overlaps installed snapshot''), c)
         else case cluster_node c target of
           None \<Rightarrow> (Inl (NodeNotFound target), c)
         | Some n \<Rightarrow>
            (let installed = map_option (\<lambda>m. li_index (sm_last_log_id m)) (nd_installed_snapshot n)
             in and_then (case installed of
                  Some k \<Rightarrow> (if k = i then (Inr (), c)
                    else if i < k
                    then (Inl (InvalidRequest (''snapshot index '' @ show_nat i @ '' is older than installed snapshot index '' @ show_nat k)), c)
                    else install_snapshot_to target s f c)
                | None \<Rightarrow> install_snapshot_to target s f c) (\<lambda>_ c1.
                  case cluster_node c1 target of
                    None \<Rightarrow> (Inl (NodeNotFound target), c1)
                  | Some n1 \<Rightarrow>
                     (let n2 = fold append_entry tail n1; n3 = advance_commit (max (rc_commit_index c1) (match_index n2)) n2;
                          c2 = modify_node target (\<lambda>_. n3) c1;
                          c3 = modify_pipeline target (\<lambda>p. mark_snapshot_rejoin_after_compacted_log
                                 (snd (handle_append_response (success_response (rc_current_term c2) (match_index n3)) p))) c2
                      in (Inr (), refresh_cluster_indexes c3)))))"

definition contains :: "string \<Rightarrow> string \<Rightarrow> bool" where
  "contains pat s = list_ex (\<lambda>i. take (length pat) (drop i s) = pat) [0..<Suc (length s)]"

definition snapshot_install_waits_for_apply :: "raft_error \<Rightarrow> bool" where
  "snapshot_install_waits_for_apply e = (case e of
     InvalidRequest reason \<Rightarrow> contains ''has inflight apply tasks'' reason \<or> contains ''has unapplied entries'' reason
   | _ \<Rightarrow> False)"

definition install_or_queue_completed_snapshot ::
  "node_id \<Rightarrow> raft_snapshot \<Rightarrow> apply_snapshot_fence \<Rightarrow> raft_cluster \<Rightarrow> (bool, raft_cluster) outcome" where
  "install_or_queue_completed_snapshot target s f c = (case install_snapshot_to target s f c of
     (Inr _, c1) \<Rightarrow> (Inr True, c1)
   | (Inl e, c1) \<Rightarrow>
      (if snapshot_install_waits_for_apply e
       then (Inr False, c1\<lparr>rc_pending_snapshots := bt_insert target \<lparr>ps_snapshot = s, ps_fence = f\<rparr> (rc_pending_snapshots c1)\<rparr>)
       else (Inl e, c1)))"

definition try_install_pending_snapshot_to :: "node_id \<Rightarrow> raft_cluster \<Rightarrow> (bool, raft_cluster) outcome" where
  "try_install_pending_snapshot_to target c = (case bt_get (rc_pending_snapshots c) target of
     None \<Rightarrow> (Inr False, c)
   | Some p \<Rightarrow> (case install_snapshot_to target (ps_snapshot p) (ps_fence p) c of
       (Inr _, c1) \<Rightarrow> (Inr True, c1)
     | (Inl e, c1) \<Rightarrow> (if snapshot_install_waits_for_apply e then (Inr False, c1) else (Inl e, c1))))"

section \<open>Results of apply tasks, fatal events\<close>

definition demote_rejecting_leader :: "node_id \<Rightarrow> raft_cluster \<Rightarrow> raft_cluster" where
  "demote_rejecting_leader i c =
     (let target = closest_follower c; c1 = modify_node i (\<lambda>n. n\<lparr>nd_raft_role := Follower\<rparr>) c;
          (moved, c2) = (case target of None \<Rightarrow> (False, c1)
            | Some t \<Rightarrow> (case campaign t True c1 of (r, c2) \<Rightarrow> (is_ok r, c2)))
      in if \<not> moved \<and> rc_leader_id c2 = Some i then invalidate_leader_lease (c2\<lparr>rc_leader_id := None\<rparr>) else c2)"

definition submit_apply_result :: "node_id \<Rightarrow> log_index \<Rightarrow> bool \<Rightarrow> raft_cluster \<Rightarrow> (unit, raft_cluster) outcome" where
  "submit_apply_result i applied rejected c = (case cluster_node c i of
     None \<Rightarrow> (Inl (NodeNotFound i), c)
   | Some n \<Rightarrow>
      (if applied < nd_safety_applied_index n \<or> nd_applied_index n < applied
       then (Inl (InvalidRequest (''applied_index '' @ show_nat applied @ '' outside safety/applied range ''
               @ show_nat (nd_safety_applied_index n) @ ''..'' @ show_nat (nd_applied_index n))), c)
       else
        (let c1 = modify_node i (\<lambda>n. n\<lparr>nd_safety_applied_index := applied,
                    nd_rejected_apply_index := (if rejected then Some (sat_add applied 1) else nd_rejected_apply_index n)\<rparr>) c;
             c2 = (if rejected \<and> nd_raft_role n = Leader then demote_rejecting_leader i c1 else c1)
         in and_then (try_install_pending_snapshot_to i c2) (\<lambda>_ c3. (Inr (), refresh_cluster_indexes c3)))))"

definition apply_fatal_event :: "node_id \<Rightarrow> raft_cluster \<Rightarrow> (node_id option, raft_cluster) outcome" where
  "apply_fatal_event i c =
     (case (if rc_leader_id c = Some i then step_down None c else (Inr None, c)) of (moved, c1) \<Rightarrow>
        and_then (set_node_healthy i False c1) (\<lambda>_ c2. (moved, c2)))"

section \<open>Automatic promotion\<close>

record learner_auto_promote_report =
  lp_learner_id :: node_id
  lp_auto_promote :: bool
  lp_state_before :: learner_auto_promote_state
  lp_state_after :: learner_auto_promote_state
  lp_catchup :: "learner_catch_up_loop_report option"
  lp_promoted :: bool
  lp_reason :: string

definition promote_report :: "node_id \<Rightarrow> bool \<Rightarrow> learner_auto_promote_state \<Rightarrow> learner_auto_promote_state
    \<Rightarrow> learner_catch_up_loop_report option \<Rightarrow> bool \<Rightarrow> string \<Rightarrow> learner_auto_promote_report" where
  "promote_report i auto was now catchup promoted reason = \<lparr>lp_learner_id = i, lp_auto_promote = auto,
     lp_state_before = was, lp_state_after = now, lp_catchup = catchup, lp_promoted = promoted, lp_reason = reason\<rparr>"

text \<open>The turn of a learner that may be promoted: catch up, then promote unless something stands in the way.\<close>

definition auto_promote_turn :: "node_id \<Rightarrow> node \<Rightarrow> raft_cluster \<Rightarrow> (learner_auto_promote_report, raft_cluster) outcome" where
  "auto_promote_turn i n c =
     (let was = nd_auto_promote_state n; turn = (if was = APPromoting then APPromoting else APCheck);
          c1 = modify_node i (\<lambda>n. n\<lparr>nd_auto_promote_state := turn, nd_auto_promote := False\<rparr>) c;
          (catchup, c2) = learner_catch_up_loop i c1;
          c3 = modify_node i (\<lambda>m. m\<lparr>nd_auto_promote := nd_auto_promote n\<rparr>) c2
      in case catchup of
           Inl e \<Rightarrow> (Inl e, c3)
         | Inr r \<Rightarrow>
            (let report = (\<lambda>now promoted reason. promote_report i (nd_auto_promote n) was now (Some r) promoted reason)
             in if was = APStop \<and> match_index n < rc_last_log_index c3
                then (Inr (report turn False ''learner_check_turn_started''), c3)
                else if \<not> cu_caught_up r then (Inr (report turn False ''learner_still_lagging''), c3)
                else if membership_change_fence_active c3 then (Inr (report turn False ''membership_change_pending''), c3)
                else if (case cluster_node c3 i of Some m \<Rightarrow> nd_replica_role m = VoterRole | None \<Rightarrow> False)
                then (Inr (report APPromoted True ''learner_promoted''), c3)
                else and_then (promote_peer i (modify_node i (\<lambda>m. m\<lparr>nd_auto_promote_state := APPromoting\<rparr>) c3)) (\<lambda>_ c4.
                       (Inr (report APPromoted True ''learner_promoted''), c4))))"

definition auto_promote_learner :: "node_id \<Rightarrow> raft_cluster \<Rightarrow> (learner_auto_promote_report, raft_cluster) outcome" where
  "auto_promote_learner i c = (case cluster_node c i of
     None \<Rightarrow> (Inl (NodeNotFound i), c)
   | Some n \<Rightarrow>
      (if nd_replica_role n = VoterRole \<and> nd_auto_promote_state n = APPromoted
       then (Inr (promote_report i True APPromoted APPromoted None True ''learner_promoted''), c)
       else if nd_replica_role n \<noteq> LearnerRole
       then (Inl (InvalidRequest (''node '' @ show_nat i @ '' is not a learner'')), c)
       else if \<not> nd_auto_promote n
       then (Inr (promote_report i False (nd_auto_promote_state n) (nd_auto_promote_state n) None False ''auto_promote_disabled''), c)
       else if nd_auto_promote_state n = APStop \<and> match_index n = 0
       then (Inr (promote_report i True APStop APStop None False ''learner_has_no_matched_log''), c)
       else auto_promote_turn i n c))"

section \<open>Snapshot calls for one peer\<close>

text \<open>A call on the pipeline of a peer, which must exist.\<close>

definition on_pipeline :: "node_id \<Rightarrow> (replication_pipeline \<Rightarrow> ('a, replication_pipeline) outcome) \<Rightarrow> raft_cluster
    \<Rightarrow> ('a, raft_cluster) outcome" where
  "on_pipeline i f c = (case bt_get (rc_peer_pipelines c) i of
     None \<Rightarrow> (Inl (NodeNotFound i), c)
   | Some p \<Rightarrow> (case f p of (r, p1) \<Rightarrow> (r, modify_pipeline i (\<lambda>_. p1) c)))"

definition total :: "(replication_pipeline \<Rightarrow> 'a \<times> replication_pipeline) \<Rightarrow> replication_pipeline \<Rightarrow> ('a, replication_pipeline) outcome" where
  "total f p = (case f p of (v, p1) \<Rightarrow> (Inr v, p1))"

definition receive_out_of_order_append_for :: "node_id \<Rightarrow> log_entry \<Rightarrow> raft_cluster \<Rightarrow> (unit, raft_cluster) outcome" where
  "receive_out_of_order_append_for i e c = on_pipeline i (receive_out_of_order e) c"

definition expire_peer_reorder_queue :: "node_id \<Rightarrow> raft_cluster \<Rightarrow> (u64, raft_cluster) outcome" where
  "expire_peer_reorder_queue i c = on_pipeline i (total expire_reorder_queue) c"

definition tick_reorder_queues :: "u64 \<Rightarrow> raft_cluster \<Rightarrow> u64 \<times> raft_cluster" where
  "tick_reorder_queues elapsed_us c =
     (fold (\<lambda>p dropped. sat_add dropped (fst (tick_reorder_queue elapsed_us p))) (bt_values (rc_peer_pipelines c)) 0,
      c\<lparr>rc_peer_pipelines := bt_map_values (\<lambda>p. snd (tick_reorder_queue elapsed_us p)) (rc_peer_pipelines c)\<rparr>)"

definition tick_reorder_queues_for_heartbeat :: "u64 \<Rightarrow> raft_cluster \<Rightarrow> u64 \<times> raft_cluster" where
  "tick_reorder_queues_for_heartbeat interval_ms c = tick_reorder_queues (sat_mul interval_ms 1000) c"

definition healthy_node :: "node_id \<Rightarrow> raft_cluster \<Rightarrow> bool" where
  "healthy_node i c = (case cluster_node c i of Some n \<Rightarrow> nd_healthy n | None \<Rightarrow> False)"

definition record_network_error_for :: "node_id \<Rightarrow> raft_cluster \<Rightarrow> (unit, raft_cluster) outcome" where
  "record_network_error_for i c = and_then (on_pipeline i (total record_network_error) c) (\<lambda>probe c1.
     if probe \<and> healthy_node i c1
     then and_then (catch_up_peer_with_reason i ''network_error_probe'' c1) (\<lambda>_ c2. (Inr (), c2)) else (Inr (), c1))"

definition record_replication_task_result_for :: "node_id \<Rightarrow> bool \<Rightarrow> raft_cluster \<Rightarrow> (bool, raft_cluster) outcome" where
  "record_replication_task_result_for i success c =
     (if cluster_node c i = None then (Inl (NodeNotFound i), c)
      else if success \<or> rc_snapshot_trigger c \<noteq> None then (Inr False, c)
      else case rc_leader_id c of
        None \<Rightarrow> (Inl NoLeader, c)
      | Some l \<Rightarrow> (case bt_get (rc_peer_pipelines c) i of
          None \<Rightarrow> (Inl (NodeNotFound i), c)
        | Some p \<Rightarrow>
           (case Option.bind (cluster_node c l) nd_installed_snapshot of
              Some s \<Rightarrow>
                (if pp_required_snapshot_index (rp_status p) \<le> li_index (sm_last_log_id s)
                 then and_then (on_pipeline i (begin_snapshot_send (sm_snapshot_id s) (li_index (sm_last_log_id s)) 1) c) (\<lambda>_ c1. (Inr True, c1))
                 else and_then (trigger_snapshot c) (\<lambda>_ c1. (Inr False, c1)))
            | None \<Rightarrow> and_then (trigger_snapshot c) (\<lambda>_ c1. (Inr False, c1)))))"

definition handle_snapshot_finish_from :: "node_id \<Rightarrow> bool \<Rightarrow> log_index \<Rightarrow> raft_cluster \<Rightarrow> (unit, raft_cluster) outcome" where
  "handle_snapshot_finish_from i accepted committed c = (case bt_get (rc_peer_pipelines c) i of
     None \<Rightarrow> (Inl (NodeNotFound i), c)
   | Some p \<Rightarrow>
      (if \<not> pp_snapshot_sending (rp_status p) \<and> \<not> pp_snapshot_installing (rp_status p) then (Inr (), c)
       else and_then (on_pipeline i (handle_snapshot_finish accepted committed) c) (\<lambda>_ c1.
         if accepted
         then (if healthy_node i c1
               then and_then (catch_up_peer_with_reason i ''snapshot_finish_tail'' c1) (\<lambda>_ c2. (Inr (), c2)) else (Inr (), c1))
         else if rc_leader_id c1 \<noteq> None \<and> rc_snapshot_trigger c1 = None
         then and_then (trigger_snapshot c1) (\<lambda>_ c2. (Inr (), c2)) else (Inr (), c1))))"

definition handle_install_snapshot_response ::
  "node_id \<Rightarrow> node_id \<Rightarrow> install_snapshot_response \<Rightarrow> raft_cluster \<Rightarrow> (unit, raft_cluster) outcome" where
  "handle_install_snapshot_response local_id i r c =
     (if cluster_node c local_id = None then (Inl (NodeNotFound local_id), c)
      else case (if rc_current_term c < is_term r then peer_response_is_active i c else Inr True) of
        Inl e \<Rightarrow> (Inl e, c)
      | Inr active \<Rightarrow>
         (if \<not> active then (Inr (), c)
          else if is_term r \<le> rc_current_term c
          then (if is_term r = rc_current_term c
                   \<and> (case bt_get (rc_peer_pipelines c) i of Some p \<Rightarrow> pp_snapshot_sending (rp_status p) | None \<Rightarrow> False)
                then and_then (handle_snapshot_finish_from i (is_accepted r) (is_committed_index r) c) (\<lambda>_ c1.
                       if \<not> is_accepted r \<and> rc_snapshot_trigger c1 = None
                       then and_then (trigger_snapshot c1) (\<lambda>_ c2. (Inr (), c2)) else (Inr (), c1))
                else (Inr (), c))
          else (Inr (), modify_nodes (demote_to_term (is_term r))
                 (snd (abort_leader_transfer ''snapshot_response_high_term'' (step_down_to (is_term r) c))))))"

definition begin_snapshot_send_to :: "node_id \<Rightarrow> string \<Rightarrow> log_index \<Rightarrow> u64 \<Rightarrow> raft_cluster \<Rightarrow> (unit, raft_cluster) outcome" where
  "begin_snapshot_send_to i snapshot_id k chunks c = on_pipeline i (begin_snapshot_send snapshot_id k chunks) c"

definition record_snapshot_chunk_sent_to :: "node_id \<Rightarrow> u64 \<Rightarrow> raft_cluster \<Rightarrow> (unit, raft_cluster) outcome" where
  "record_snapshot_chunk_sent_to i bytes c = on_pipeline i (record_snapshot_chunk_sent bytes) c"

definition acknowledge_snapshot_chunk_to :: "node_id \<Rightarrow> raft_cluster \<Rightarrow> (unit, raft_cluster) outcome" where
  "acknowledge_snapshot_chunk_to i c = on_pipeline i acknowledge_snapshot_chunk c"

definition update_snapshot_progress_from :: "node_id \<Rightarrow> bool \<Rightarrow> u64 \<Rightarrow> u64 \<Rightarrow> raft_cluster \<Rightarrow> (bool, raft_cluster) outcome" where
  "update_snapshot_progress_from i receiving elapsed_ms timeout_ms c =
     on_pipeline i (total (update_snapshot_progress receiving elapsed_ms timeout_ms)) c"

definition retry_snapshot_chunk_to :: "node_id \<Rightarrow> raft_cluster \<Rightarrow> (unit, raft_cluster) outcome" where
  "retry_snapshot_chunk_to i c = on_pipeline i retry_snapshot_chunk c"

definition begin_snapshot_install_from :: "node_id \<Rightarrow> string \<Rightarrow> log_index \<Rightarrow> u64 \<Rightarrow> raft_cluster \<Rightarrow> (unit, raft_cluster) outcome" where
  "begin_snapshot_install_from i snapshot_id k chunks c = on_pipeline i (begin_snapshot_install snapshot_id k chunks) c"

definition receive_snapshot_chunk_from :: "node_id \<Rightarrow> u64 \<Rightarrow> bool \<Rightarrow> raft_cluster \<Rightarrow> (unit, raft_cluster) outcome" where
  "receive_snapshot_chunk_from i bytes last_chunk c = on_pipeline i (receive_snapshot_chunk bytes last_chunk) c"

definition cancel_snapshot_send_to :: "node_id \<Rightarrow> raft_cluster \<Rightarrow> (unit, raft_cluster) outcome" where
  "cancel_snapshot_send_to i c = on_pipeline i (\<lambda>p. (Inr (), snd (cancel_snapshot_send_for_new_snapshot p))) c"

definition rollback_snapshot_install_from :: "node_id \<Rightarrow> raft_cluster \<Rightarrow> (unit, raft_cluster) outcome" where
  "rollback_snapshot_install_from i c = on_pipeline i (\<lambda>p. (Inr (), rollback_snapshot_install p)) c"

record witness_quorum_summary =
  wq_required :: u64
  wq_acknowledged :: u64
  wq_reached :: bool
  wq_voters :: "node_id list"
  wq_witnesses :: "node_id list"

definition witness_quorum_report :: "node_id list \<Rightarrow> raft_cluster \<Rightarrow> witness_quorum_summary \<times> raft_cluster" where
  "witness_quorum_report acks c =
     (let m = cluster_membership c;
          acknowledged = length (filter (\<lambda>i. i \<in> set acks) (quorum_members m (rc_ignore_witness c)));
          required = quorum_size_with_witness_policy m (rc_ignore_witness c)
      in (\<lparr>wq_required = required, wq_acknowledged = acknowledged, wq_reached = (required \<le> acknowledged),
            wq_voters = mb_voters m, wq_witnesses = mb_witnesses m\<rparr>,
          fold (\<lambda>i. modify_pipeline i (\<lambda>p. snd (record_witness_quorum acknowledged required p))) (mb_witnesses m) c))"

end
