(* ===== verification/MR_Group_Safety.thy ===== *)
theory MR_Group_Safety
  imports MR_Group_Change MR_Election_Safety
begin

text \<open>
  Well-formed groups. Nodes and pipelines are kept in order, every node is stored under its own id,
  exactly the members have a pipeline, and the leader, the voters counted in an election and the
  target of a leader transfer are members. The theory shows it for the operations on group state,
  leases, elections and appends; MR_Group_Steps and MR_Dispatch_Safety go on with the others.
\<close>

section \<open>The invariant\<close>

definition id_of :: "node btree \<Rightarrow> node_id \<Rightarrow> node_id option" where
  "id_of ns i = map_option nd_id (bt_get ns i)"

definition group_wf :: "node btree \<Rightarrow> replication_pipeline btree \<Rightarrow> node_id option \<Rightarrow> bool btree \<Rightarrow> bool btree
    \<Rightarrow> node_id option \<Rightarrow> bool" where
  "group_wf ns ps leader votes pre transferee \<longleftrightarrow> bt_invar ns \<and> bt_invar ps
     \<and> (\<forall>i. id_of ns i = None \<or> id_of ns i = Some i)
     \<and> (\<forall>i. bt_contains_key ps i \<longleftrightarrow> id_of ns i \<noteq> None)
     \<and> (\<forall>i. leader = Some i \<longrightarrow> id_of ns i \<noteq> None)
     \<and> (\<forall>i. bt_contains_key votes i \<longrightarrow> id_of ns i \<noteq> None)
     \<and> (\<forall>i. bt_contains_key pre i \<longrightarrow> id_of ns i \<noteq> None)
     \<and> (\<forall>i. transferee = Some i \<longrightarrow> id_of ns i \<noteq> None)"

definition transferee_of :: "leader_transfer_state option \<Rightarrow> node_id option" where
  "transferee_of t = (case t of Some s \<Rightarrow> (if lt_conclusion s = None then Some (lt_transferee_id s) else None) | None \<Rightarrow> None)"

definition group_ok :: "raft_cluster \<Rightarrow> bool" where
  "group_ok c = group_wf (rc_nodes c) (rc_peer_pipelines c) (rc_leader_id c) (rc_vote_responses c)
     (rc_pre_vote_responses c) (transferee_of (rc_leader_transfer c))"

lemma transferee_of_simps [simp]:
  "transferee_of None = None"
  "transferee_of (Some t) = (if lt_conclusion t = None then Some (lt_transferee_id t) else None)"
  by (simp_all add: transferee_of_def)

lemma transferee_of_active: "transferee_of (rc_leader_transfer c) = map_option lt_transferee_id (active_leader_transfer c)"
  by (auto simp: active_leader_transfer_def split: option.splits)

lemma group_ok_fields [simp]:
  "group_ok (c\<lparr>rc_group_id := v0\<rparr>) = group_ok c" "group_ok (c\<lparr>rc_config := v1\<rparr>) = group_ok c"
  "group_ok (c\<lparr>rc_snapshot_installers := v33\<rparr>) = group_ok c" "group_ok (c\<lparr>rc_pending_snapshots := v2\<rparr>) = group_ok c"
  "group_ok (c\<lparr>rc_current_term := v3\<rparr>) = group_ok c"
  "group_ok (c\<lparr>rc_commit_index := v4\<rparr>) = group_ok c" "group_ok (c\<lparr>rc_applied_index := v5\<rparr>) = group_ok c"
  "group_ok (c\<lparr>rc_last_log_index := v6\<rparr>) = group_ok c" "group_ok (c\<lparr>rc_last_index_before_current_term := v7\<rparr>) = group_ok c"
  "group_ok (c\<lparr>rc_pending_membership_change_index := v8\<rparr>) = group_ok c" "group_ok (c\<lparr>rc_membership_change_indexes := v9\<rparr>) = group_ok c"
  "group_ok (c\<lparr>rc_saving_membership_change_index := v10\<rparr>) = group_ok c" "group_ok (c\<lparr>rc_stabled_membership_change_index := v11\<rparr>) = group_ok c"
  "group_ok (c\<lparr>rc_running := v12\<rparr>) = group_ok c" "group_ok (c\<lparr>rc_leader_lease_valid := v13\<rparr>) = group_ok c"
  "group_ok (c\<lparr>rc_leader_lease_expired := v14\<rparr>) = group_ok c" "group_ok (c\<lparr>rc_leader_lease_elapsed_ms := v15\<rparr>) = group_ok c"
  "group_ok (c\<lparr>rc_follower_lease_valid := v16\<rparr>) = group_ok c" "group_ok (c\<lparr>rc_follower_lease_elapsed_ms := v17\<rparr>) = group_ok c"
  "group_ok (c\<lparr>rc_follower_lease_duration_ms := v18\<rparr>) = group_ok c" "group_ok (c\<lparr>rc_follower_lease_epoch := v19\<rparr>) = group_ok c"
  "group_ok (c\<lparr>rc_leader_lease_epoch := v20\<rparr>) = group_ok c" "group_ok (c\<lparr>rc_leader_lease_confirmations := v21\<rparr>) = group_ok c"
  "group_ok (c\<lparr>rc_leader_lease_confirmation_epochs := v22\<rparr>) = group_ok c" "group_ok (c\<lparr>rc_reorder_queues := v23\<rparr>) = group_ok c"
  "group_ok (c\<lparr>rc_ignore_witness := v24\<rparr>) = group_ok c" "group_ok (c\<lparr>rc_count_witness_in_commit_quorum := v25\<rparr>) = group_ok c"
  "group_ok (c\<lparr>rc_prohibits_election := v26\<rparr>) = group_ok c" "group_ok (c\<lparr>rc_leader_transfer_timeout_ticks := v27\<rparr>) = group_ok c"
  "group_ok (c\<lparr>rc_aborted_leader_transfers := v28\<rparr>) = group_ok c" "group_ok (c\<lparr>rc_duplicate_leader_transfer_requests := v29\<rparr>) = group_ok c"
  "group_ok (c\<lparr>rc_snapshot_trigger := v30\<rparr>) = group_ok c" "group_ok (c\<lparr>rc_duplicate_snapshot_trigger_requests := v31\<rparr>) = group_ok c"
  "group_ok (c\<lparr>rc_election_responses_term := v32\<rparr>) = group_ok c"
  by (simp_all add: group_ok_def)

lemma id_of_None: "id_of ns i = None \<longleftrightarrow> bt_get ns i = None"
  by (simp add: id_of_def)

lemma id_of_modify [simp]: "(\<And>n. nd_id (f n) = nd_id n) \<Longrightarrow> id_of (bt_modify i f ns) = id_of ns"
  by (rule ext) (auto simp: id_of_def option.map_comp comp_def)

lemma id_of_set: "bt_get ns i = Some n \<Longrightarrow> nd_id m = nd_id n \<Longrightarrow> id_of (bt_modify i (\<lambda>_. m) ns) = id_of ns"
  by (rule ext) (auto simp: id_of_def)

lemma id_of_map [simp]: "(\<And>n. nd_id (f n) = nd_id n) \<Longrightarrow> id_of (bt_map_values f ns) = id_of ns"
  by (rule ext) (simp add: id_of_def option.map_comp comp_def)

lemma contains_modify [simp]: "bt_contains_key (bt_modify i f m) = bt_contains_key m"
  by (rule ext) (simp add: bt_contains_key_def)

lemma contains_Nil [simp]: "\<not> bt_contains_key [] i"
  by (simp add: bt_contains_key_def bt_get_def)

lemma group_ok_leader [simp]:
  "group_ok c \<Longrightarrow> group_ok (c\<lparr>rc_leader_id := None\<rparr>)"
  "group_ok c \<Longrightarrow> group_ok (c\<lparr>rc_leader_id := Some i\<rparr>) \<longleftrightarrow> cluster_node c i \<noteq> None"
  by (simp_all add: group_ok_def group_wf_def id_of_None)

lemma group_ok_responses [simp]:
  "group_ok c \<Longrightarrow> group_ok (c\<lparr>rc_vote_responses := []\<rparr>)" "group_ok c \<Longrightarrow> group_ok (c\<lparr>rc_pre_vote_responses := []\<rparr>)"
  by (simp_all add: group_ok_def group_wf_def)

lemma group_ok_transfer [simp]:
  "group_ok c \<Longrightarrow> lt_conclusion t \<noteq> None \<Longrightarrow> group_ok (c\<lparr>rc_leader_transfer := Some t\<rparr>)"
  "group_ok c \<Longrightarrow> cluster_node c (lt_transferee_id t) = Some n \<Longrightarrow> group_ok (c\<lparr>rc_leader_transfer := Some t\<rparr>)"
  by (auto simp: group_ok_def group_wf_def id_of_def)

lemma group_ok_transferee:
  "group_ok c \<Longrightarrow> active_leader_transfer c = Some s \<Longrightarrow> cluster_node c (lt_transferee_id s) \<noteq> None"
  by (simp add: group_ok_def group_wf_def transferee_of_active id_of_None)

lemma group_ok_node: "group_ok c \<Longrightarrow> cluster_node c i = Some n \<Longrightarrow> nd_id n = i"
  unfolding group_ok_def group_wf_def id_of_def by (metis option.distinct(1) option.inject option.map(2))

lemma group_ok_leader_node: "group_ok c \<Longrightarrow> rc_leader_id c = Some l \<Longrightarrow> \<exists>n. cluster_node c l = Some n"
  by (simp add: group_ok_def group_wf_def id_of_None)

lemma group_ok_modify_node [simp]: "(\<And>n. nd_id (f n) = nd_id n) \<Longrightarrow> group_ok (modify_node i f c) = group_ok c"
  by (simp add: group_ok_def group_wf_def modify_node_def)

lemma group_ok_set_node: "cluster_node c i = Some n \<Longrightarrow> nd_id m = nd_id n \<Longrightarrow> group_ok (modify_node i (\<lambda>_. m) c) = group_ok c"
  by (simp add: group_ok_def group_wf_def modify_node_def id_of_set)

lemma group_ok_modify_nodes [simp]: "(\<And>n. nd_id (f n) = nd_id n) \<Longrightarrow> group_ok (modify_nodes f c) = group_ok c"
  by (simp add: group_ok_def group_wf_def modify_nodes_def)

lemma group_ok_modify_pipeline [simp]: "group_ok (modify_pipeline i f c) = group_ok c"
  by (simp add: group_ok_def group_wf_def modify_pipeline_def)

lemma group_ok_and_then:
  assumes "group_ok (snd r)" "\<And>v c. group_ok c \<Longrightarrow> group_ok (snd (f v c))"
  shows "group_ok (snd (and_then r f))"
  using assms by (cases r; cases "fst r") (auto simp: and_then_def)


section \<open>Nodes keep their id\<close>

lemma nd_id_append_entry [simp]: "nd_id (append_entry e n) = nd_id n"
  by (simp add: append_entry_def push_entry_def truncate_log_at_def Let_def split: option.splits)

lemma nd_id_append_witness [simp]: "nd_id (append_witness_entry e b n) = nd_id n"
  by (simp add: append_witness_entry_def acknowledge_witness_index_def Let_def split: option.splits)

lemma nd_id_advance [simp]: "nd_id (advance_commit k n) = nd_id n"
  by (simp add: advance_commit_def Let_def)

lemma nd_id_truncate [simp]: "nd_id (truncate_log_from i n) = nd_id n"
  by (simp add: truncate_log_from_def truncate_log_at_def Let_def split: option.splits)

lemma nd_id_compact [simp]: "nd_id (snd (compact_log_through i n)) = nd_id n"
  by (simp add: compact_log_through_def discard_log_through_def Let_def split: option.splits prod.splits)

lemma nd_id_install [simp]: "nd_id (install_snapshot s n) = nd_id n"
  by (simp add: install_snapshot_def discard_log_through_def Let_def split: option.splits prod.splits)

lemma nd_id_steps [simp]:
  "nd_id (install_vote r i t n) = nd_id n" "nd_id (demote_to_term t n) = nd_id n" "nd_id (receive_noop i e n) = nd_id n"
  "nd_id (follow_term t n) = nd_id n" "nd_id (become_voter n) = nd_id n" "nd_id (role_after_response b n) = nd_id n"
  "nd_id (follower_takes e b n) = nd_id n" "nd_id (receive_catch_up e n) = nd_id n" "nd_id (snd (compact_node l k i n)) = nd_id n"
  "nd_id (node_new i role b) = i"
  by (simp_all add: install_vote_def demote_to_term_def receive_noop_def follow_term_def become_voter_def role_after_response_def
      follower_takes_def receive_catch_up_def compact_node_def node_new_def)

lemma nd_id_fold: "(\<And>e n. nd_id (f e n) = nd_id n) \<Longrightarrow> nd_id (fold f es n) = nd_id n"
  by (induction es arbitrary: n) simp_all

lemma nd_id_catch_up [simp]: "nd_id (catch_up_node k l n) = nd_id n"
  by (simp add: catch_up_node_def Let_def nd_id_fold)

lemma nd_id_cut [simp]: "nd_id (ap_node (cut_conflict e s)) = nd_id (ap_node s)"
  by (simp add: cut_conflict_def)

lemma nd_id_append_loop [simp]: "nd_id (ap_node (snd (append_loop changes applied cap es s))) = nd_id (ap_node s)"
  by (induction es arbitrary: s cap) (simp_all add: Let_def)

section \<open>Group state\<close>

lemma group_ok_indexes [simp]: "group_ok (refresh_cluster_indexes c) = group_ok c"
  by (simp add: refresh_cluster_indexes_def Let_def)

lemma group_ok_commit [simp]: "group_ok (refresh_commit_index c) = group_ok c"
  by (simp add: refresh_commit_index_def Let_def split: option.split)

lemma group_ok_witness_policy [simp]: "group_ok (snd (refresh_witness_commit_quorum_policy c)) = group_ok c"
  by (simp add: refresh_witness_commit_quorum_policy_def Let_def)

lemma group_ok_queues [simp]:
  "group_ok (clear_reorder_queues c) = group_ok c" "group_ok (clear_reorder_queue_for i c) = group_ok c"
  "group_ok (cache_reordered_append i q ks c) = group_ok c" "group_ok (remove_reordered i k c) = group_ok c"
  "group_ok (tidy_reorder_queue i c) = group_ok c"
  by (simp_all add: clear_reorder_queues_def clear_reorder_queue_for_def cache_reordered_append_def remove_reordered_def
      tidy_reorder_queue_def split: option.split)

lemma group_ok_leases [simp]:
  "group_ok (invalidate_follower_lease c) = group_ok c" "group_ok (invalidate_leader_lease c) = group_ok c"
  "group_ok (expire_leader_lease c) = group_ok c" "group_ok (expire_follower_lease c) = group_ok c"
  "group_ok (reset_leader_lease_epoch c) = group_ok c" "group_ok (snd (receive_follower_lease_item e c)) = group_ok c"
  "group_ok (recompute_lease b c) = group_ok c" "group_ok (snd (finish_leader_lease_renewal c)) = group_ok c"
  "group_ok (snd (begin_leader_lease_renewal c)) = group_ok c"
  by (simp_all add: invalidate_follower_lease_def invalidate_leader_lease_def expire_leader_lease_def expire_follower_lease_def
      reset_leader_lease_epoch_def receive_follower_lease_item_def recompute_lease_def finish_leader_lease_renewal_def
      begin_leader_lease_renewal_def Let_def)

lemma group_ok_confirmation [simp]:
  "group_ok (snd (receive_leader_lease_confirmation_inner i e d b c)) = group_ok c"
  "group_ok (record_leader_lease_confirmation_inner i b c) = group_ok c"
  by (simp_all add: receive_leader_lease_confirmation_inner_def record_leader_lease_confirmation_inner_def Let_def split: option.split)

lemma group_ok_renew [simp]:
  "group_ok (renew_follower_lease c) = group_ok c" "group_ok (renew_follower_lease_from_append_entries e c) = group_ok c"
  "group_ok (set_follower_lease_valid b c) = group_ok c" "group_ok (snd (tick_follower_lease ms c)) = group_ok c"
  by (simp_all add: renew_follower_lease_def renew_follower_lease_from_append_entries_def set_follower_lease_valid_def
      tick_follower_lease_def Let_def)

lemma group_ok_fold: "(\<And>x c. group_ok c \<Longrightarrow> group_ok (f x c)) \<Longrightarrow> group_ok c \<Longrightarrow> group_ok (fold f xs c)"
  by (induction xs arbitrary: c) simp_all

lemma group_ok_live_renew [simp]: "group_ok c \<Longrightarrow> group_ok (snd (renew_leader_lease_from_live_quorum c))"
  using group_ok_leases(9) [of c]
  by (auto simp: renew_leader_lease_from_live_quorum_def simp del: group_ok_leases(9) intro!: group_ok_fold split: option.split prod.split bool.split)

lemma group_ok_ticks [simp]:
  "group_ok c \<Longrightarrow> group_ok (set_leader_lease_valid b c)" "group_ok c \<Longrightarrow> group_ok (snd (tick_leader_lease ms c))"
  by (simp_all add: set_leader_lease_valid_def tick_leader_lease_def Let_def)

lemma group_ok_election_responses [simp]:
  "group_ok c \<Longrightarrow> group_ok (clear_election_responses c)"
  "group_ok c \<Longrightarrow> group_ok (discard_election_responses_from_an_earlier_term c)"
  by (simp_all add: clear_election_responses_def discard_election_responses_from_an_earlier_term_def)

lemma contains_remove: "bt_contains_key (bt_remove i m) j \<longleftrightarrow> j \<noteq> i \<and> bt_contains_key m j"
  by (simp add: bt_contains_key_def)

lemma group_ok_remove_response [simp]: "group_ok c \<Longrightarrow> group_ok (remove_election_response_from i c)"
  by (simp add: group_ok_def group_wf_def remove_election_response_from_def contains_remove)

lemma group_ok_ignore_witness [simp]: "group_ok c \<Longrightarrow> group_ok (set_ignore_witness b c)"
  by (simp add: set_ignore_witness_def Let_def group_ok_fold)

lemma group_ok_transfers [simp]:
  "group_ok c \<Longrightarrow> group_ok (snd (abort_leader_transfer r c))" "group_ok c \<Longrightarrow> group_ok (snd (complete_leader_transfer r c))"
  by (simp_all add: abort_leader_transfer_def complete_leader_transfer_def split: option.split)

lemma group_ok_settle [simp]: "group_ok c \<Longrightarrow> group_ok (settle_leader_transfer i c)"
  by (simp add: settle_leader_transfer_def split: option.split)

lemma group_ok_tick_transfer [simp]: "group_ok c \<Longrightarrow> group_ok (snd (tick_leader_transfer c))"
  using group_ok_transferee [of c] by (auto simp: tick_leader_transfer_def Let_def split: option.split)

lemma group_ok_lost_quorum [simp]: "group_ok c \<Longrightarrow> group_ok (snd (step_down_leader_if_lost_quorum c))"
  by (simp add: step_down_leader_if_lost_quorum_def)

lemma group_ok_health [simp]:
  "group_ok (snd (set_node_healthy i b c)) = group_ok c" "group_ok (snd (mark_peer_active i c)) = group_ok c"
  by (simp_all add: set_node_healthy_def mark_peer_active_def Let_def)

lemma group_ok_liveness_step: "group_ok (snd acc) \<Longrightarrow> group_ok (snd (liveness_step l ms elapsed i acc))"
  by (cases acc) (simp add: liveness_step_def Let_def split: option.split)

lemma group_ok_liveness [simp]: "group_ok c \<Longrightarrow> group_ok (snd (tick_peer_liveness ms c))"
proof -
  have "group_ok (snd (fold (liveness_step l t ms) ks acc))" if "group_ok (snd acc)" for l t ks acc
    using that by (induction ks arbitrary: acc) (simp_all add: group_ok_liveness_step)
  then show "group_ok c \<Longrightarrow> group_ok (snd (tick_peer_liveness ms c))"
    by (simp add: tick_peer_liveness_def split: option.split)
qed

lemma group_ok_fences [simp]:
  "group_ok (snd (begin_pending_membership_change i c)) = group_ok c"
  "group_ok (snd (begin_saving_membership_change i c)) = group_ok c"
  "group_ok (mark_membership_change_applied i c) = group_ok c" "group_ok (mark_membership_change_stabled i c) = group_ok c"
  "group_ok (mark_snapshot_membership_floor_applied i c) = group_ok c"
  "group_ok (reset_pending_membership_change_after_truncation k i c) = group_ok c"
  by (simp_all add: begin_pending_membership_change_def begin_saving_membership_change_def mark_membership_change_applied_def
      mark_membership_change_stabled_def mark_snapshot_membership_floor_applied_def
      reset_pending_membership_change_after_truncation_def Let_def split: option.split)

lemma group_ok_stabled [simp]: "group_ok (snd (submit_stabled_result f l k c)) = group_ok c"
  by (simp add: submit_stabled_result_def Let_def split: option.split)

lemma group_ok_apply_task [simp]:
  "group_ok (snd (mark_apply_task_inflight i k c)) = group_ok c"
  "group_ok (snd (mark_apply_task_inflight_with_fence i k d c)) = group_ok c"
  by (simp_all add: mark_apply_task_inflight_def mark_apply_task_inflight_with_fence_def Let_def split: option.split sum.split)

section \<open>Pipelines of the members\<close>

lemma contains_insert: "bt_contains_key (bt_insert i v m) j \<longleftrightarrow> j = i \<or> bt_contains_key m j"
  using fst_set_bt_insert [of i v m] by (auto simp: bt_contains_key_def bt_get_def map_of_eq_None_iff)

lemma entry_pipeline_frame [simp]:
  "rc_nodes (entry_pipeline i p c) = rc_nodes c" "rc_leader_id (entry_pipeline i p c) = rc_leader_id c"
  "rc_vote_responses (entry_pipeline i p c) = rc_vote_responses c"
  "rc_pre_vote_responses (entry_pipeline i p c) = rc_pre_vote_responses c"
  "rc_leader_transfer (entry_pipeline i p c) = rc_leader_transfer c"
  "bt_contains_key (rc_peer_pipelines (entry_pipeline i p c)) j \<longleftrightarrow> j = i \<or> bt_contains_key (rc_peer_pipelines c) j"
  "bt_invar (rc_peer_pipelines c) \<Longrightarrow> bt_invar (rc_peer_pipelines (entry_pipeline i p c))"
  by (auto simp: entry_pipeline_def contains_insert)

text \<open>The invariant without the pipelines of the members: what holds before the pipelines are refreshed.\<close>

definition nodes_ok :: "raft_cluster \<Rightarrow> bool" where
  "nodes_ok c \<longleftrightarrow> bt_invar (rc_peer_pipelines c) \<and> (\<forall>i. bt_contains_key (rc_peer_pipelines c) i \<longrightarrow> cluster_node c i \<noteq> None)
     \<and> group_wf (rc_nodes c) (map (\<lambda>i. (i, pipeline_new i 1 (config_pipeline_limits (rc_config c)))) (bt_keys (rc_nodes c)))
         (rc_leader_id c) (rc_vote_responses c) (rc_pre_vote_responses c) (transferee_of (rc_leader_transfer c))"

lemma bt_get_fresh: "bt_get (map (\<lambda>i. (i, f i)) (bt_keys m)) i = (if bt_contains_key m i then Some (f i) else None)"
  unfolding bt_get_def bt_contains_key_def bt_keys_def by (induction m) auto

lemma contains_fresh [simp]: "bt_contains_key (map (\<lambda>i. (i, f i)) (bt_keys m)) = bt_contains_key m"
  by (rule ext) (simp add: bt_get_fresh bt_contains_key_def [of "map _ _"])

lemma invar_fresh [simp]: "bt_invar (map (\<lambda>i. (i, f i)) (bt_keys m)) = bt_invar m"
  by (simp add: bt_invar_def bt_keys_def comp_def)

lemma group_ok_iff: "group_ok c \<longleftrightarrow> nodes_ok c \<and> (\<forall>i. cluster_node c i \<noteq> None \<longrightarrow> bt_contains_key (rc_peer_pipelines c) i)"
  unfolding group_ok_def nodes_ok_def group_wf_def by (auto simp: id_of_None bt_contains_key_def [of "rc_nodes c"])

lemma nodes_ok_entry: "nodes_ok c \<Longrightarrow> cluster_node c i \<noteq> None \<Longrightarrow> nodes_ok (entry_pipeline i p c)"
  by (auto simp: nodes_ok_def group_wf_def)

lemma nodes_ok_entries:
  fixes p :: "'a \<Rightarrow> replication_pipeline"
  assumes "nodes_ok c" "\<And>i. i \<in> set ks \<Longrightarrow> cluster_node c (k i) \<noteq> None"
  defines "c' \<equiv> fold (\<lambda>i. entry_pipeline (k i) (p i)) ks c"
  shows "nodes_ok c' \<and> rc_nodes c' = rc_nodes c
    \<and> (\<forall>i. bt_contains_key (rc_peer_pipelines c') i \<longleftrightarrow> i \<in> k ` set ks \<or> bt_contains_key (rc_peer_pipelines c) i)"
  using assms(1,2) unfolding c'_def
proof (induction ks arbitrary: c)
  case (Cons i ks)
  let ?c = "entry_pipeline (k i) (p i) c"
  have "nodes_ok ?c" using Cons.prems by (intro nodes_ok_entry) simp_all
  then show ?case using Cons.IH [of ?c] Cons.prems by auto
qed simp

lemma group_ok_refresh: 
  assumes "nodes_ok c" shows "group_ok (refresh_replication_pipelines c)"
proof -
  let ?p = "\<lambda>x. pipeline_new (fst x) (sat_add (match_index (snd x)) 1) (config_pipeline_limits (rc_config c))"
  let ?c = "fold (\<lambda>x. entry_pipeline (fst x) (?p x)) (rc_nodes c) c"
  have member: "cluster_node c i \<noteq> None \<longleftrightarrow> i \<in> fst ` set (rc_nodes c)" for i
    by (simp add: bt_get_def map_of_eq_None_iff)
  have "group_ok ?c" using nodes_ok_entries [OF assms, of "rc_nodes c" fst ?p] member by (auto simp: group_ok_iff)
  then show ?thesis by (auto simp: refresh_replication_pipelines_def Let_def case_prod_unfold split: option.split)
qed

lemma group_ok_nodes_ok: "group_ok c \<Longrightarrow> nodes_ok c"
  by (simp add: group_ok_iff)

lemma group_ok_refresh_pipelines [simp]: "group_ok c \<Longrightarrow> group_ok (refresh_replication_pipelines c)"
  by (intro group_ok_refresh group_ok_nodes_ok)

lemma group_ok_entry: "group_ok c \<Longrightarrow> cluster_node c i \<noteq> None \<Longrightarrow> group_ok (entry_pipeline i p c)"
  by (auto simp: group_ok_iff nodes_ok_entry)

lemma group_ok_reset_pipelines [simp]:
  assumes "group_ok c" shows "group_ok (reset_replication_pipelines_for_leader l c)"
proof -
  have "group_ok (fold (reset_pipeline_for l) ks c)" if "group_ok c" "\<And>i. i \<in> set ks \<Longrightarrow> cluster_node c i \<noteq> None" for ks c
    using that
  proof (induction ks arbitrary: c)
    case (Cons i ks)
    have "rc_nodes (reset_pipeline_for l i c) = rc_nodes c" by (simp add: reset_pipeline_for_def Let_def modify_pipeline_def)
    then show ?case using Cons by (simp add: reset_pipeline_for_def Let_def group_ok_entry)
  qed simp
  from this [OF assms, of "bt_keys (rc_nodes c)"] show ?thesis
    by (simp add: reset_replication_pipelines_for_leader_def bt_keys_get)
qed

section \<open>Elections\<close>

lemma group_ok_noop [simp]: "group_ok (snd (broadcast_leader_noop c)) = group_ok c"
  by (simp add: broadcast_leader_noop_def Let_def split: option.split sum.split)

lemma node_frames [simp]:
  "rc_nodes (clear_reorder_queues c) = rc_nodes c" "rc_nodes (clear_election_responses c) = rc_nodes c"
  "rc_nodes (settle_leader_transfer i c) = rc_nodes c"
  by (simp_all add: clear_reorder_queues_def clear_election_responses_def settle_leader_transfer_def
      abort_leader_transfer_def complete_leader_transfer_def split: option.split)

lemma snd_case_sum: "snd (case x of Inl e \<Rightarrow> f e | Inr v \<Rightarrow> g v) = (case x of Inl e \<Rightarrow> snd (f e) | Inr v \<Rightarrow> snd (g v))"
  by (simp split: sum.split)

lemma group_ok_campaign [simp]: "group_ok c \<Longrightarrow> group_ok (snd (campaign i forced c))"
  by (auto simp: campaign_def Let_def case_prod_unfold snd_case_sum split: option.split sum.split)

lemma group_ok_start_stop [simp]:
  "group_ok c \<Longrightarrow> group_ok (snd (cluster_start c))" "group_ok (snd (cluster_stop c)) = group_ok c"
  by (simp_all add: cluster_start_def cluster_stop_def Let_def split: option.split)

lemma group_ok_timeout_now [simp]: "group_ok c \<Longrightarrow> group_ok (snd (timeout_now from target c))"
  by (simp add: timeout_now_def case_prod_unfold snd_case_sum split: option.split sum.split)

lemma group_ok_observe [simp]: "group_ok (observe_vote_request_candidate t i b c) = group_ok c"
  by (simp add: observe_vote_request_candidate_def)

lemma group_ok_adopt_term [simp]: "group_ok c \<Longrightarrow> group_ok (adopt_request_term target t c)"
  by (simp add: adopt_request_term_def)

lemma group_ok_cast_vote [simp]: "group_ok c \<Longrightarrow> group_ok (snd (cast_vote target q n c))"
  by (simp add: cast_vote_def Let_def)

lemma group_ok_vote_to [simp]: "group_ok c \<Longrightarrow> group_ok (snd (vote_to target q c))"
  by (simp add: vote_to_def Let_def case_prod_unfold split: option.split)

lemma group_ok_vote_insert: "group_ok c \<Longrightarrow> cluster_node c i \<noteq> None \<Longrightarrow> group_ok (c\<lparr>rc_vote_responses := bt_insert i b (rc_vote_responses c)\<rparr>)"
  by (auto simp: group_ok_def group_wf_def contains_insert id_of_None)

lemma group_ok_start_vote [simp]: "group_ok c \<Longrightarrow> group_ok (snd (start_vote_after_pre_vote_quorum i c))"
  by (auto simp: start_vote_after_pre_vote_quorum_def Let_def intro!: group_ok_vote_insert split: option.split)

section \<open>The append handler\<close>

lemma group_ok_adopt_leader: "group_ok c \<Longrightarrow> cluster_node c (aq_leader_id q) \<noteq> None \<Longrightarrow> group_ok (adopt_append_leader q c)"
  by (auto simp: adopt_append_leader_def Let_def)

lemma group_ok_append_lease [simp]: "group_ok (snd (grant_append_lease t q c)) = group_ok c"
  by (simp add: grant_append_lease_def Let_def)

lemma group_ok_append_finish: "cluster_node c t = Some n \<Longrightarrow> nd_id (ap_node s) = nd_id n \<Longrightarrow> group_ok c
  \<Longrightarrow> group_ok (snd (append_finish t q lease s c))"
  by (simp add: append_finish_def Let_def group_ok_set_node split: option.split)

lemma append_begin_id [simp]: "nd_id (ap_node (append_begin q c n)) = nd_id n"
  by (simp add: append_begin_def)

lemma group_ok_append_to_node: "cluster_node c t = Some n \<Longrightarrow> group_ok c \<Longrightarrow> group_ok (snd (append_to_node t q changes lease n c))"
  by (simp add: append_to_node_def Let_def case_prod_unfold group_ok_set_node group_ok_append_finish split: option.split)

lemma group_ok_append_core [simp]:
  assumes "group_ok c" shows "group_ok (snd (append_core t q changes c))"
proof -
  have "cluster_node c (aq_leader_id q) \<noteq> None" if "leader_is_eligible c (aq_leader_id q)"
    using that by (auto simp: leader_is_eligible_def split: option.splits)
  then show ?thesis using assms
    by (auto simp: append_core_def case_prod_unfold group_ok_adopt_leader group_ok_append_to_node split: option.split)
qed

lemma group_ok_drain [simp]: "group_ok c \<Longrightarrow> group_ok (snd (drain_reordered_appends fuel t c))"
proof (induction fuel arbitrary: c)
  case 0
  then show ?case by (subst drain_reordered_appends.simps) (simp split: option.split)
next
  case (Suc fuel)
  then show ?case
    by (subst drain_reordered_appends.simps)
      (simp add: case_prod_unfold snd_case_sum split: option.split append_end.split sum.split)
qed

lemma group_ok_append [simp]:
  "group_ok c \<Longrightarrow> group_ok (snd (append_entries_with_membership_change_indexes_to t q changes c))"
  "group_ok c \<Longrightarrow> group_ok (snd (append_entries_to t q c))"
  by (simp_all add: append_entries_with_membership_change_indexes_to_def append_entries_to_def case_prod_unfold snd_case_sum
      split: append_end.split sum.split)

end
