(* ===== verification/MR_Group_Steps.thy ===== *)
theory MR_Group_Steps
  imports MR_Group_Safety
begin

text \<open>
  The operations that replicate and that change the group keep it well-formed, and the step
  relation over every operation of the group object that changes its state.
\<close>

section \<open>Replication\<close>

lemma group_ok_trigger [simp]:
  "group_ok (snd (trigger_snapshot c)) = group_ok c" "group_ok (snd (tick_snapshot_trigger c)) = group_ok c"
  "group_ok (snd (complete_snapshot_trigger s c)) = group_ok c"
  by (simp_all add: trigger_snapshot_def tick_snapshot_trigger_def complete_snapshot_trigger_def Let_def split: option.split sum.split)

lemma offer_snapshot_keys [simp]: "map fst (snd (offer_snapshot l s i ps)) = map fst ps"
proof (induction ps)
  case (Cons x ps)
  then show ?case by (cases x) (simp add: Let_def case_prod_unfold snd_case_sum split: sum.split)
qed simp

lemma contains_keys: "bt_contains_key m = (\<lambda>i. i \<in> set (map fst m))"
  by (rule ext) (auto simp: bt_contains_key_def bt_get_def map_of_eq_None_iff)

lemma group_ok_same_pipelines:
  assumes "map fst ps = map fst (rc_peer_pipelines c)" shows "group_ok (c\<lparr>rc_peer_pipelines := ps\<rparr>) = group_ok c"
proof -
  have "bt_contains_key ps = bt_contains_key (rc_peer_pipelines c)" using assms by (simp only: contains_keys)
  moreover have "bt_invar ps = bt_invar (rc_peer_pipelines c)" using assms by (simp add: bt_invar_def)
  ultimately show ?thesis by (simp add: group_ok_def group_wf_def)
qed

lemma group_ok_publish [simp]: "group_ok (snd (publish_ready_snapshot_to_waiting_peers m c)) = group_ok c"
  by (simp add: publish_ready_snapshot_to_waiting_peers_def Let_def case_prod_unfold group_ok_same_pipelines split: option.split)

lemma group_ok_ready [simp]: "group_ok (snd (handle_snapshot_ready s b c)) = group_ok c"
  by (simp add: handle_snapshot_ready_def Let_def split: option.split)

lemma group_ok_compact [simp]:
  "group_ok (snd (compact_logs_through_with_leader_limit i l c)) = group_ok c"
  "group_ok (snd (compact_logs_through i c)) = group_ok c" "group_ok (snd (release_memory_to i l c)) = group_ok c"
  by (simp_all add: compact_logs_through_with_leader_limit_def compact_logs_through_def release_memory_to_def Let_def case_prod_unfold)

lemma group_ok_release [simp]: "group_ok (snd (cluster_release_memory c)) = group_ok c"
  by (simp add: cluster_release_memory_def Let_def case_prod_unfold split: option.split sum.split)

lemma group_ok_and_then_iff [simp]:
  "group_ok (snd (and_then r f)) = (case fst r of Inl _ \<Rightarrow> group_ok (snd r) | Inr v \<Rightarrow> group_ok (snd (f v (snd r))))"
  by (cases r; cases "fst r") (simp_all add: and_then_def)

lemma group_ok_promote [simp]:
  "group_ok (snd (promote_peer i c)) = group_ok c" "group_ok (snd (promote_caught_up_auto_learner i c)) = group_ok c"
  "group_ok (snd (maybe_auto_promote_zero_lag_learner i c)) = group_ok c"
  by (simp_all add: promote_peer_def promote_caught_up_auto_learner_def maybe_auto_promote_zero_lag_learner_def
      split: option.split sum.split)

lemma group_ok_catch_up [simp]: "group_ok (snd (catch_up_peer_with_reason i r c)) = group_ok c"
  by (simp add: catch_up_peer_with_reason_def Let_def case_prod_unfold group_ok_set_node split: option.split sum.split)

lemma group_ok_catch_up_calls [simp]:
  "group_ok (snd (catch_up_peer i c)) = group_ok c" "group_ok (snd (learner_catch_up_loop i c)) = group_ok c"
  "group_ok (snd (partition_peer i c)) = group_ok c" "group_ok (snd (heal_peer i c)) = group_ok c"
  by (simp_all add: catch_up_peer_def learner_catch_up_loop_def partition_peer_def heal_peer_def split: option.split sum.split)

lemma group_ok_stale_snapshot [simp]: "group_ok (snd (trigger_new_snapshot_if_leader_snapshot_is_stale i k c)) = group_ok c"
  by (simp add: trigger_new_snapshot_if_leader_snapshot_is_stale_def Let_def split: option.split sum.split)

lemma group_ok_step_down_to [simp]: "group_ok c \<Longrightarrow> group_ok (step_down_to t c)"
  by (simp add: step_down_to_def)

lemma group_ok_lease_response [simp]: "group_ok (record_lease_response i r b w c) = group_ok c"
  by (simp add: record_lease_response_def)

lemma group_ok_pipeline_response [simp]: "group_ok (snd (pipeline_response i r b c)) = group_ok c"
  by (simp add: pipeline_response_def Let_def case_prod_unfold split: option.split)

lemma group_ok_if: "(P \<Longrightarrow> group_ok (snd a)) \<Longrightarrow> (\<not> P \<Longrightarrow> group_ok (snd b)) \<Longrightarrow> group_ok (snd (if P then a else b))"
  by simp

lemma group_ok_case_prod: "group_ok (snd (f (fst p) (snd p))) \<Longrightarrow> group_ok (snd (case p of (x, y) \<Rightarrow> f x y))"
  by (simp add: case_prod_unfold)

lemma group_ok_case_sum:
  "(\<And>e. x = Inl e \<Longrightarrow> group_ok (snd (f e))) \<Longrightarrow> (\<And>v. x = Inr v \<Longrightarrow> group_ok (snd (g v)))
     \<Longrightarrow> group_ok (snd (case x of Inl e \<Rightarrow> f e | Inr v \<Rightarrow> g v))"
  by (simp split: sum.split)

lemma group_ok_case_option:
  "group_ok (snd a) \<Longrightarrow> (\<And>v. x = Some v \<Longrightarrow> group_ok (snd (g v)))
     \<Longrightarrow> group_ok (snd (case x of None \<Rightarrow> a | Some v \<Rightarrow> g v))"
  by (simp split: option.split)

lemmas group_ok_flow = group_ok_and_then group_ok_if group_ok_case_prod group_ok_case_sum group_ok_case_option

lemma group_ok_follow_up [simp]: "group_ok c \<Longrightarrow> group_ok (snd (follow_up_response i r res c))"
  unfolding follow_up_response_def Let_def by (intro group_ok_flow) (simp_all del: group_ok_and_then_iff)

lemma group_ok_append_response [simp]:
  "group_ok c \<Longrightarrow> group_ok (snd (handle_append_entries_response_inner l i r a b c))"
  "group_ok c \<Longrightarrow> group_ok (snd (handle_append_entries_response l i r c))"
  unfolding handle_append_entries_response_def handle_append_entries_response_inner_def Let_def
  by (intro group_ok_flow; simp del: group_ok_and_then_iff)+

section \<open>Proposals, votes, heartbeats\<close>

lemma modify_pipeline_nodes [simp]: "rc_nodes (modify_pipeline i f c) = rc_nodes c"
  by (simp add: modify_pipeline_def)

lemma group_ok_propose_to [simp]: "group_ok c \<Longrightarrow> group_ok (snd (propose_to l e ch rn i c))"
  by (auto simp: propose_to_def Let_def case_prod_unfold snd_case_sum group_ok_set_node split: option.split sum.split)

lemma group_ok_propose_loop [simp]: "group_ok c \<Longrightarrow> group_ok (snd (propose_loop l e ch rn is c))"
  by (induction "is" arbitrary: c) (simp_all split: sum.split)

lemma group_ok_propose_entry [simp]: "group_ok c \<Longrightarrow> group_ok (snd (propose_entry l ch e c))"
  by (simp add: propose_entry_def Let_def case_prod_unfold split: sum.split)

lemma group_ok_reclaim [simp]: "group_ok (snd (reclaim_for_proposal c)) = group_ok c"
  by (simp add: reclaim_for_proposal_def split: sum.split)

lemma group_ok_propose [simp]:
  "group_ok c \<Longrightarrow> group_ok (snd (propose_with_options p opts c))" "group_ok c \<Longrightarrow> group_ok (snd (propose p c))"
  "group_ok c \<Longrightarrow> group_ok (snd (propose_membership_change p c))"
proof -
  show options: "group_ok (snd (propose_with_options p opts c))" if "group_ok c" for opts
    using that by (simp add: propose_with_options_def Let_def split: option.split sum.split)
  show "group_ok c \<Longrightarrow> group_ok (snd (propose p c))" "group_ok c \<Longrightarrow> group_ok (snd (propose_membership_change p c))"
    by (simp_all add: propose_def propose_membership_change_def options split: sum.split)
qed

lemma group_ok_become_leader [simp]: "group_ok c \<Longrightarrow> group_ok (snd (become_leader_current_term i c))"
  by (auto simp: become_leader_current_term_def Let_def split: option.split sum.split)

lemma contains_count: "bt_contains_key (count_response l i g m) j \<longleftrightarrow> j = i \<or> j = l \<or> bt_contains_key m j"
  by (auto simp: count_response_def or_insert_def contains_insert)

lemma group_ok_count:
  assumes "group_ok c" "cluster_node c l \<noteq> None" "cluster_node c i \<noteq> None"
  shows "group_ok (c\<lparr>rc_vote_responses := count_response l i g (rc_vote_responses c)\<rparr>)"
    and "group_ok (c\<lparr>rc_pre_vote_responses := count_response l i g (rc_pre_vote_responses c)\<rparr>)"
  using assms by (auto simp: group_ok_def group_wf_def contains_count id_of_None)

lemma discard_nodes [simp]: "rc_nodes (discard_election_responses_from_an_earlier_term c) = rc_nodes c"
  by (simp add: discard_election_responses_from_an_earlier_term_def)

lemma group_ok_vote_response:
  "group_ok c \<Longrightarrow> cluster_node c l \<noteq> None \<Longrightarrow> group_ok (snd (record_vote_response l i g pre c))"
  by (auto simp: record_vote_response_def Let_def group_ok_count split: option.split)

lemma group_ok_vote_responses [simp]:
  "group_ok c \<Longrightarrow> group_ok (snd (handle_vote_response_inner l p r pre c))"
  "group_ok c \<Longrightarrow> group_ok (snd (handle_vote_response l r pre c))"
  "group_ok c \<Longrightarrow> group_ok (snd (handle_vote_response_from l i r pre c))"
  by (simp_all add: handle_vote_response_inner_def handle_vote_response_def handle_vote_response_from_def group_ok_vote_response
      split: option.split sum.split)

lemma group_ok_heartbeat_to [simp]: "group_ok c \<Longrightarrow> group_ok (snd (heartbeat_to l i k c))"
  by (simp add: heartbeat_to_def Let_def split: sum.split)

lemma group_ok_heartbeat_round [simp]: "group_ok c \<Longrightarrow> group_ok (snd (heartbeat_round l is k c))"
  by (induction "is" arbitrary: k c) (simp_all split: sum.split)

lemma group_ok_heartbeat [simp]: "group_ok c \<Longrightarrow> group_ok (snd (broadcast_heartbeat c))"
  by (simp add: broadcast_heartbeat_def Let_def split: option.split sum.split)

lemma group_ok_wake [simp]: "group_ok c \<Longrightarrow> group_ok (snd (wake_paused_peer l i k c))"
  by (simp add: wake_paused_peer_def Let_def case_prod_unfold split: option.split sum.split)

lemma group_ok_wake_round [simp]: "group_ok c \<Longrightarrow> group_ok (snd (wake_round l is k c))"
  by (induction "is" arbitrary: k c) (simp_all split: sum.split)

lemma group_ok_wake_peers [simp]: "group_ok c \<Longrightarrow> group_ok (snd (broadcast_commit_index_to_old_paused_peers c))"
  by (simp add: broadcast_commit_index_to_old_paused_peers_def split: option.split)

section \<open>Leader transfer\<close>

lemma group_ok_modify_transfer:
  "(\<And>t. lt_transferee_id (f t) = lt_transferee_id t) \<Longrightarrow> group_ok c \<Longrightarrow> group_ok (modify_active_transfer f c)"
  using group_ok_transferee [of c] by (auto simp: modify_active_transfer_def split: option.split)

lemma group_ok_open_transfer: "group_ok c \<Longrightarrow> cluster_node c t = Some n \<Longrightarrow> group_ok (open_transfer t n c)"
  by (simp add: open_transfer_def Let_def)

lemma group_ok_begin_transfer [simp]: "group_ok c \<Longrightarrow> group_ok (snd (begin_leader_transfer t c))"
  by (simp add: begin_leader_transfer_def Let_def group_ok_modify_transfer group_ok_open_transfer
      split: option.split leader_transfer_admission_kind.split)

lemma group_ok_finish_transfer [simp]: "group_ok c \<Longrightarrow> group_ok (snd (finish_leader_transfer a b t c))"
  by (simp add: finish_leader_transfer_def split: sum.split)

lemma group_ok_transfer_calls [simp]:
  "group_ok c \<Longrightarrow> group_ok (snd (transfer_leader_outcome t c))" "group_ok c \<Longrightarrow> group_ok (snd (transfer_leader t c))"
  "group_ok c \<Longrightarrow> group_ok (snd (try_complete_leader_transfer c))" "group_ok c \<Longrightarrow> group_ok (snd (step_down target c))"
  by (simp_all add: transfer_leader_outcome_def transfer_leader_def try_complete_leader_transfer_def step_down_def
      split: option.split sum.split)

lemma group_ok_resign [simp]: "group_ok c \<Longrightarrow> group_ok (snd (resign_leader c))"
  by (simp add: resign_leader_def forget_leader_def Let_def split: option.split sum.split)

section \<open>Membership changes\<close>

lemma id_of_insert: "bt_invar ns \<Longrightarrow> id_of (bt_insert i n ns) j = (if j = i then Some (nd_id n) else id_of ns j)"
  by (simp add: id_of_def)

lemma id_of_remove: "bt_invar ns \<Longrightarrow> id_of (bt_remove i ns) j = (if j = i then None else id_of ns j)"
  by (simp add: id_of_def)

lemma group_ok_insert:
  "group_ok c \<Longrightarrow> nd_id n = i
     \<Longrightarrow> group_ok (c\<lparr>rc_nodes := bt_insert i n (rc_nodes c), rc_peer_pipelines := bt_insert i p (rc_peer_pipelines c)\<rparr>)"
  by (auto simp: group_ok_def group_wf_def contains_insert id_of_insert)

lemma group_ok_drop [simp]: "group_ok (drop_peer_state i c) = group_ok c"
  by (simp add: drop_peer_state_def)

lemma group_ok_add_peer [simp]:
  "group_ok c \<Longrightarrow> group_ok (snd (add_peer p c))" "group_ok c \<Longrightarrow> group_ok (snd (cluster_add_learner p c))"
  "group_ok c \<Longrightarrow> group_ok (snd (cluster_add_witness p c))"
proof -
  show add: "group_ok (snd (add_peer p c))" if "group_ok c" for p
    using that unfolding add_peer_def Let_def by (intro group_ok_flow; simp add: group_ok_insert)
  show "group_ok c \<Longrightarrow> group_ok (snd (cluster_add_learner p c))" "group_ok c \<Longrightarrow> group_ok (snd (cluster_add_witness p c))"
    by (simp_all add: cluster_add_learner_def cluster_add_witness_def add)
qed

lemma forget_node_frame [simp]:
  "forget_node r i (c\<lparr>rc_leader_id := l\<rparr>) = (forget_node r i c)\<lparr>rc_leader_id := l\<rparr>" "rc_leader_id (forget_node r i c) = rc_leader_id c"
  by (auto simp: forget_node_def Let_def drop_peer_state_def clear_reorder_queue_for_def remove_election_response_from_def
      abort_leader_transfer_def active_leader_transfer_def split: option.split)

lemma group_ok_forget: "group_ok c \<Longrightarrow> rc_leader_id c \<noteq> Some i \<Longrightarrow> group_ok (forget_node r i c)"
  by (auto simp: forget_node_def Let_def drop_peer_state_def clear_reorder_queue_for_def remove_election_response_from_def
      abort_leader_transfer_def active_leader_transfer_def group_ok_def group_wf_def contains_remove id_of_remove split: option.split)

lemma group_ok_forget_leader: "group_ok c \<Longrightarrow> group_ok ((forget_node r i c)\<lparr>rc_leader_id := None\<rparr>)"
  using group_ok_forget [of "c\<lparr>rc_leader_id := None\<rparr>" i r] by simp

lemma group_ok_remove_peer [simp]: "group_ok c \<Longrightarrow> group_ok (snd (cluster_remove_peer i c))"
  unfolding cluster_remove_peer_def Let_def
  by (intro group_ok_flow; simp add: group_ok_forget group_ok_forget_leader)

lemma group_ok_committed_add [simp]: "group_ok c \<Longrightarrow> group_ok (snd (apply_committed_add p c))"
  unfolding apply_committed_add_def by (intro group_ok_flow; simp)

lemma group_ok_committed [simp]: "group_ok c \<Longrightarrow> group_ok (snd (apply_committed_membership_operation op c))"
  by (cases op) (simp_all split: option.split replica_role.split sum.split)

section \<open>Membership of a snapshot\<close>

lemma group_ok_reset_removed: "group_ok c \<Longrightarrow> group_ok (reset_removed_node i c)"
  by (simp add: reset_removed_node_def Let_def group_ok_forget group_ok_forget_leader)

definition nodes_wf :: "node btree \<Rightarrow> bool" where
  "nodes_wf ns \<longleftrightarrow> bt_invar ns \<and> (\<forall>i. id_of ns i = None \<or> id_of ns i = Some i)"

lemma nodes_wf_or_insert:
  "nodes_wf ns \<Longrightarrow> nd_id n = i \<Longrightarrow> nodes_wf (or_insert i n ns)" "id_of ns j \<noteq> None \<Longrightarrow> nodes_wf ns \<Longrightarrow> id_of (or_insert i n ns) j \<noteq> None"
  by (auto simp: nodes_wf_def or_insert_def id_of_insert)

lemma nodes_wf_reset:
  "nodes_wf ns \<Longrightarrow> nodes_wf (reset_member p ns)" "id_of ns j \<noteq> None \<Longrightarrow> nodes_wf ns \<Longrightarrow> id_of (reset_member p ns) j \<noteq> None"
  by (auto simp: nodes_wf_def reset_member_def id_of_insert Let_def)

lemma nodes_wf_fold:
  assumes "\<And>x ns. nodes_wf ns \<Longrightarrow> nodes_wf (f x ns)" "\<And>x ns. id_of ns j \<noteq> None \<Longrightarrow> nodes_wf ns \<Longrightarrow> id_of (f x ns) j \<noteq> None"
    and "nodes_wf ns"
  shows "nodes_wf (fold f xs ns) \<and> (id_of ns j \<noteq> None \<longrightarrow> id_of (fold f xs ns) j \<noteq> None)"
  using assms(3) by (induction xs arbitrary: ns) (use assms(1,2) in auto)

lemma nodes_ok_grow:
  assumes "group_ok c" "nodes_wf ns" "\<And>i. id_of (rc_nodes c) i \<noteq> None \<Longrightarrow> id_of ns i \<noteq> None"
  shows "nodes_ok (c\<lparr>rc_nodes := ns\<rparr>)"
  using assms unfolding group_ok_def group_wf_def nodes_ok_def nodes_wf_def by (auto simp: id_of_None bt_contains_key_def [of ns])

lemma nodes_ok_lease [simp]: "nodes_ok (reset_leader_lease_epoch c) = nodes_ok c"
  by (simp add: nodes_ok_def group_wf_def reset_leader_lease_epoch_def)

lemma contains_map_values [simp]: "bt_contains_key (bt_map_values f m) = bt_contains_key m"
  by (rule ext) (simp add: bt_contains_key_def)

lemma nodes_ok_commit [simp]: "nodes_ok (refresh_commit_index c) = nodes_ok c"
  by (simp add: refresh_commit_index_def Let_def nodes_ok_def group_wf_def modify_nodes_def refresh_cluster_indexes_def
      split: option.split)

lemma group_ok_reset_membership [simp]:
  assumes "group_ok c" shows "group_ok (reset_membership_from_snapshot target ids members c)"
proof -
  define retained where "retained = (if bt_contains_key (rc_nodes c) target
    then set_insert target (fold set_insert (ids @ map pr_node_id members) [])
    else fold set_insert (ids @ map pr_node_id members) [])"
  define c1 where "c1 = fold reset_removed_node (filter (\<lambda>i. i \<notin> set retained) (bt_keys (rc_nodes c))) c"
  define ns1 where "ns1 = fold reset_member members (rc_nodes c1)"
  define ns2 where "ns2 = fold (\<lambda>i. or_insert i (node_new i VoterRole False)) retained ns1"
  have c1: "group_ok c1" unfolding c1_def by (intro group_ok_fold group_ok_reset_removed assms)
  then have wf: "nodes_wf (rc_nodes c1)" by (simp add: group_ok_def group_wf_def nodes_wf_def)
  have 1: "nodes_wf ns1 \<and> (id_of (rc_nodes c1) j \<noteq> None \<longrightarrow> id_of ns1 j \<noteq> None)" for j
    unfolding ns1_def by (intro nodes_wf_fold nodes_wf_reset wf)
  have 2: "nodes_wf ns2 \<and> (id_of ns1 j \<noteq> None \<longrightarrow> id_of ns2 j \<noteq> None)" for j
    unfolding ns2_def by (intro nodes_wf_fold nodes_wf_or_insert nd_id_steps) (use 1 in auto)
  have "nodes_ok (c1\<lparr>rc_nodes := ns2\<rparr>)" using 1 2 by (intro nodes_ok_grow c1) blast+
  then have "group_ok (refresh_replication_pipelines (refresh_commit_index (reset_leader_lease_epoch (c1\<lparr>rc_nodes := ns2\<rparr>))))"
    by (intro group_ok_refresh) simp
  then show ?thesis
    unfolding reset_membership_from_snapshot_def Let_def retained_def [symmetric] c1_def [symmetric] ns1_def [symmetric]
      ns2_def [symmetric] by (simp split: option.split)
qed

lemma group_ok_restore [simp]: "group_ok c \<Longrightarrow> group_ok (restore_membership_from_record t m c)"
  by (simp add: restore_membership_from_record_def Let_def)

section \<open>Snapshot installation and apply results\<close>

lemma group_ok_install [simp]: "group_ok c \<Longrightarrow> group_ok (snd (install_snapshot_to t s f c))"
  unfolding install_snapshot_to_def Let_def by (intro group_ok_flow; simp)

lemma group_ok_install_tail [simp]: "group_ok c \<Longrightarrow> group_ok (snd (install_snapshot_with_tail_to t s f es c))"
  unfolding install_snapshot_with_tail_to_def Let_def
  by (intro group_ok_flow; simp add: nd_id_fold group_ok_set_node)

lemma group_ok_queue_install [simp]: "group_ok c \<Longrightarrow> group_ok (snd (install_or_queue_completed_snapshot t s f c))"
  unfolding install_or_queue_completed_snapshot_def by (intro group_ok_flow; simp)

lemma group_ok_try_install [simp]: "group_ok c \<Longrightarrow> group_ok (snd (try_install_pending_snapshot_to t c))"
  unfolding try_install_pending_snapshot_to_def by (intro group_ok_flow; simp)

lemma group_ok_demote_rejecting [simp]: "group_ok c \<Longrightarrow> group_ok (demote_rejecting_leader i c)"
  by (simp add: demote_rejecting_leader_def Let_def case_prod_unfold split: option.split)

lemma group_ok_apply_result [simp]: "group_ok c \<Longrightarrow> group_ok (snd (submit_apply_result i k b c))"
  unfolding submit_apply_result_def Let_def by (intro group_ok_flow; simp)

lemma group_ok_fatal [simp]: "group_ok c \<Longrightarrow> group_ok (snd (apply_fatal_event i c))"
  unfolding apply_fatal_event_def by (intro group_ok_flow; simp)

lemma group_ok_promote_turn [simp]: "group_ok c \<Longrightarrow> group_ok (snd (auto_promote_turn i n c))"
  unfolding auto_promote_turn_def Let_def by (intro group_ok_flow; simp)

lemma group_ok_auto_promote [simp]: "group_ok c \<Longrightarrow> group_ok (snd (auto_promote_learner i c))"
  unfolding auto_promote_learner_def by (intro group_ok_flow; simp)

section \<open>Calls for one peer\<close>

lemma group_ok_on_pipeline [simp]: "group_ok (snd (on_pipeline i f c)) = group_ok c"
  by (simp add: on_pipeline_def case_prod_unfold split: option.split)

lemma group_ok_peer_calls [simp]:
  "group_ok (snd (receive_out_of_order_append_for i e c)) = group_ok c" "group_ok (snd (expire_peer_reorder_queue i c)) = group_ok c"
  "group_ok (snd (begin_snapshot_send_to i s k n c)) = group_ok c" "group_ok (snd (record_snapshot_chunk_sent_to i k c)) = group_ok c"
  "group_ok (snd (acknowledge_snapshot_chunk_to i c)) = group_ok c"
  "group_ok (snd (update_snapshot_progress_from i b k n c)) = group_ok c" "group_ok (snd (retry_snapshot_chunk_to i c)) = group_ok c"
  "group_ok (snd (begin_snapshot_install_from i s k n c)) = group_ok c"
  "group_ok (snd (receive_snapshot_chunk_from i k b c)) = group_ok c" "group_ok (snd (cancel_snapshot_send_to i c)) = group_ok c"
  "group_ok (snd (rollback_snapshot_install_from i c)) = group_ok c"
  by (simp_all add: receive_out_of_order_append_for_def expire_peer_reorder_queue_def begin_snapshot_send_to_def
      record_snapshot_chunk_sent_to_def acknowledge_snapshot_chunk_to_def update_snapshot_progress_from_def
      retry_snapshot_chunk_to_def begin_snapshot_install_from_def receive_snapshot_chunk_from_def cancel_snapshot_send_to_def
      rollback_snapshot_install_from_def)

lemma group_ok_reorder_ticks [simp]:
  "group_ok (snd (tick_reorder_queues k c)) = group_ok c" "group_ok (snd (tick_reorder_queues_for_heartbeat k c)) = group_ok c"
  by (simp_all add: tick_reorder_queues_def tick_reorder_queues_for_heartbeat_def group_ok_same_pipelines bt_map_values_def comp_def
      case_prod_unfold)

lemma group_ok_peer_results [simp]:
  "group_ok c \<Longrightarrow> group_ok (snd (record_network_error_for i c))"
  "group_ok c \<Longrightarrow> group_ok (snd (record_replication_task_result_for i b c))"
  "group_ok c \<Longrightarrow> group_ok (snd (handle_snapshot_finish_from i b k c))"
  unfolding record_network_error_for_def record_replication_task_result_for_def handle_snapshot_finish_from_def
  by (intro group_ok_flow; simp)+

lemma group_ok_install_response [simp]: "group_ok c \<Longrightarrow> group_ok (snd (handle_install_snapshot_response l i r c))"
  unfolding handle_install_snapshot_response_def by (intro group_ok_flow; simp)

lemma group_ok_witness_report [simp]: "group_ok c \<Longrightarrow> group_ok (snd (witness_quorum_report acks c))"
  by (simp add: witness_quorum_report_def Let_def group_ok_fold)

end
