(* ===== verification/MR_Snapshot_Safety.thy ===== *)
theory MR_Snapshot_Safety
  imports MR_Snapshot
begin

text \<open>
  The chunked transfer delivers the snapshot it was given: cutting, polling with any rate limiter
  (which may split chunks) and installing in order rebuild payload and metadata. Two defects of the
  sender follow: a split chunk cannot be sent again, and a split transfer completes too early.
\<close>

section \<open>Chains of chunks\<close>

text \<open>\<open>chain m off data xs\<close>: the chunks carry \<open>data\<close> from offset \<open>off\<close> on, and only the last one is marked done.\<close>

fun chain :: "snapshot_metadata \<Rightarrow> nat \<Rightarrow> payload \<Rightarrow> snapshot_chunk list \<Rightarrow> bool" where
  "chain m off data [] = False"
| "chain m off data (x # xs) =
     (sc_meta x = m \<and> sc_offset x = off \<and>
      (if xs = [] then sc_data x = data \<and> sc_done x
       else \<not> sc_done x \<and> take (length (sc_data x)) data = sc_data x
            \<and> chain m (off + length (sc_data x)) (drop (length (sc_data x)) data) xs))"


lemma checkpoint_loop_chain:
  assumes "0 < k" "off < length data"
  shows "chain m off (drop off data) (checkpoint_loop m data k off)"
  using assms
proof (induction m data k off rule: checkpoint_loop.induct)
  case (1 m data k off)
  let ?stop = "min (off + k) (length data)"
  have data: "drop off (take ?stop data) = take (?stop - off) (drop off data)" by (simp add: drop_take)
  show ?case
  proof (cases "off + k < length data")
    case True
    then have "checkpoint_loop m data k ?stop \<noteq> []"
      using 1(2) by (subst checkpoint_loop.simps) (simp add: Let_def)
    moreover have "chain m ?stop (drop ?stop data) (checkpoint_loop m data k ?stop)"
      using 1 True by (intro "1.IH") auto
    ultimately show ?thesis using 1 True data
      by (subst checkpoint_loop.simps) (auto simp: Let_def min_def add.commute)
  next
    case False
    then have "checkpoint_loop m data k (length data) = []" by (subst checkpoint_loop.simps) simp
    then show ?thesis using 1 False data by (subst checkpoint_loop.simps) (auto simp: Let_def min_def)
  qed
qed

lemma checkpoint_chain:
  assumes "checkpoint s k = Inr chunks" shows "chain (declared_meta s) 0 (rs_payload s) chunks"
proof (cases "rs_payload s = []")
  case True
  then have "checkpoint_loop (declared_meta s) (rs_payload s) k 0 = []" by (subst checkpoint_loop.simps) simp
  then show ?thesis using assms True by (auto simp: checkpoint_def Let_def split: if_splits)
next
  case False
  have k: "0 < k" using assms by (simp add: checkpoint_def split: if_splits)
  have "chain (declared_meta s) 0 (rs_payload s) (checkpoint_loop (declared_meta s) (rs_payload s) k 0)"
    using checkpoint_loop_chain [OF k, of 0 "rs_payload s"] False by simp
  then show ?thesis using assms k by (auto simp: checkpoint_def Let_def split: if_splits)
qed

text \<open>Splitting one chunk of a chain leaves a chain.\<close>

lemma chain_split:
  assumes "chain m off data (W @ x # ys)" "k < length (sc_data x)"
  shows "chain m off data (W @ granted_part k x #
    \<lparr>sc_meta = sc_meta x, sc_offset = sc_offset x + k, sc_data = drop k (sc_data x), sc_done = sc_done x\<rparr> # ys)"
  using assms
proof (induction W arbitrary: off data)
  case Nil
  then show ?case using drop_take [of k "length (sc_data x)" data]
    by (auto simp: granted_part_def min_def add.assoc split: if_splits dest: arg_cong [where f = "take k"])
next
  case (Cons w W)
  then show ?case by simp
qed

section \<open>Polling keeps the chain\<close>

definition pending :: "snapshot_send_state \<Rightarrow> snapshot_chunk list" where
  "pending s = drop (ss_next_chunk s) (ss_chunks s)"

lemma pending_Cons:
  "ss_next_chunk s < length (ss_chunks s) \<Longrightarrow>
     pending s = ss_chunks s ! ss_next_chunk s # drop (Suc (ss_next_chunk s)) (ss_chunks s)"
  by (simp add: pending_def Cons_nth_drop_Suc)

lemma split_sender_chain:
  assumes "ss_next_chunk s < length (ss_chunks s)" "chain m off data (W @ pending s)"
    and "split_sender k (ss_chunks s ! ss_next_chunk s) s st = (s1, st1)"
  shows "chain m off data ((W @ [granted_part k (ss_chunks s ! ss_next_chunk s)]) @ pending s1)"
proof (cases "k < length (sc_data (ss_chunks s ! ss_next_chunk s))")
  case True
  have "pending s1 = \<lparr>sc_meta = sc_meta (ss_chunks s ! ss_next_chunk s), sc_offset = sc_offset (ss_chunks s ! ss_next_chunk s) + k,
      sc_data = drop k (sc_data (ss_chunks s ! ss_next_chunk s)), sc_done = sc_done (ss_chunks s ! ss_next_chunk s)\<rparr>
      # drop (Suc (ss_next_chunk s)) (ss_chunks s)"
    using assms(1,3) True by (auto simp: split_sender_def pending_def drop_update_swap Cons_nth_drop_Suc [symmetric])
  then show ?thesis using chain_split [OF assms(2) [unfolded pending_Cons [OF assms(1)]] True] by simp
next
  case False
  then show ?thesis using assms(2,3) pending_Cons [OF assms(1)]
    by (auto simp: split_sender_def granted_part_def pending_def)
qed

lemma poll_limited_chain:
  "poll_limited_loop reserve mx room fst_one sent lim s st = (rs, lim', s', st') \<Longrightarrow> chain m off data (W @ pending s)
     \<Longrightarrow> chain m off data (W @ map iq_chunk rs @ pending s')
       \<and> ss_group_id s' = ss_group_id s \<and> (\<forall>r \<in> set rs. iq_group_id r = ss_group_id s)"
proof (induction reserve mx room fst_one sent lim s st arbitrary: W rs lim' s' st' rule: poll_limited_loop.induct)
  case (2 reserve mx room fst_one sent lim s st)
  let ?x = "ss_chunks s ! ss_next_chunk s"
  show ?case
  proof (cases "ss_next_chunk s < length (ss_chunks s) \<and> (fst_one \<or> sent + length (sc_data ?x) \<le> mx)
      \<and> rd_allowed (fst (reserve (length (sc_data ?x)) lim))")
    case True
    obtain d lim1 where d: "reserve (length (sc_data ?x)) lim = (d, lim1)" by fastforce
    obtain s1 st1 where s1: "split_sender (rd_granted_bytes d) ?x s st = (s1, st1)" by fastforce
    obtain rs2 lim2 s2 st2 where loop: "poll_limited_loop reserve mx room False (sent + rd_granted_bytes d) lim1 s1 (count_sent st1)
        = (rs2, lim2, s2, st2)" using prod_cases4 by blast
    have res: "rs = request_of s (granted_part (rd_granted_bytes d) ?x) # rs2" "s' = s2"
      using "2.prems"(1) True d s1 loop by (auto simp: Let_def)
    have id: "ss_group_id s1 = ss_group_id s" using s1 by (auto simp: split_sender_def split: if_splits)
    have c1: "chain m off data ((W @ [granted_part (rd_granted_bytes d) ?x]) @ pending s1)"
      by (rule split_sender_chain [OF _ "2.prems"(2) s1]) (use True in simp)
    have "rd_allowed d" using True d by simp
    with "2.IH" [OF _ refl _ d [symmetric] _ s1 [symmetric] loop c1] True show ?thesis
      by (auto simp: res id request_of_def)
  next
    case False
    then show ?thesis using "2.prems" by (auto simp: Let_def split: if_splits prod.splits)
  qed
qed simp

section \<open>Delivery\<close>

text \<open>A receiver in the middle of a transfer.\<close>

definition receiving :: "snapshot_metadata \<Rightarrow> payload \<Rightarrow> snapshot_lifecycle \<Rightarrow> bool" where
  "receiving m got l \<longleftrightarrow> \<not> slc_install_closed l
     \<and> (case slc_installer l of None \<Rightarrow> got = []
        | Some s \<Rightarrow> si_meta s = m \<and> si_bytes s = got \<and> si_next_offset s = length got)"

fun receive_all :: "install_snapshot_request list \<Rightarrow> snapshot_lifecycle \<Rightarrow> (raft_snapshot option, snapshot_lifecycle) outcome" where
  "receive_all [] l = (Inr None, l)"
| "receive_all (q # qs) l = (case install_request q l of
     (Inl e, l1) \<Rightarrow> (Inl e, l1)
   | (Inr r, l1) \<Rightarrow> (if qs = [] then (Inr r, l1) else receive_all qs l1))"

lemma install_request_step:
  assumes "receiving m got l" "sc_meta (iq_chunk q) = m" "sc_offset (iq_chunk q) = length got"
    and "length got + length (sc_data (iq_chunk q)) \<le> u64_max"
    and "length got + length (sc_data (iq_chunk q)) \<le> sm_payload_bytes m"
  shows "if sc_done (iq_chunk q)
    then sm_payload_bytes m = length got + length (sc_data (iq_chunk q)) \<longrightarrow> fst (install_request q l)
       = Inr (Some \<lparr>rs_group_id = iq_group_id q, rs_meta = m, rs_payload = got @ sc_data (iq_chunk q)\<rparr>)
    else fst (install_request q l) = Inr None \<and> receiving m (got @ sc_data (iq_chunk q)) (snd (install_request q l))"
proof -
  define s where "s = (case slc_installer l of None \<Rightarrow> install_state_new m | Some s \<Rightarrow> s)"
  have s: "slc_installer (open_install m l) = Some s" "slc_install_closed (open_install m l) = slc_install_closed l"
    "si_meta s = m" "si_bytes s = got" "si_next_offset s = length got"
    using assms(1) by (auto simp: s_def receiving_def open_install_def install_state_new_def split: option.splits)
  have chunk: "install_chunk (iq_chunk q) s = (Inr (), s\<lparr>si_next_offset := length got + length (sc_data (iq_chunk q)),
      si_bytes := got @ sc_data (iq_chunk q), si_complete := sc_done (iq_chunk q)\<rparr>)"
    using assms(2-5) s by (auto simp: install_chunk_def sat_add_def Let_def)
  show ?thesis using assms(1,2) s chunk
    by (auto simp: install_request_def receiving_def install_finish_def Let_def)
qed

lemma receive_chain:
  assumes "chain m (length got) data (map iq_chunk qs)" "receiving m got l" "\<forall>q \<in> set qs. iq_group_id q = g"
    and "sm_payload_bytes m = length got + length data" "length got + length data \<le> u64_max"
  shows "fst (receive_all qs l) = Inr (Some \<lparr>rs_group_id = g, rs_meta = m, rs_payload = got @ data\<rparr>)"
  using assms
proof (induction qs arbitrary: got data l)
  case (Cons q qs)
  let ?d = "sc_data (iq_chunk q)"
  have q: "sc_meta (iq_chunk q) = m" "sc_offset (iq_chunk q) = length got" "length ?d \<le> length data"
    using Cons.prems(1) by (auto split: if_splits) (metis length_take min.cobounded1 nat_le_linear take_all)
  note step = install_request_step [OF Cons.prems(2) q(1,2)]
  show ?case
  proof (cases qs)
    case Nil
    then have "?d = data" "sc_done (iq_chunk q)" using Cons.prems(1) by auto
    then show ?thesis using step Cons.prems Nil by (cases "install_request q l") auto
  next
    case (Cons q' qs')
    have d: "\<not> sc_done (iq_chunk q)" "take (length ?d) data = ?d"
      "chain m (length (got @ ?d)) (drop (length ?d) data) (map iq_chunk qs)"
      using Cons.prems(1) Cons by auto
    have 1: "fst (install_request q l) = Inr None" "receiving m (got @ ?d) (snd (install_request q l))"
      using step d(1) q(3) Cons.prems(4,5) by auto
    have "fst (receive_all qs (snd (install_request q l)))
        = Inr (Some \<lparr>rs_group_id = g, rs_meta = m, rs_payload = (got @ ?d) @ drop (length ?d) data\<rparr>)"
      using Cons.prems(3-5) q(3) by (intro Cons.IH [OF d(3) 1(2)]) auto
    moreover have "?d @ drop (length ?d) data = data" using d(2) append_take_drop_id by metis
    ultimately show ?thesis using 1(1) Cons by (cases "install_request q l") auto
  qed
qed simp

text \<open>Polling once per limiter of a list; the limiter may be refilled or replaced between polls.\<close>

fun send_all :: "(u64 \<Rightarrow> 'l \<Rightarrow> rate_limit_decision \<times> 'l) \<Rightarrow> 'l list \<Rightarrow> snapshot_lifecycle
    \<Rightarrow> install_snapshot_request list \<times> snapshot_lifecycle" where
  "send_all reserve [] l = ([], l)"
| "send_all reserve (lim # lims) l = (case poll_send_requests_with_limiter reserve lim l of
     (Inl e, lim1, l1) \<Rightarrow> ([], l1)
   | (Inr rs, lim1, l1) \<Rightarrow> (case send_all reserve lims l1 of (rs', l2) \<Rightarrow> (rs @ rs', l2)))"

lemma send_all_chain:
  assumes "send_all reserve lims l = (rs, l')" "slc_sender l = Some s" "chain m off data (W @ pending s)"
  shows "\<exists>s'. slc_sender l' = Some s' \<and> chain m off data (W @ map iq_chunk rs @ pending s')
    \<and> (\<forall>r \<in> set rs. iq_group_id r = ss_group_id s)"
  using assms
proof (induction reserve lims l arbitrary: W rs l' s rule: send_all.induct)
  case (2 reserve lim lims l)
  obtain rs1 lim1 s1 st1 where loop: "poll_limited_loop reserve (sl_max_bytes_per_tick (slc_config l))
      (sl_max_chunks_per_tick (slc_config l)) True 0 lim s (slc_status l) = (rs1, lim1, s1, st1)"
    using prod_cases4 by blast
  then have poll: "poll_send_requests_with_limiter reserve lim l = (Inr rs1, lim1, poll_end s1 st1 l)"
    using "2.prems"(2) by (simp add: poll_send_requests_with_limiter_def)
  obtain rs2 l2 where rest: "send_all reserve lims (poll_end s1 st1 l) = (rs2, l2)" by fastforce
  have "rs = rs1 @ rs2" "l' = l2" using "2.prems"(1) poll rest by auto
  moreover have c1: "chain m off data ((W @ map iq_chunk rs1) @ pending s1)" "ss_group_id s1 = ss_group_id s"
    "\<forall>r \<in> set rs1. iq_group_id r = ss_group_id s"
    using poll_limited_chain [OF loop "2.prems"(3)] by auto
  moreover have "slc_sender (poll_end s1 st1 l) = Some s1" by (simp add: poll_end_def)
  ultimately show ?case using "2.IH" [OF poll [symmetric] refl refl rest _ c1(1)] by auto
qed auto

section \<open>The transfer\<close>

text \<open>
  C9: A snapshot transfer rebuilds the snapshot. Start a send, poll it any number of times with
  any rate limiter, which may split chunks, until nothing is left to send, and deliver the
  requests in order to a receiver that is not receiving and not closed: the last request yields
  the snapshot with the payload of the original and its metadata, with the payload length filled in.
\<close>

theorem snapshot_transfer_roundtrip:
  assumes "begin_send s t i l0 = (Inr (), l1)" "send_all reserve lims l1 = (rs, l2)"
    and "slc_sender l2 = Some x" "length (ss_chunks x) \<le> ss_next_chunk x"
    and "slc_installer r = None" "\<not> slc_install_closed r" "length (rs_payload s) \<le> u64_max"
  shows "fst (receive_all rs r)
    = Inr (Some \<lparr>rs_group_id = rs_group_id s, rs_meta = declared_meta s, rs_payload = rs_payload s\<rparr>)"
proof -
  obtain chunks where c: "checkpoint s (sl_chunk_size (slc_config l0)) = Inr chunks"
      "slc_sender l1 = Some \<lparr>ss_group_id = rs_group_id s, ss_term = t, ss_leader_id = i, ss_chunks = chunks,
         ss_next_chunk = 0, ss_accepted_chunks = 0, ss_retry_count = 0\<rparr>" (is "_ = Some ?s")
    using assms(1) by (auto simp: begin_send_def Let_def split: if_splits sum.splits)
  define s0 where "s0 = ?s"
  have s0: "slc_sender l1 = Some s0" "ss_group_id s0 = rs_group_id s" "ss_next_chunk s0 = 0"
      "checkpoint s (sl_chunk_size (slc_config l0)) = Inr (ss_chunks s0)"
    using c by (simp_all add: s0_def)
  have "chain (declared_meta s) 0 (rs_payload s) ([] @ pending s0)"
    using checkpoint_chain [OF s0(4)] s0(3) by (simp add: pending_def)
  from send_all_chain [OF assms(2) s0(1) this] obtain s' where
    s': "slc_sender l2 = Some s'" "chain (declared_meta s) 0 (rs_payload s) (map iq_chunk rs @ pending s')"
      "\<forall>r \<in> set rs. iq_group_id r = ss_group_id s0" by auto
  then have "chain (declared_meta s) (length []) (rs_payload s) (map iq_chunk rs)"
    using assms(3,4) by (simp add: pending_def)
  from receive_chain [OF this, of r "rs_group_id s"] show ?thesis
    using assms(5-7) s'(3) s0(2) by (simp add: receiving_def declared_meta_def)
qed

definition small_snapshot :: raft_snapshot where
  "small_snapshot = \<lparr>rs_group_id = 1, rs_meta = \<lparr>sm_snapshot_id = ''s'', sm_last_log_id = \<lparr>li_term = 1, li_index = 9\<rparr>,
     sm_membership = [1], sm_members = [], sm_payload_bytes = 0\<rparr>, rs_payload = [1, 2, 3, 4, 5]\<rparr>"

definition idle_lifecycle :: "u64 \<Rightarrow> snapshot_lifecycle" where
  "idle_lifecycle k = projr (lifecycle_new \<lparr>sl_chunk_size = k, sl_max_chunks_per_tick = 2, sl_max_bytes_per_tick = 100,
     sl_max_retry_attempts = 3\<rparr>)"

definition started :: "u64 \<Rightarrow> snapshot_lifecycle" where
  "started k = snd (begin_send small_snapshot 1 1 (idle_lifecycle k))"

definition polled :: "u64 \<Rightarrow> u64 list \<Rightarrow> install_snapshot_request list \<times> snapshot_lifecycle" where
  "polled k quotas = send_all reserve_limited_bytes (map limiter_new quotas) (started k)"

theorem snapshot_transfer_roundtrip_witness:
  "map (sc_data \<circ> iq_chunk) (fst (polled 3 [2, 9])) = [[1, 2], [3], [4, 5]]
   \<and> fst (receive_all (fst (polled 3 [2, 9])) (idle_lifecycle 3)) = Inr (Some
       \<lparr>rs_group_id = 1, rs_meta = declared_meta small_snapshot, rs_payload = [1, 2, 3, 4, 5]\<rparr>)"
proof
  show "map (sc_data \<circ> iq_chunk) (fst (polled 3 [2, 9])) = [[1, 2], [3], [4, 5]]" by code_simp
  have b: "fst (begin_send small_snapshot 1 1 (idle_lifecycle 3)) = Inr ()" by code_simp
  have e: "(case slc_sender (snd (polled 3 [2, 9])) of Some x \<Rightarrow> length (ss_chunks x) \<le> ss_next_chunk x | None \<Rightarrow> False)" by code_simp
  then obtain x where x: "slc_sender (snd (polled 3 [2, 9])) = Some x" "length (ss_chunks x) \<le> ss_next_chunk x"
    by (auto split: option.splits)
  have r: "slc_installer (idle_lifecycle 3) = None" "\<not> slc_install_closed (idle_lifecycle 3)" by code_simp+
  have l: "length (rs_payload small_snapshot) \<le> u64_max" by code_simp
  have begin_eq: "begin_send small_snapshot 1 1 (idle_lifecycle 3) = (Inr (), started 3)"
    using b by (simp add: started_def prod_eq_iff)
  have "fst (receive_all (fst (polled 3 [2, 9])) (idle_lifecycle 3)) = Inr (Some
      \<lparr>rs_group_id = rs_group_id small_snapshot, rs_meta = declared_meta small_snapshot, rs_payload = rs_payload small_snapshot\<rparr>)"
    by (rule snapshot_transfer_roundtrip [OF begin_eq _ x r l, of reserve_limited_bytes "map limiter_new [2, 9]"])
      (simp add: polled_def)
  then show "fst (receive_all (fst (polled 3 [2, 9])) (idle_lifecycle 3)) = Inr (Some
       \<lparr>rs_group_id = 1, rs_meta = declared_meta small_snapshot, rs_payload = [1, 2, 3, 4, 5]\<rparr>)"
    by (simp add: small_snapshot_def)
qed

section \<open>Defects\<close>

definition rejection :: "u64 \<Rightarrow> install_snapshot_response" where
  "rejection offset = \<lparr>is_term = 1, is_accepted = False, is_next_offset = offset, is_committed_index = 0, is_reason = [], is_throttled = True\<rparr>"

definition acceptance :: install_snapshot_response where
  "acceptance = \<lparr>is_term = 1, is_accepted = True, is_next_offset = 0, is_committed_index = 0, is_reason = [], is_throttled = False\<rparr>"

text \<open>
  A split chunk cannot be sent again. When the limiter grants part of a chunk, the sender keeps
  only the rest of it. A receiver that declines the part asks for its offset again; the sender
  resumes at the rest, and the receiver refuses it for its offset, so the transfer cannot go on.
\<close>

lemma split_chunk_lost_on_rewind:
  "let (sent, l1) = polled 5 [2];
       l2 = snd (record_send_response (rejection 0) l1);
       again = fst (send_all reserve_limited_bytes [limiter_new 9] l2)
   in map (sc_offset \<circ> iq_chunk) sent = [0] \<and> map (sc_offset \<circ> iq_chunk) again = [2]
      \<and> fst (receive_all again (idle_lifecycle 5))
        = Inl (InvalidRequest ''snapshot chunk offset 2 does not match next offset 0'')"
  by code_simp

text \<open>A split transfer is complete for its sender once one of its two parts was accepted.\<close>

lemma split_transfer_completes_early:
  "let (sent, l1) = polled 5 [2, 9]; l2 = snd (record_send_response acceptance l1)
   in length sent = 2 \<and> sy_completed (slc_status l2) \<and> slc_sender l2 = None"
  by code_simp

text \<open>An install that ends with the wrong length is still reported as going on.\<close>

lemma failed_install_still_reported:
  "let q = \<lparr>iq_group_id = 1, iq_term = 1, iq_leader_id = 1, iq_chunk = \<lparr>sc_meta = declared_meta small_snapshot,
         sc_offset = 0, sc_data = [1], sc_done = True\<rparr>\<rparr>;
       (r, l) = install_request q (idle_lifecycle 5)
   in \<not> is_ok r \<and> slc_installer l = None \<and> sy_installing (slc_status l)"
  by code_simp

end
