(* ===== verification/MR_Wal.thy ===== *)
theory MR_Wal
  imports MR_Cluster "HOL-Library.Word" "HOL-Library.Product_Lexorder"
begin

text \<open>
  Durable records of a replica: the record with its checksum and validity checks, the folding of
  delta records, recovery, and the payload codec of \<^verbatim>\<open>wal.rs\<close>; the in-memory log \<^verbatim>\<open>LocalRaftWal\<close> and
  the delta bookkeeping of \<^verbatim>\<open>facade/wal_runtime.rs\<close>; and the storage fence of \<^verbatim>\<open>storage.rs\<close>.
  Segment files, their framing and serde are not modelled.
\<close>

unbundle bit_operations_syntax

section \<open>Records and their checksum\<close>

record wal_record =
  wr_group_id :: group_id
  wr_node_id :: node_id
  wr_hard_state :: hard_state
  wr_membership :: membership
  wr_entries :: "log_entry list"
  wr_entries_are_delta :: bool
  wr_installed_snapshot :: "snapshot_metadata option"
  wr_apply_snapshot_fence :: apply_snapshot_fence
  wr_checksum :: string

definition fnv_basis :: "64 word" where
  "fnv_basis = 14695981039346656037"

definition fnv_byte :: "nat \<Rightarrow> 64 word \<Rightarrow> 64 word" where
  "fnv_byte b hash = (hash XOR of_nat b) * 1099511628211"

definition to_le_bytes :: "u64 \<Rightarrow> nat list" where
  "to_le_bytes v = map (\<lambda>k. v div 256 ^ k mod 256) [0..<8]"

definition mix :: "u64 \<Rightarrow> 64 word \<Rightarrow> 64 word" where
  "mix v hash = fold fnv_byte (to_le_bytes v) hash"

definition payload_hash :: "payload \<Rightarrow> u64" where
  "payload_hash p = unat (fold fnv_byte p fnv_basis)"

text \<open>The values \<^verbatim>\<open>wal_checksum\<close> mixes, in order.\<close>

definition mixed_entry :: "bool \<Rightarrow> log_entry \<Rightarrow> u64 list" where
  "mixed_entry cover_payloads e =
     [trm e, idx e, length (le_payload e)] @ (if cover_payloads then [payload_hash (le_payload e)] else [])"

definition mixed_list :: "node_id list \<Rightarrow> u64 list" where
  "mixed_list ids = length ids # ids"

definition mixed_log_id :: "log_id option \<Rightarrow> u64 list" where
  "mixed_log_id l = (case l of Some i \<Rightarrow> [li_term i, li_index i] | None \<Rightarrow> [])"

definition mixed_values :: "bool \<Rightarrow> bool \<Rightarrow> wal_record \<Rightarrow> u64 list" where
  "mixed_values cover_membership cover_payloads r =
     [wr_group_id r, wr_node_id r, hs_current_term (wr_hard_state r),
      (case hs_voted_for (wr_hard_state r) of Some i \<Rightarrow> i | None \<Rightarrow> 0)]
     @ mixed_log_id (hs_committed (wr_hard_state r))
     @ concat (map (mixed_entry cover_payloads) (wr_entries r))
     @ (if wr_entries_are_delta r then [1] else [])
     @ mixed_log_id (map_option sm_last_log_id (wr_installed_snapshot r))
     @ [af_applied_index (wr_apply_snapshot_fence r), af_commit_index (wr_apply_snapshot_fence r),
        af_installed_snapshot_index (wr_apply_snapshot_fence r), af_first_retained_log_index (wr_apply_snapshot_fence r)]
     @ (if cover_membership
        then [mb_group_id (wr_membership r), mb_epoch (wr_membership r)] @ mixed_list (mb_voters (wr_membership r))
             @ mixed_list (mb_learners (wr_membership r)) @ mixed_list (mb_witnesses (wr_membership r))
        else [])"

definition hex_digit :: "nat \<Rightarrow> char" where
  "hex_digit d = (if d < 10 then char_of (48 + d) else char_of (87 + d))"

definition hex_16 :: "64 word \<Rightarrow> string" where
  "hex_16 hash = map (\<lambda>k. hex_digit (unat hash div 16 ^ (15 - k) mod 16)) [0..<16]"

definition wal_checksum :: "wal_record \<Rightarrow> bool \<Rightarrow> bool \<Rightarrow> string" where
  "wal_checksum r cover_membership cover_payloads =
     hex_16 (fold mix (mixed_values cover_membership cover_payloads r) fnv_basis)"

definition matrixraft_wal_checksum :: "wal_record \<Rightarrow> string" where
  "matrixraft_wal_checksum r = wal_checksum r True True"

definition matrixraft_wal_checksum_without_membership :: "wal_record \<Rightarrow> string" where
  "matrixraft_wal_checksum_without_membership r = wal_checksum r False False"

definition matrixraft_wal_checksum_without_payloads :: "wal_record \<Rightarrow> string" where
  "matrixraft_wal_checksum_without_payloads r = wal_checksum r True False"

definition matrixraft_wal_checksum_valid :: "wal_record \<Rightarrow> bool" where
  "matrixraft_wal_checksum_valid r \<longleftrightarrow> wr_checksum r = matrixraft_wal_checksum r
     \<or> wr_checksum r = matrixraft_wal_checksum_without_payloads r
     \<or> wr_checksum r = matrixraft_wal_checksum_without_membership r"

definition matrixraft_wal_checksum_covers_payloads :: "wal_record \<Rightarrow> bool" where
  "matrixraft_wal_checksum_covers_payloads r \<longleftrightarrow> wr_checksum r = matrixraft_wal_checksum r"

definition matrixraft_wal_checksum_covers_membership :: "wal_record \<Rightarrow> bool" where
  "matrixraft_wal_checksum_covers_membership r \<longleftrightarrow> wr_checksum r = matrixraft_wal_checksum r
     \<or> wr_checksum r = matrixraft_wal_checksum_without_payloads r"

section \<open>Validity\<close>

definition last_entry_index :: "wal_record \<Rightarrow> log_index" where
  "last_entry_index r = (if wr_entries r = [] then 0 else idx (last (wr_entries r)))"

definition record_snapshot_index :: "wal_record \<Rightarrow> log_index" where
  "record_snapshot_index r = (case wr_installed_snapshot r of Some s \<Rightarrow> li_index (sm_last_log_id s) | None \<Rightarrow> 0)"

definition committed_index_of :: "wal_record \<Rightarrow> log_index" where
  "committed_index_of r = (case hs_committed (wr_hard_state r) of Some l \<Rightarrow> li_index l | None \<Rightarrow> 0)"

definition matrixraft_validate_hard_state_persistence :: "wal_record \<Rightarrow> unit result" where
  "matrixraft_validate_hard_state_persistence r = (case hs_committed (wr_hard_state r) of
     None \<Rightarrow> Inr ()
   | Some l \<Rightarrow>
      (if hs_current_term (wr_hard_state r) < li_term l
       then Inl (Storage ''committed term is ahead of persisted current term'')
       else if max (last_entry_index r) (record_snapshot_index r) < li_index l
       then Inl (Storage ''committed index is ahead of persisted log and snapshot'')
       else Inr ()))"

definition matrixraft_validate_log_continues_snapshot :: "wal_record \<Rightarrow> unit result" where
  "matrixraft_validate_log_continues_snapshot r = (case wr_installed_snapshot r of
     None \<Rightarrow> Inr ()
   | Some s \<Rightarrow>
      (if wr_entries_are_delta r then Inr ()
       else case wr_entries r of
         [] \<Rightarrow> Inr ()
       | e # _ \<Rightarrow>
          (let continues_at = sat_add (li_index (sm_last_log_id s)) 1
           in if continues_at < idx e
              then Inl (Storage (''retained log starts at '' @ show_nat (idx e)
                     @ '' instead of continuing the snapshot at '' @ show_nat continues_at))
              else Inr ())))"

definition matrixraft_validate_apply_snapshot_fence :: "wal_record \<Rightarrow> unit result" where
  "matrixraft_validate_apply_snapshot_fence r =
     (let fence = wr_apply_snapshot_fence r
      in if committed_index_of r < af_applied_index fence
         then Inl (Storage ''apply snapshot fence is ahead of committed index'')
         else if af_commit_index fence \<noteq> committed_index_of r
         then Inl (Storage ''apply snapshot fence commit index does not match hard state'')
         else case (case wr_installed_snapshot r of
              None \<Rightarrow> Inr ()
            | Some s \<Rightarrow>
               (if af_installed_snapshot_index fence \<noteq> li_index (sm_last_log_id s)
                then Inl (Storage ''apply snapshot fence does not match installed snapshot'')
                else if 0 < af_first_retained_log_index fence \<and> af_first_retained_log_index fence \<le> li_index (sm_last_log_id s)
                then Inl (Storage ''first retained log index overlaps installed snapshot'')
                else Inr ())) of
           Inl e \<Rightarrow> Inl e
         | Inr _ \<Rightarrow> matrixraft_validate_log_continues_snapshot r)"

section \<open>Folding delta records\<close>

definition fold_wal_entries_step :: "log_entry list \<Rightarrow> wal_record \<Rightarrow> log_entry list" where
  "fold_wal_entries_step folded r =
     (if wr_entries_are_delta r
      then (case wr_entries r of
              [] \<Rightarrow> folded
            | e # _ \<Rightarrow> take (partition_point (\<lambda>x. idx x < idx e) folded) folded) @ wr_entries r
      else wr_entries r)"

definition whole_from_folded :: "wal_record \<Rightarrow> log_entry list \<Rightarrow> wal_record" where
  "whole_from_folded r folded =
     (let whole = r\<lparr>wr_entries := folded, wr_entries_are_delta := False\<rparr>
      in whole\<lparr>wr_checksum := matrixraft_wal_checksum whole\<rparr>)"

fun fold_wal_record_loop :: "log_entry list \<Rightarrow> wal_record list \<Rightarrow> wal_record list" where
  "fold_wal_record_loop folded [] = []"
| "fold_wal_record_loop folded (r # rs) =
     (if \<not> matrixraft_wal_checksum_valid r then []
      else (let folded1 = fold_wal_entries_step folded r
            in whole_from_folded r folded1 # fold_wal_record_loop folded1 rs))"

definition matrixraft_fold_wal_record_iter :: "wal_record list \<Rightarrow> wal_record list" where
  "matrixraft_fold_wal_record_iter stored = fold_wal_record_loop [] stored"

definition matrixraft_fold_wal_records :: "wal_record list \<Rightarrow> wal_record list" where
  "matrixraft_fold_wal_records stored = matrixraft_fold_wal_record_iter stored"

fun matrixraft_fold_wal_entries_from :: "log_entry list \<Rightarrow> wal_record list \<Rightarrow> log_entry list" where
  "matrixraft_fold_wal_entries_from folded [] = folded"
| "matrixraft_fold_wal_entries_from folded (r # rs) =
     (if \<not> matrixraft_wal_checksum_valid r then folded
      else matrixraft_fold_wal_entries_from (fold_wal_entries_step folded r) rs)"

definition matrixraft_fold_wal_entries :: "wal_record list \<Rightarrow> log_entry list" where
  "matrixraft_fold_wal_entries rs = matrixraft_fold_wal_entries_from [] rs"

fun fold_latest_loop :: "log_entry list \<Rightarrow> wal_record option \<Rightarrow> wal_record list \<Rightarrow> log_entry list \<times> wal_record option" where
  "fold_latest_loop folded latest [] = (folded, latest)"
| "fold_latest_loop folded latest (r # rs) =
     (if \<not> matrixraft_wal_checksum_valid r then (folded, latest)
      else fold_latest_loop (fold_wal_entries_step folded r) (Some r) rs)"

definition matrixraft_fold_wal_latest_record :: "wal_record list \<Rightarrow> wal_record option" where
  "matrixraft_fold_wal_latest_record stored =
     (case fold_latest_loop [] None stored of (folded, latest) \<Rightarrow> map_option (\<lambda>r. whole_from_folded r folded) latest)"

section \<open>Recovery\<close>

definition record_valid :: "wal_record \<Rightarrow> bool" where
  "record_valid r \<longleftrightarrow> is_ok (matrixraft_validate_hard_state_persistence r) \<and> is_ok (matrixraft_validate_apply_snapshot_fence r)"

definition recovery_candidates :: "wal_record list \<Rightarrow> (log_index \<times> nat) list" where
  "recovery_candidates surviving = zip (map committed_index_of surviving) [0..<length surviving]"

definition whole_at :: "wal_record list \<Rightarrow> nat \<Rightarrow> wal_record" where
  "whole_at stored position =
     whole_from_folded (stored ! position) (foldl fold_wal_entries_step [] (take (position + 1) stored))"

definition matrixraft_recover_from_wal_records :: "wal_record list \<Rightarrow> nat \<times> wal_record option" where
  "matrixraft_recover_from_wal_records stored =
     (let surviving = takeWhile matrixraft_wal_checksum_valid stored;
          candidates = rev (sort (recovery_candidates surviving))
      in (length surviving,
          map_option (\<lambda>c. whole_at stored (snd c)) (find (\<lambda>c. record_valid (whole_at stored (snd c))) candidates)))"

text \<open>\<^verbatim>\<open>max_by_key\<close> keeps the last of several greatest elements.\<close>

definition max_by_key :: "('a \<Rightarrow> nat) \<Rightarrow> 'a list \<Rightarrow> 'a option" where
  "max_by_key k xs = foldl (\<lambda>best x. case best of None \<Rightarrow> Some x | Some b \<Rightarrow> if k x < k b then Some b else Some x) None xs"

definition matrixraft_recover_latest_wal_record :: "wal_record list \<Rightarrow> wal_record result" where
  "matrixraft_recover_latest_wal_record rs =
     ok_or (Storage ''no valid WAL record survived recovery'')
       (max_by_key committed_index_of (filter record_valid (takeWhile matrixraft_wal_checksum_valid rs)))"

section \<open>Writing deltas\<close>

type_synonym coverage = "(log_index \<times> log_index \<times> raft_term) option"

definition matrixraft_wal_delta_base :: "log_entry list \<Rightarrow> log_index \<Rightarrow> log_index \<Rightarrow> raft_term \<Rightarrow> nat option" where
  "matrixraft_wal_delta_base es covered_first covered_last covered_last_term = (case es of
     [] \<Rightarrow> None
   | e # _ \<Rightarrow>
      (if covered_first < idx e then None
       else case binary_search_by (\<lambda>x. cmp_nat (idx x) covered_last) es of
         Inl _ \<Rightarrow> None
       | Inr p \<Rightarrow> (if trm (es ! p) \<noteq> covered_last_term then None else Some (p + 1))))"

definition whole_record :: "wal_record \<Rightarrow> wal_record" where
  "whole_record r = (let whole = r\<lparr>wr_entries_are_delta := False\<rparr> in whole\<lparr>wr_checksum := matrixraft_wal_checksum whole\<rparr>)"

definition delta_record :: "coverage \<Rightarrow> wal_record \<Rightarrow> wal_record" where
  "delta_record covered r = (case covered of
     None \<Rightarrow> whole_record r
   | Some (first_index, last_index, last_term) \<Rightarrow>
      (case matrixraft_wal_delta_base (wr_entries r) first_index last_index last_term of
         None \<Rightarrow> whole_record r
       | Some base \<Rightarrow>
          (let delta = r\<lparr>wr_entries := drop base (wr_entries r), wr_entries_are_delta := True\<rparr>
           in delta\<lparr>wr_checksum := matrixraft_wal_checksum delta\<rparr>)))"

definition coverage_of :: "log_entry list \<Rightarrow> coverage" where
  "coverage_of es = (if es = [] then None else Some (idx (hd es), idx (last es), trm (last es)))"

definition advance_active_covered :: "wal_record \<Rightarrow> coverage \<Rightarrow> coverage" where
  "advance_active_covered r covered =
     (if wr_entries_are_delta r
      then (case covered of
              Some (first_index, _, _) \<Rightarrow>
                (if wr_entries r = [] then covered else Some (first_index, idx (last (wr_entries r)), trm (last (wr_entries r))))
            | None \<Rightarrow> covered)
      else coverage_of (wr_entries r))"

section \<open>The in-memory log\<close>

record wal_segment =
  sg_segment_id :: u64
  sg_first_index :: log_index
  sg_last_index :: log_index
  sg_records :: "wal_record list"
  sg_record_count :: u64
  sg_sealed :: bool

record local_raft_wal =
  lw_max_records_per_segment :: nat
  lw_segments :: "wal_segment list"
  lw_next_segment_id :: u64

record log_retained_range =
  lr_first_log_index :: log_index
  lr_last_log_index :: log_index
  lr_first_segment_id :: u64
  lr_last_segment_id :: u64
  lr_record_count :: u64

record wal_checksum_format =
  wk_algorithm :: string
  wk_encoding :: string
  wk_covered_fields :: "string list"

definition matrixraft_wal_checksum_format :: wal_checksum_format where
  "matrixraft_wal_checksum_format = \<lparr>wk_algorithm = ''fnv1a64-rustraft-v2'', wk_encoding = ''lower_hex_16'',
     wk_covered_fields = [''group_id'', ''node_id'', ''hard_state.current_term'', ''hard_state.voted_for'',
       ''hard_state.committed'', ''entries.log_id'', ''entries.payload_len'', ''entries_are_delta'',
       ''installed_snapshot.last_log_id'', ''apply_snapshot_fence'', ''membership'', ''entries.payload'']\<rparr>"

record wal_recovery_report =
  wo_recovered :: "wal_record option"
  wo_truncated_corrupt_tail :: bool
  wo_surviving_records :: nat
  wo_removed_records :: nat
  wo_segments_scanned :: u64
  wo_checksum_format :: "wal_checksum_format option"
  wo_retained_range :: "log_retained_range option"

definition empty_segment :: "u64 \<Rightarrow> wal_segment" where
  "empty_segment i = \<lparr>sg_segment_id = i, sg_first_index = 0, sg_last_index = 0, sg_records = [], sg_record_count = 0, sg_sealed = False\<rparr>"

definition local_wal_new :: "nat \<Rightarrow> local_raft_wal result" where
  "local_wal_new m =
     (if m = 0 then Inl (InvalidRequest ''max_records_per_segment must be greater than zero'')
      else Inr \<lparr>lw_max_records_per_segment = m, lw_segments = [empty_segment 0], lw_next_segment_id = 1\<rparr>)"

definition local_wal_records :: "local_raft_wal \<Rightarrow> wal_record list" where
  "local_wal_records w = concat (map sg_records (lw_segments w))"

definition persisted_commit_index :: "local_raft_wal \<Rightarrow> log_index" where
  "persisted_commit_index w =
     (case List.map_filter (\<lambda>r. hs_committed (wr_hard_state r)) (concat (map (\<lambda>s. rev (sg_records s)) (rev (lw_segments w)))) of
        [] \<Rightarrow> 0 | l # _ \<Rightarrow> li_index l)"

definition wal_record_index :: "wal_record \<Rightarrow> log_index" where
  "wal_record_index r = (case hs_committed (wr_hard_state r) of Some l \<Rightarrow> li_index l | None \<Rightarrow> last_entry_index r)"

definition push_record :: "wal_record \<Rightarrow> wal_segment \<Rightarrow> wal_segment" where
  "push_record r s =
     (let s1 = (if sg_records s = [] then s\<lparr>sg_first_index := wal_record_index r\<rparr> else s);
          records = sg_records s1 @ [r]
      in s1\<lparr>sg_last_index := wal_record_index r, sg_records := records, sg_record_count := length records\<rparr>)"

definition roll_local_segment :: "local_raft_wal \<Rightarrow> local_raft_wal" where
  "roll_local_segment w =
     (if (case lw_segments w of [] \<Rightarrow> True
          | _ \<Rightarrow> lw_max_records_per_segment w \<le> length (sg_records (last (lw_segments w))))
      then w\<lparr>lw_segments := (case lw_segments w of [] \<Rightarrow> []
                | ss \<Rightarrow> butlast ss @ [(last ss)\<lparr>sg_sealed := True\<rparr>]) @ [empty_segment (lw_next_segment_id w)],
             lw_next_segment_id := wrap_add (lw_next_segment_id w) 1\<rparr>
      else w)"

definition local_wal_append :: "wal_record \<Rightarrow> local_raft_wal \<Rightarrow> (string, local_raft_wal) outcome" where
  "local_wal_append r w =
     (case (case hs_committed (wr_hard_state r) of
          None \<Rightarrow> None
        | Some l \<Rightarrow> (if li_index l < persisted_commit_index w then Some l else None)) of
        Some l \<Rightarrow> (Inl (Storage (''wal record commits index '' @ show_nat (li_index l) @ '' below the persisted ''
                     @ show_nat (persisted_commit_index w))), w)
      | None \<Rightarrow>
         (let r1 = r\<lparr>wr_checksum := matrixraft_wal_checksum r\<rparr>; w1 = roll_local_segment w
          in (Inr (wr_checksum r1),
              w1\<lparr>lw_segments := butlast (lw_segments w1) @ [push_record r1 (last (lw_segments w1))]\<rparr>)))"

definition wal_retained_range :: "wal_segment list \<Rightarrow> log_retained_range" where
  "wal_retained_range ss =
     \<lparr>lr_first_log_index = (case find (\<lambda>s. 0 < sg_first_index s) ss of Some s \<Rightarrow> sg_first_index s | None \<Rightarrow> 0),
      lr_last_log_index = (case find (\<lambda>s. 0 < sg_last_index s) (rev ss) of Some s \<Rightarrow> sg_last_index s | None \<Rightarrow> 0),
      lr_first_segment_id = (if ss = [] then 0 else sg_segment_id (hd ss)),
      lr_last_segment_id = (if ss = [] then 0 else sg_segment_id (last ss)),
      lr_record_count = sum_list (map sg_record_count ss)\<rparr>"

fun append_all :: "wal_record list \<Rightarrow> local_raft_wal \<Rightarrow> (unit, local_raft_wal) outcome" where
  "append_all [] w = (Inr (), w)"
| "append_all (r # rs) w = and_then (local_wal_append r w) (\<lambda>_ w1. append_all rs w1)"

definition rebuild_from_records :: "wal_record list \<Rightarrow> local_raft_wal \<Rightarrow> (unit, local_raft_wal) outcome" where
  "rebuild_from_records rs w = (case local_wal_new (lw_max_records_per_segment w) of
     Inl e \<Rightarrow> (Inl e, w)
   | Inr w1 \<Rightarrow> append_all rs w1)"

definition local_wal_recover :: "local_raft_wal \<Rightarrow> (wal_recovery_report, local_raft_wal) outcome" where
  "local_wal_recover w =
     (let stored = local_wal_records w;
          rs = rev (dropWhile (\<lambda>r. \<not> matrixraft_wal_checksum_valid r) (rev stored));
          recovered = (case matrixraft_recover_latest_wal_record rs of Inl _ \<Rightarrow> None | Inr r \<Rightarrow> Some r);
          truncated = (length rs \<noteq> length stored)
      in and_then (if truncated then rebuild_from_records rs w else (Inr (), w)) (\<lambda>_ w1.
           (Inr \<lparr>wo_recovered = recovered, wo_truncated_corrupt_tail = truncated, wo_surviving_records = length rs,
                 wo_removed_records = length stored - length rs, wo_segments_scanned = length (lw_segments w1),
                 wo_checksum_format = Some matrixraft_wal_checksum_format,
                 wo_retained_range = Some (wal_retained_range (lw_segments w1))\<rparr>, w1)))"

section \<open>Payload codec\<close>

definition ALPHABET :: string where
  "ALPHABET = ''ABCDEFGHIJKLMNOPQRSTUVWXYZabcdefghijklmnopqrstuvwxyz0123456789+/''"

definition triple_of :: "nat \<Rightarrow> nat \<Rightarrow> nat \<Rightarrow> nat" where
  "triple_of b0 b1 b2 = push_bit 16 b0 OR push_bit 8 b1 OR b2"

definition letter :: "nat \<Rightarrow> nat \<Rightarrow> char" where
  "letter shift triple = ALPHABET ! (drop_bit shift triple AND 63)"

fun encode :: "payload \<Rightarrow> string" where
  "encode [] = []"
| "encode [b0] = (let t = triple_of b0 0 0 in [letter 18 t, letter 12 t, CHR ''='', CHR ''=''])"
| "encode [b0, b1] = (let t = triple_of b0 b1 0 in [letter 18 t, letter 12 t, letter 6 t, CHR ''=''])"
| "encode (b0 # b1 # b2 # rest) =
     (let t = triple_of b0 b1 b2 in [letter 18 t, letter 12 t, letter 6 t, letter 0 t] @ encode rest)"

definition sextet :: "char \<Rightarrow> nat option" where
  "sextet c = (let b = of_char c :: nat
     in if 65 \<le> b \<and> b \<le> 90 then Some (b - 65)
        else if 97 \<le> b \<and> b \<le> 122 then Some (b - 97 + 26)
        else if 48 \<le> b \<and> b \<le> 57 then Some (b - 48 + 52)
        else if b = 43 then Some 62
        else if b = 47 then Some 63
        else None)"

fun decode_quad :: "bool \<Rightarrow> string \<Rightarrow> nat \<Rightarrow> nat \<Rightarrow> string + nat \<times> nat" where
  "decode_quad is_last [] triple padding = Inr (triple, padding)"
| "decode_quad is_last (c # cs) triple padding =
     (if c = CHR ''=''
      then (if \<not> is_last then Inl ''base64 padding before the final quad''
            else decode_quad is_last cs (push_bit 6 triple) (padding + 1))
      else if 0 < padding then Inl ''base64 padding inside a quad''
      else case sextet c of
        None \<Rightarrow> Inl (''invalid base64 byte 0x'' @ [hex_digit (of_char c div 16), hex_digit (of_char c mod 16)])
      | Some v \<Rightarrow> decode_quad is_last cs (push_bit 6 triple OR v) padding)"

definition quad_bytes :: "nat \<Rightarrow> nat \<Rightarrow> payload" where
  "quad_bytes triple padding =
     [drop_bit 16 triple mod 256] @ (if padding < 2 then [drop_bit 8 triple mod 256] else [])
     @ (if padding < 1 then [triple mod 256] else [])"

fun decode_loop :: "string \<Rightarrow> string + payload" where
  "decode_loop (c0 # c1 # c2 # c3 # rest) =
     (case decode_quad (rest = []) [c0, c1, c2, c3] 0 0 of
        Inl e \<Rightarrow> Inl e
      | Inr (triple, padding) \<Rightarrow>
         (if 2 < padding then Inl ''base64 quad is entirely padding''
          else case decode_loop rest of Inl e \<Rightarrow> Inl e | Inr bytes \<Rightarrow> Inr (quad_bytes triple padding @ bytes)))"
| "decode_loop _ = Inr []"

definition decode_text :: "string \<Rightarrow> string + payload" where
  "decode_text text =
     (if length text mod 4 \<noteq> 0 then Inl (''base64 length '' @ show_nat (length text) @ '' is not a multiple of four'')
      else decode_loop text)"

section \<open>Storage fence\<close>

record storage_apply_fence =
  sf_group_id :: group_id
  sf_node_id :: node_id
  sf_committed_index :: log_index
  sf_applied_index :: log_index
  sf_durable_applied_index :: log_index
  sf_storage_flushed_index :: log_index
  sf_installed_snapshot_index :: log_index
  sf_first_retained_log_index :: log_index

definition matrixraft_validate_storage_apply_fence :: "storage_apply_fence \<Rightarrow> unit result" where
  "matrixraft_validate_storage_apply_fence f =
     (if sf_committed_index f < sf_applied_index f then Inl (Storage ''storage apply fence is ahead of committed index'')
      else if sf_applied_index f < sf_durable_applied_index f
      then Inl (Storage ''durable applied index is ahead of in-memory applied index'')
      else if sf_storage_flushed_index f < sf_durable_applied_index f
      then Inl (Storage ''storage flush is behind durable applied index'')
      else if sf_applied_index f < sf_installed_snapshot_index f
      then Inl (Storage ''installed snapshot is ahead of applied index'')
      else if 0 < sf_installed_snapshot_index f \<and> sf_first_retained_log_index f \<le> sf_installed_snapshot_index f
      then Inl (Storage ''first retained log index overlaps installed snapshot'')
      else Inr ())"

end
