(* ===== verification/MR_Wal_Safety.thy ===== *)
theory MR_Wal_Safety
  imports MR_Wal
begin

text \<open>
  Durable records are checked, stored and read back as they should be: a checksum moves when one
  byte of what it covers moves, the streaming recovery picks the record the folding recovery picks,
  delta records fold back to the logs they were cut from, the in-memory log recovers what was
  appended last, and the payload codec decodes what it encodes.
\<close>

section \<open>The checksum\<close>

lemma fnv_prime_inverse: "(1099511628211 :: 64 word) * 14886173955864302971 = 1"
  by simp

lemma fnv_prime_cancel: "(x :: 64 word) * 1099511628211 = y * 1099511628211 \<Longrightarrow> x = y"
proof -
  assume e: "x * 1099511628211 = y * 1099511628211"
  have "x * 1099511628211 * 14886173955864302971 = y * 1099511628211 * 14886173955864302971" by (simp only: e)
  then show "x = y" by (simp only: mult.assoc fnv_prime_inverse mult_1_right)
qed

lemma xor_cancel: "(x :: 64 word) XOR z = y XOR z \<Longrightarrow> x = y"
proof -
  assume "x XOR z = y XOR z"
  then have "(x XOR z) XOR z = (y XOR z) XOR z" by (rule arg_cong)
  then show "x = y" by (simp add: xor.assoc)
qed

lemma fnv_byte_inj: "fnv_byte b h = fnv_byte b h' \<Longrightarrow> h = h'"
  unfolding fnv_byte_def by (blast dest: fnv_prime_cancel xor_cancel)

lemma fnv_byte_inj_byte:
  assumes "fnv_byte b h = fnv_byte b' h" "b < 256" "b' < 256" shows "b = b'"
proof -
  have "(of_nat b :: 64 word) = of_nat b'"
    using assms(1) unfolding fnv_byte_def by (metis fnv_prime_cancel xor_cancel xor.commute)
  then have "unat (of_nat b :: 64 word) = unat (of_nat b' :: 64 word)" by simp
  with assms(2,3) show ?thesis by (simp add: unat_of_nat)
qed

lemma fnv_fold_inj: "fold fnv_byte bs h = fold fnv_byte bs h' \<Longrightarrow> h = h'"
  by (induction bs arbitrary: h h') (auto dest: fnv_byte_inj)

lemma fold_mix: "fold mix vs h = fold fnv_byte (concat (map to_le_bytes vs)) h"
  by (induction vs arbitrary: h) (simp_all add: mix_def)

definition one_byte_apart :: "nat list \<Rightarrow> nat list \<Rightarrow> bool" where
  "one_byte_apart xs ys \<longleftrightarrow> (\<exists>p b b' s. xs = p @ b # s \<and> ys = p @ b' # s \<and> b \<noteq> b' \<and> b < 256 \<and> b' < 256)"

lemma fnv_fold_apart:
  assumes "one_byte_apart xs ys" shows "fold fnv_byte xs h \<noteq> fold fnv_byte ys h"
proof
  assume e: "fold fnv_byte xs h = fold fnv_byte ys h"
  obtain p b b' s where p: "xs = p @ b # s" "ys = p @ b' # s" "b \<noteq> b'" "b < 256" "b' < 256"
    using assms by (auto simp: one_byte_apart_def)
  from e have "fnv_byte b (fold fnv_byte p h) = fnv_byte b' (fold fnv_byte p h)"
    by (auto simp: p(1,2) dest: fnv_fold_inj)
  then show False using fnv_byte_inj_byte p(3-5) by blast
qed

lemma hex_digit_inj: "hex_digit d = hex_digit d' \<Longrightarrow> d < 16 \<Longrightarrow> d' < 16 \<Longrightarrow> d = d'"
proof -
  assume e: "hex_digit d = hex_digit d'" and d: "d < 16" "d' < 16"
  have "of_char (hex_digit k) = (if k < 10 then 48 + k else 87 + k)" if "k < 16" for k
    using that by (simp add: hex_digit_def)
  then show ?thesis using arg_cong [OF e, of "of_char :: char \<Rightarrow> nat"] d by (auto split: if_splits)
qed

lemma nat_digits_eq:
  "(\<And>k. k < n \<Longrightarrow> a div 16 ^ k mod 16 = b div 16 ^ k mod 16) \<Longrightarrow> a < 16 ^ n \<Longrightarrow> b < 16 ^ n \<Longrightarrow> (a :: nat) = b"
proof (induction n arbitrary: a b)
  case (Suc n)
  have "a div 16 = b div 16"
  proof (rule Suc.IH)
    show "a div 16 div 16 ^ k mod 16 = b div 16 div 16 ^ k mod 16" if "k < n" for k
      using Suc.prems(1) [of "Suc k"] that by (simp add: div_mult2_eq)
  qed (use Suc.prems(2,3) in \<open>auto simp: less_mult_imp_div_less mult.commute\<close>)
  moreover have "a mod 16 = b mod 16" using Suc.prems(1) [of 0] by simp
  ultimately show ?case by (metis div_mult_mod_eq)
qed simp

lemma hex_16_inj: "hex_16 x = hex_16 y \<Longrightarrow> x = y"
proof -
  assume e: "hex_16 x = hex_16 y"
  have digit: "unat x div 16 ^ k mod 16 = unat y div 16 ^ k mod 16" if "k < 16" for k
  proof -
    have n: "hex_16 z ! (15 - k) = hex_digit (unat z div 16 ^ k mod 16)" for z
    proof -
      have "[0..<16] ! (15 - k) = 15 - k" by (subst nth_upt) simp_all
      then show ?thesis using that by (simp add: hex_16_def)
    qed
    have "hex_digit (unat x div 16 ^ k mod 16) = hex_digit (unat y div 16 ^ k mod 16)"
      by (simp only: n [symmetric] e)
    then show ?thesis by (rule hex_digit_inj) simp_all
  qed
  have "unat x < 16 ^ 16" "unat y < 16 ^ 16" using unsigned_less [of x] unsigned_less [of y] by simp_all
  with nat_digits_eq [of 16, OF digit] have "unat x = unat y" by blast
  then show "x = y" by (rule unsigned_word_eqI)
qed

text \<open>
  C21: When two records differ in a single byte of what the checksum covers, their checksums differ, so a
  record whose covered bytes changed in one byte after it was written no longer carries a checksum that
  covers its payloads.
\<close>

theorem wal_checksum_detects_byte:
  assumes "one_byte_apart (concat (map to_le_bytes (mixed_values True True r))) (concat (map to_le_bytes (mixed_values True True r')))"
    and "wr_checksum r' = matrixraft_wal_checksum r"
  shows "\<not> matrixraft_wal_checksum_covers_payloads r'"
  using fnv_fold_apart [OF assms(1)] assms(2)
  by (auto simp: matrixraft_wal_checksum_covers_payloads_def matrixraft_wal_checksum_def wal_checksum_def fold_mix dest: hex_16_inj)

section \<open>Recovery\<close>

lemma whole_checksum [simp]: "wr_checksum (whole_from_folded r es) = matrixraft_wal_checksum (whole_from_folded r es)"
  by (simp add: whole_from_folded_def Let_def matrixraft_wal_checksum_def wal_checksum_def mixed_values_def)

lemma whole_valid [simp]: "matrixraft_wal_checksum_valid (whole_from_folded r es)"
  by (simp add: matrixraft_wal_checksum_valid_def)

lemma whole_committed [simp]: "committed_index_of (whole_from_folded r es) = committed_index_of r"
  by (simp add: whole_from_folded_def Let_def committed_index_of_def)

lemma fold_loop_takeWhile:
  "fold_wal_record_loop es rs = fold_wal_record_loop es (takeWhile matrixraft_wal_checksum_valid rs)"
  by (induction rs arbitrary: es) (auto simp: Let_def)

lemma fold_loop_length: "length (fold_wal_record_loop es rs) = length (takeWhile matrixraft_wal_checksum_valid rs)"
  by (induction rs arbitrary: es) (auto simp: Let_def)

lemma fold_loop_nth:
  "i < length (takeWhile matrixraft_wal_checksum_valid rs) \<Longrightarrow>
     fold_wal_record_loop es rs ! i = whole_from_folded (rs ! i) (foldl fold_wal_entries_step es (take (Suc i) rs))"
proof (induction rs arbitrary: es i)
  case (Cons r rs)
  then show ?case by (cases i) (auto simp: Let_def split: if_splits)
qed simp

lemma fold_records_eq:
  "matrixraft_fold_wal_records stored = map (whole_at stored) [0..<length (takeWhile matrixraft_wal_checksum_valid stored)]"
  by (rule nth_equalityI)
    (simp_all add: matrixraft_fold_wal_records_def matrixraft_fold_wal_record_iter_def fold_loop_length fold_loop_nth whole_at_def)

lemma find_rev_sorted:
  "sorted xs \<Longrightarrow> find Q (rev xs) = (if \<exists>y \<in> set xs. Q y then Some (Max {y \<in> set xs. Q y}) else None)"
proof (induction xs rule: rev_induct)
  case (snoc x xs)
  have le: "y \<le> x" if "y \<in> set xs" for y using snoc.prems that by (auto simp: sorted_append)
  show ?case
  proof (cases "Q x")
    case True
    have "Max {y \<in> set (xs @ [x]). Q y} = x" by (rule Max_eqI) (use True le in auto)
    then show ?thesis using True by simp
  next
    case False
    then have "{y \<in> set (xs @ [x]). Q y} = {y \<in> set xs. Q y}" by auto
    then show ?thesis using False snoc by (simp add: sorted_append)
  qed
qed simp

lemma max_by_key_snoc:
  "max_by_key k (xs @ [x]) = (case max_by_key k xs of None \<Rightarrow> Some x | Some b \<Rightarrow> if k x < k b then Some b else Some x)"
  by (simp add: max_by_key_def)

lemma max_by_key_map: "max_by_key k (map f xs) = map_option f (max_by_key (k \<circ> f) xs)"
  by (induction xs rule: rev_induct) (auto simp: max_by_key_snoc max_by_key_def split: option.splits)

text \<open>Ranking by key and position and taking the first that qualifies is the last greatest one that qualifies.\<close>

lemma ranked_search:
  "map_option snd (find (\<lambda>c. P (snd c)) (rev (sort (zip (map k [0..<n]) [0..<n])))) = max_by_key k (filter P [0..<n])"
proof (induction n)
  case (Suc n)
  define cs where "cs = zip (map k [0..<n]) [0..<n]"
  define Q where "Q = (\<lambda>c :: nat \<times> nat. P (snd c))"
  have cs: "snd c < n" "fst c = k (snd c)" if "c \<in> set cs" for c using that by (auto simp: cs_def set_zip)
  have split: "zip (map k [0..<Suc n]) [0..<Suc n] = cs @ [(k n, n)]" by (simp add: cs_def)
  have f: "find Q (rev (sort ys)) = (if \<exists>y \<in> set ys. Q y then Some (Max {y \<in> set ys. Q y}) else None)" for ys :: "(nat \<times> nat) list"
    using find_rev_sorted [of "sort ys" Q] by simp
  have IH: "map_option snd (find Q (rev (sort cs))) = max_by_key k (filter P [0..<n])" using Suc by (simp add: cs_def Q_def)
  show ?case
  proof (cases "P n")
    case False
    then have "{y \<in> set (cs @ [(k n, n)]). Q y} = {y \<in> set cs. Q y}" "(\<exists>y \<in> set (cs @ [(k n, n)]). Q y) = (\<exists>y \<in> set cs. Q y)"
      by (auto simp: Q_def)
    then have "find Q (rev (sort (cs @ [(k n, n)]))) = find Q (rev (sort cs))" unfolding f by simp
    then show ?thesis using False IH unfolding split by (simp add: Q_def)
  next
    case True
    define M where "M = {y \<in> set cs. Q y}"
    have ins: "{y \<in> set (cs @ [(k n, n)]). Q y} = insert (k n, n) M" using True by (auto simp: Q_def M_def)
    have fin: "finite M" by (simp add: M_def)
    have step: "find Q (rev (sort (cs @ [(k n, n)]))) = Some (Max (insert (k n, n) M))"
      unfolding f ins using True by (simp add: Q_def)
    show ?thesis
    proof (cases "M = {}")
      case True
      then have "\<not> (\<exists>y \<in> set cs. Q y)" by (auto simp: M_def)
      then have "find Q (rev (sort cs)) = None" using f [of cs] by simp
      then have "max_by_key k (filter P [0..<n]) = None" using IH by simp
      then show ?thesis using step True \<open>P n\<close> unfolding split by (simp add: Q_def max_by_key_snoc)
    next
      case False
      then have "\<exists>y \<in> set cs. Q y" by (auto simp: M_def)
      then have m: "find Q (rev (sort cs)) = Some (Max M)" using f [of cs] by (simp add: M_def)
      have "Max M \<in> set cs" using Max_in [OF fin False] by (simp add: M_def)
      note cs [OF this]
      then have "max (k n, n) (Max M) = (if k n < k (snd (Max M)) then Max M else (k n, n))"
        by (cases "Max M") (auto simp: max_def less_eq_prod_def)
      moreover have "max_by_key k (filter P [0..<n]) = Some (snd (Max M))" using IH m by simp
      ultimately show ?thesis using step False fin \<open>P n\<close> unfolding split by (simp add: Q_def max_by_key_snoc)
    qed
  qed
qed (simp add: max_by_key_def)

text \<open>
  C12: The streaming recovery, which folds only the log and ranks the records it saw, reports as many
  surviving records and restores from the same record as building a whole record for every stored one
  and picking the latest valid one among them.
\<close>

theorem wal_recovery_streaming_agrees:
  "matrixraft_recover_from_wal_records stored =
     (length (matrixraft_fold_wal_records stored),
      case matrixraft_recover_latest_wal_record (matrixraft_fold_wal_records stored) of Inl _ \<Rightarrow> None | Inr r \<Rightarrow> Some r)"
proof -
  define n where "n = length (takeWhile matrixraft_wal_checksum_valid stored)"
  define k where "k = (\<lambda>i. committed_index_of (whole_at stored i))"
  have folded: "matrixraft_fold_wal_records stored = map (whole_at stored) [0..<n]" by (simp add: fold_records_eq n_def)
  have valid: "takeWhile matrixraft_wal_checksum_valid (map (whole_at stored) [0..<n]) = map (whole_at stored) [0..<n]"
    by (simp add: takeWhile_eq_all_conv whole_at_def)
  have keys: "map committed_index_of (takeWhile matrixraft_wal_checksum_valid stored) = map k [0..<n]"
    by (rule nth_equalityI) (simp_all add: n_def k_def whole_at_def takeWhile_nth)
  have cands: "recovery_candidates (takeWhile matrixraft_wal_checksum_valid stored) = zip (map k [0..<n]) [0..<n]"
    by (simp only: recovery_candidates_def keys n_def [symmetric])
  have "map_option (\<lambda>c. whole_at stored (snd c)) (find (\<lambda>c. record_valid (whole_at stored (snd c))) (rev (sort (zip (map k [0..<n]) [0..<n]))))
    = map_option (whole_at stored) (map_option snd (find (\<lambda>c. record_valid (whole_at stored (snd c))) (rev (sort (zip (map k [0..<n]) [0..<n])))))"
    by (simp add: option.map_comp comp_def)
  also have "\<dots> = map_option (whole_at stored) (max_by_key k (filter (\<lambda>i. record_valid (whole_at stored i)) [0..<n]))"
    by (simp only: ranked_search [of "\<lambda>i. record_valid (whole_at stored i)"])
  also have "\<dots> = max_by_key committed_index_of (filter record_valid (map (whole_at stored) [0..<n]))"
    by (simp add: max_by_key_map filter_map comp_def k_def)
  finally show ?thesis
    by (simp add: matrixraft_recover_from_wal_records_def Let_def cands folded valid matrixraft_recover_latest_wal_record_def
        n_def [symmetric] ok_or_def split: option.split)
qed

section \<open>Delta records\<close>

text \<open>What \<^verbatim>\<open>append_with_report\<close> stores for a sequence of whole records.\<close>

fun write_records :: "coverage \<Rightarrow> wal_record list \<Rightarrow> wal_record list" where
  "write_records covered [] = []"
| "write_records covered (r # rs) =
     (let stored = delta_record covered r in stored # write_records (advance_active_covered stored covered) rs)"

definition log_matching :: "log_entry list \<Rightarrow> log_entry list \<Rightarrow> bool" where
  "log_matching es fs \<longleftrightarrow> (\<forall>i < length es. \<forall>j < length fs. le_log_id (es ! i) = le_log_id (fs ! j)
     \<longrightarrow> (\<forall>i' \<le> i. \<forall>j' \<le> j. idx (es ! i') = idx (fs ! j') \<longrightarrow> es ! i' = fs ! j'))"

fun log_history :: "log_entry list list \<Rightarrow> bool" where
  "log_history [] \<longleftrightarrow> True"
| "log_history [es] \<longleftrightarrow> contiguous_from (idx (hd es)) es"
| "log_history (es # fs # rest) \<longleftrightarrow> contiguous_from (idx (hd es)) es \<and> log_matching es fs
     \<and> (es \<noteq> [] \<longrightarrow> fs \<noteq> [] \<longrightarrow> idx (hd es) \<le> idx (hd fs)) \<and> log_history (fs # rest)"

lemma log_history_hd: "log_history (es # rest) \<Longrightarrow> contiguous_from (idx (hd es)) es"
  by (cases rest) simp_all

lemma delta_base_prefix:
  assumes base: "coverage_of es = Some (i, j, t)" "matrixraft_wal_delta_base fs i j t = Some k"
    and es: "contiguous_from (idx (hd es)) es" and fs: "contiguous_from (idx (hd fs)) fs"
    and match: "log_matching es fs" and later: "fs \<noteq> [] \<longrightarrow> idx (hd es) \<le> idx (hd fs)"
  shows "es \<noteq> []" "k = length es" "take k fs = es"
proof -
  have cov: "es \<noteq> []" "i = idx (hd es)" "j = idx (last es)" "t = trm (last es)"
    using base(1) by (auto simp: coverage_of_def split: if_splits)
  have ne: "fs \<noteq> []" using base(2) by (auto simp: matrixraft_wal_delta_base_def)
  then obtain p where p: "binary_search_by (\<lambda>x. cmp_nat (idx x) j) fs = Inr p" "trm (fs ! p) = t" "k = p + 1" "idx (hd fs) \<le> i"
    using base(2) by (auto simp: matrixraft_wal_delta_base_def split: list.splits sum.splits if_splits)
  then have at: "p < length fs" "idx (fs ! p) = j" using binary_search_index [OF contiguous_from_sorted [OF fs, unfolded log_sorted_def]] by blast+
  have first: "idx (hd es) = idx (hd fs)" using p(4) later ne cov(2) by auto
  have last: "last es = es ! (length es - 1)" using cov(1) by (rule last_conv_nth)
  have pos: "p = length es - 1"
    using at contiguous_from_nth [OF fs at(1)] contiguous_from_nth [OF es, of "length es - 1"] cov(1,3) last first by simp
  have id: "le_log_id (es ! (length es - 1)) = le_log_id (fs ! p)"
    by (rule log_id.equality) (use at(2) p(2) cov(3,4) last in simp_all)
  have same: "es ! a = fs ! a" if "a < length es" for a
  proof -
    have "idx (es ! a) = idx (fs ! a)" using that contiguous_from_nth [OF es that] contiguous_from_nth [OF fs, of a] at(1) pos first by simp
    then show ?thesis using match [unfolded log_matching_def, rule_format, of "length es - 1" p a a] id at(1) cov(1) that pos
      by simp
  qed
  show "es \<noteq> []" "k = length es" using cov(1) pos p(3) by simp_all
  then show "take k fs = es" using at(1) pos by (intro nth_equalityI) (simp_all add: same)
qed

lemma partition_point_all: "(\<And>x. x \<in> set xs \<Longrightarrow> P x) \<Longrightarrow> partition_point P xs = length xs"
  by (subst partition_point_takeWhile) (simp_all add: takeWhile_eq_all_conv [THEN iffD2])

lemma fold_delta:
  assumes "take k fs = es" "k = length es" "contiguous_from (idx (hd fs)) fs" "wr_entries_are_delta d" "wr_entries d = drop k fs"
  shows "fold_wal_entries_step es d = fs"
proof (cases "drop k fs")
  case Nil
  then show ?thesis using assms by (simp add: fold_wal_entries_step_def)
next
  case (Cons e rest)
  have k: "k < length fs" using Cons by (cases "k < length fs") simp_all
  have "idx x < idx e" if "x \<in> set es" for x
  proof -
    obtain a where a: "a < length es" "x = es ! a" using \<open>x \<in> set es\<close> by (auto simp: in_set_conv_nth)
    then have "x = fs ! a" using assms(1,2) by (metis nth_take)
    moreover have "e = fs ! k" using Cons by (metis hd_drop_conv_nth k list.sel(1))
    ultimately show ?thesis using contiguous_from_nth [OF assms(3)] a(1) k assms(2) by simp
  qed
  then have "partition_point (\<lambda>x. idx x < idx e) es = length es" by (rule partition_point_all)
  then show ?thesis using assms Cons by (simp add: fold_wal_entries_step_def) (metis append_take_drop_id)
qed

lemma checksum_ignores_checksum [simp]: "matrixraft_wal_checksum (r\<lparr>wr_checksum := v\<rparr>) = matrixraft_wal_checksum r"
  "matrixraft_wal_checksum (r\<lparr>wr_checksum := v, wr_entries_are_delta := b\<rparr>) = matrixraft_wal_checksum (r\<lparr>wr_entries_are_delta := b\<rparr>)"
  by (simp_all add: matrixraft_wal_checksum_def wal_checksum_def mixed_values_def)

lemma whole_record_ignores [simp]: "whole_record (r\<lparr>wr_checksum := v\<rparr>) = whole_record r"
  "whole_record (r\<lparr>wr_entries_are_delta := b\<rparr>) = whole_record r"
  by (simp_all add: whole_record_def Let_def)

lemma whole_record_twice [simp]: "whole_record (whole_record r) = whole_record r"
proof -
  obtain x where "whole_record r = r\<lparr>wr_entries_are_delta := False, wr_checksum := x\<rparr>" by (simp add: whole_record_def Let_def)
  then show ?thesis by (metis whole_record_ignores)
qed

lemma whole_from_folded_record: "whole_from_folded r es = whole_record (r\<lparr>wr_entries := es\<rparr>)"
  by (simp add: whole_from_folded_def whole_record_def)

lemma whole_record_entries_twice: "whole_record (r\<lparr>wr_entries := es, wr_entries_are_delta := b, wr_checksum := v, wr_entries := wr_entries r\<rparr>) = whole_record r"
proof -
  have "r\<lparr>wr_entries := es, wr_entries_are_delta := b, wr_checksum := v, wr_entries := wr_entries r\<rparr>
    = r\<lparr>wr_entries_are_delta := b, wr_checksum := v\<rparr>" by (cases r) simp
  then show ?thesis by simp
qed

lemma delta_record_cases:
  assumes h: "log_history (es # wr_entries r # rest)" and d: "d = delta_record (coverage_of es) r"
  shows "matrixraft_wal_checksum_valid d" "fold_wal_entries_step es d = wr_entries r"
    "whole_from_folded d (wr_entries r) = whole_record r" "advance_active_covered d (coverage_of es) = coverage_of (wr_entries r)"
proof -
  let ?goal = "matrixraft_wal_checksum_valid d \<and> fold_wal_entries_step es d = wr_entries r
    \<and> whole_from_folded d (wr_entries r) = whole_record r \<and> advance_active_covered d (coverage_of es) = coverage_of (wr_entries r)"
  have ?goal
  proof (cases "d = whole_record r")
    case True
    have f: "wr_entries d = wr_entries r" "\<not> wr_entries_are_delta d" "wr_checksum d = matrixraft_wal_checksum d"
      by (simp_all add: True whole_record_def Let_def)
    have "d\<lparr>wr_entries := wr_entries r\<rparr> = d" using f(1) by (cases d) simp
    then have "whole_from_folded d (wr_entries r) = whole_record r"
      by (simp add: whole_from_folded_record True)
    then show ?thesis using f by (simp add: matrixraft_wal_checksum_valid_def fold_wal_entries_step_def advance_active_covered_def)
  next
    case False
    then obtain i j t k where c: "coverage_of es = Some (i, j, t)" "matrixraft_wal_delta_base (wr_entries r) i j t = Some k"
      using d by (auto simp: delta_record_def split: option.splits)
    have fs: "contiguous_from (idx (hd (wr_entries r))) (wr_entries r)" using h by (auto dest: log_history_hd)
    have "contiguous_from (idx (hd es)) es" "log_matching es (wr_entries r)" using h by simp_all
    moreover have "wr_entries r \<noteq> [] \<longrightarrow> idx (hd es) \<le> idx (hd (wr_entries r))"
      using h c(1) by (auto simp: coverage_of_def split: if_splits)
    ultimately have p: "es \<noteq> []" "k = length es" "take k (wr_entries r) = es" using delta_base_prefix [OF c _ fs] by blast+
    define m where "m = r\<lparr>wr_entries := drop k (wr_entries r), wr_entries_are_delta := True\<rparr>"
    have dm: "d = m\<lparr>wr_checksum := matrixraft_wal_checksum m\<rparr>" using d c by (simp add: delta_record_def m_def Let_def)
    have e: "wr_entries d = drop k (wr_entries r)" "wr_entries_are_delta d" by (simp_all add: dm m_def)
    define ts where "ts = drop k (wr_entries r)"
    have whole: "wr_entries r = es @ ts" using p(3) by (metis append_take_drop_id ts_def)
    have "coverage_of (wr_entries r) = advance_active_covered d (coverage_of es)"
      using p(1) e(2) e(1) [folded ts_def] by (simp add: whole advance_active_covered_def coverage_of_def)
    then show ?thesis
      using fold_delta [OF p(3,2) fs e(2,1)]
      by (simp add: matrixraft_wal_checksum_valid_def whole_from_folded_record) (simp add: dm m_def whole_record_entries_twice)
  qed
  then show "matrixraft_wal_checksum_valid d" "fold_wal_entries_step es d = wr_entries r"
    "whole_from_folded d (wr_entries r) = whole_record r" "advance_active_covered d (coverage_of es) = coverage_of (wr_entries r)"
    by blast+
qed

lemma fold_written: "log_history (es # map wr_entries rs) \<Longrightarrow> fold_wal_record_loop es (write_records (coverage_of es) rs) = map whole_record rs"
proof (induction rs arbitrary: es)
  case (Cons r rs)
  have h: "log_history (es # wr_entries r # map wr_entries rs)" using Cons.prems by simp
  then have "log_history (wr_entries r # map wr_entries rs)" by simp
  then show ?case using Cons.IH delta_record_cases [OF h refl] by (simp add: Let_def)
qed simp

text \<open>
  C10: When the logs a replica writes are contiguous, never regain compacted entries and satisfy log
  matching from one record to the next, then storing every record as a delta wherever the coverage
  allows it loses nothing: folding what was stored gives back every record whole.
\<close>

theorem delta_records_roundtrip:
  assumes "log_history (map wr_entries rs)"
  shows "matrixraft_fold_wal_records (write_records None rs) = map whole_record rs"
proof -
  have "log_history ([] # map wr_entries rs)" using assms by (cases rs) (simp_all add: log_matching_def)
  then show ?thesis using fold_written [of "[]" rs]
    by (simp add: matrixraft_fold_wal_records_def matrixraft_fold_wal_record_iter_def coverage_of_def)
qed

definition sample_record :: "log_entry list \<Rightarrow> wal_record" where
  "sample_record es = \<lparr>wr_group_id = 1, wr_node_id = 1, wr_hard_state = \<lparr>hs_current_term = 3, hs_voted_for = None, hs_committed = None\<rparr>,
     wr_membership = \<lparr>mb_group_id = 1, mb_voters = [1], mb_learners = [], mb_witnesses = [], mb_epoch = 3\<rparr>, wr_entries = es,
     wr_entries_are_delta = False, wr_installed_snapshot = None,
     wr_apply_snapshot_fence = \<lparr>af_applied_index = 0, af_commit_index = 0, af_installed_snapshot_index = 0, af_first_retained_log_index = 1\<rparr>,
     wr_checksum = []\<rparr>"

definition stored_entry :: "raft_term \<Rightarrow> log_index \<Rightarrow> log_entry" where
  "stored_entry t i = \<lparr>le_log_id = \<lparr>li_term = t, li_index = i\<rparr>, le_payload = [i], le_is_command = True\<rparr>"

text \<open>An append, a conflict that rewrites the tail, and another append: a whole record is written for the conflict only.\<close>

definition sample_history :: "wal_record list" where
  "sample_history = map sample_record [[stored_entry 1 1], [stored_entry 1 1, stored_entry 2 2], [stored_entry 1 1, stored_entry 3 2],
     [stored_entry 1 1, stored_entry 3 2, stored_entry 3 3]]"

theorem delta_records_roundtrip_witness:
  "map wr_entries_are_delta (write_records None sample_history) = [False, True, False, True]
   \<and> map wr_entries (matrixraft_fold_wal_records (write_records None sample_history)) = map wr_entries sample_history"
proof
  show "map wr_entries_are_delta (write_records None sample_history) = [False, True, False, True]"
    by (simp add: sample_history_def sample_record_def stored_entry_def delta_record_def whole_record_def Let_def coverage_of_def
        advance_active_covered_def matrixraft_wal_delta_base_def binary_search_by_def bs_loop.simps cmp_nat_def)
  have "log_history (map wr_entries sample_history)" by code_simp
  from delta_records_roundtrip [OF this] show "map wr_entries (matrixraft_fold_wal_records (write_records None sample_history)) = map wr_entries sample_history"
    by (simp add: whole_record_def Let_def)
qed

definition corrupted_record :: wal_record where
  "corrupted_record = (sample_record [])\<lparr>wr_hard_state := \<lparr>hs_current_term = 4, hs_voted_for = None, hs_committed = None\<rparr>,
     wr_checksum := matrixraft_wal_checksum (sample_record [])\<rparr>"

theorem wal_checksum_detects_byte_witness: "\<not> matrixraft_wal_checksum_covers_payloads corrupted_record"
proof (rule wal_checksum_detects_byte [of "sample_record []"])
  have "mixed_values True True (sample_record []) = [1, 1, 3] @ [0, 0, 0, 0, 1, 1, 3, 1, 1, 0, 0]"
    "mixed_values True True corrupted_record = [1, 1, 4] @ [0, 0, 0, 0, 1, 1, 3, 1, 1, 0, 0]"
    by (simp_all add: mixed_values_def sample_record_def corrupted_record_def mixed_log_id_def mixed_list_def)
  moreover have "to_le_bytes 3 = 3 # replicate 7 0" "to_le_bytes 4 = 4 # replicate 7 0" by code_simp+
  ultimately show "one_byte_apart (concat (map to_le_bytes (mixed_values True True (sample_record []))))
     (concat (map to_le_bytes (mixed_values True True corrupted_record)))"
    unfolding one_byte_apart_def
    apply -
    apply (rule exI [of _ "to_le_bytes 1 @ to_le_bytes 1"], rule exI [of _ 3], rule exI [of _ 4])
    apply (rule exI [of _ "replicate 7 0 @ concat (map to_le_bytes [0, 0, 0, 0, 1, 1, 3, 1, 1, 0, 0])"])
    by simp
qed (simp add: corrupted_record_def)

section \<open>The in-memory log\<close>

definition sealed_record :: "wal_record \<Rightarrow> wal_record" where
  "sealed_record r = r\<lparr>wr_checksum := matrixraft_wal_checksum r\<rparr>"

lemma validity_ignores_checksum [simp]:
  "committed_index_of (r\<lparr>wr_checksum := v\<rparr>) = committed_index_of r" "last_entry_index (r\<lparr>wr_checksum := v\<rparr>) = last_entry_index r"
  "record_snapshot_index (r\<lparr>wr_checksum := v\<rparr>) = record_snapshot_index r"
  "matrixraft_validate_hard_state_persistence (r\<lparr>wr_checksum := v\<rparr>) = matrixraft_validate_hard_state_persistence r"
  "matrixraft_validate_log_continues_snapshot (r\<lparr>wr_checksum := v\<rparr>) = matrixraft_validate_log_continues_snapshot r"
  "matrixraft_validate_apply_snapshot_fence (r\<lparr>wr_checksum := v\<rparr>) = matrixraft_validate_apply_snapshot_fence r"
proof -
  show a: "committed_index_of (r\<lparr>wr_checksum := v\<rparr>) = committed_index_of r" "last_entry_index (r\<lparr>wr_checksum := v\<rparr>) = last_entry_index r"
    "record_snapshot_index (r\<lparr>wr_checksum := v\<rparr>) = record_snapshot_index r"
    by (simp_all add: committed_index_of_def last_entry_index_def record_snapshot_index_def)
  show "matrixraft_validate_hard_state_persistence (r\<lparr>wr_checksum := v\<rparr>) = matrixraft_validate_hard_state_persistence r"
    by (simp add: matrixraft_validate_hard_state_persistence_def a split: option.split)
  show c: "matrixraft_validate_log_continues_snapshot (r\<lparr>wr_checksum := v\<rparr>) = matrixraft_validate_log_continues_snapshot r"
    by (simp add: matrixraft_validate_log_continues_snapshot_def split: option.split)
  show "matrixraft_validate_apply_snapshot_fence (r\<lparr>wr_checksum := v\<rparr>) = matrixraft_validate_apply_snapshot_fence r"
    by (simp add: matrixraft_validate_apply_snapshot_fence_def a c Let_def split: sum.split)
qed

lemma sealed_record_simps [simp]:
  "matrixraft_wal_checksum_valid (sealed_record r)" "committed_index_of (sealed_record r) = committed_index_of r"
  "record_valid (sealed_record r) = record_valid r" "hs_committed (wr_hard_state (sealed_record r)) = hs_committed (wr_hard_state r)"
  by (simp_all add: sealed_record_def matrixraft_wal_checksum_valid_def record_valid_def)

lemma roll_keeps_records [simp]: "local_wal_records (roll_local_segment w) = local_wal_records w" "lw_segments (roll_local_segment w) \<noteq> []"
proof -
  have "concat (map sg_records (butlast ss @ [(last ss)\<lparr>sg_sealed := True\<rparr>, empty_segment i])) = concat (map sg_records ss)" if "ss \<noteq> []" for ss i
  proof -
    have "concat (map sg_records ss) = concat (map sg_records (butlast ss @ [last ss]))" using that by simp
    then show ?thesis by (simp add: empty_segment_def)
  qed
  then show "local_wal_records (roll_local_segment w) = local_wal_records w"
    by (auto simp: roll_local_segment_def local_wal_records_def empty_segment_def split: list.split)
  show "lw_segments (roll_local_segment w) \<noteq> []" by (auto simp: roll_local_segment_def split: list.splits)
qed

lemma local_append_records:
  assumes "local_wal_append r w = (Inr v, w')" shows "local_wal_records w' = local_wal_records w @ [sealed_record r]"
proof -
  obtain ss g where roll: "lw_segments (roll_local_segment w) = ss @ [g]" by (metis rev_exhaust roll_keeps_records(2))
  then have "local_wal_records w = concat (map sg_records ss) @ sg_records g"
    using roll_keeps_records(1) [of w] by (simp add: local_wal_records_def)
  moreover have "lw_segments w' = ss @ [push_record (sealed_record r) g]"
    using assms by (auto simp: local_wal_append_def sealed_record_def Let_def roll split: option.splits if_splits)
  ultimately show ?thesis by (simp add: local_wal_records_def push_record_def Let_def)
qed

lemma persisted_of_records:
  "persisted_commit_index w = (case List.map_filter (\<lambda>r. hs_committed (wr_hard_state r)) (rev (local_wal_records w)) of [] \<Rightarrow> 0 | l # _ \<Rightarrow> li_index l)"
  by (simp add: persisted_commit_index_def local_wal_records_def rev_concat rev_map comp_def)

definition commits_persisted :: "local_raft_wal \<Rightarrow> bool" where
  "commits_persisted w \<longleftrightarrow> (\<forall>r \<in> set (local_wal_records w). committed_index_of r \<le> persisted_commit_index w)"

lemma local_append_commits:
  assumes "local_wal_append r w = (Inr v, w')" "commits_persisted w" shows "commits_persisted w'"
proof (cases "hs_committed (wr_hard_state r)")
  case None
  then show ?thesis using assms(2) local_append_records [OF assms(1)]
    by (auto simp: commits_persisted_def persisted_of_records committed_index_of_def List.map_filter_simps)
next
  case (Some l)
  then have "persisted_commit_index w \<le> li_index l" using assms(1) by (auto simp: local_wal_append_def Let_def split: if_splits)
  moreover have "persisted_commit_index w' = li_index l"
    using Some local_append_records [OF assms(1)] by (simp add: persisted_of_records List.map_filter_simps)
  ultimately show ?thesis using assms(2) Some local_append_records [OF assms(1)]
    by (force simp: commits_persisted_def committed_index_of_def)
qed

lemma append_all_records:
  "append_all rs w = (Inr (), w') \<Longrightarrow> commits_persisted w
     \<Longrightarrow> local_wal_records w' = local_wal_records w @ map sealed_record rs \<and> commits_persisted w'"
proof (induction rs arbitrary: w)
  case (Cons r rs)
  obtain v w1 where a: "local_wal_append r w = (Inr v, w1)" "append_all rs w1 = (Inr (), w')"
    using Cons.prems(1) by (auto elim: and_then_Inr)
  then show ?case using Cons.IH [OF a(2) local_append_commits [OF a(1) Cons.prems(2)]] local_append_records [OF a(1)] by simp
qed simp

lemma append_all_append:
  assumes "append_all (xs @ ys) w = (Inr (), w')"
  obtains w1 where "append_all xs w = (Inr (), w1)" "append_all ys w1 = (Inr (), w')"
  using assms
proof (induction xs arbitrary: w thesis)
  case (Cons x xs)
  obtain v w2 where a: "local_wal_append x w = (Inr v, w2)" "append_all (xs @ ys) w2 = (Inr (), w')"
    using Cons.prems(2) by (auto elim: and_then_Inr)
  then obtain w1 where "append_all xs w2 = (Inr (), w1)" "append_all ys w1 = (Inr (), w')" using Cons.IH by blast
  then show ?case using a(1) Cons.prems(1) [of w1] by simp
qed simp

text \<open>A record that carries a committed index is accepted only at or above every one before it.\<close>

lemma accepted_commits_grow:
  assumes "append_all (xs @ y # ys) w = (Inr (), w')" "local_wal_records w = []" "hs_committed (wr_hard_state y) = Some l" "x \<in> set xs"
  shows "committed_index_of x \<le> committed_index_of y"
proof -
  obtain w1 v w2 where a: "append_all xs w = (Inr (), w1)" "local_wal_append y w1 = (Inr v, w2)"
    using append_all_append [OF assms(1)] by (metis and_then_Inr append_all.simps(2))
  have r: "local_wal_records w1 = map sealed_record xs" "commits_persisted w1"
    using append_all_records [OF a(1)] assms(2) by (simp_all add: commits_persisted_def)
  have "persisted_commit_index w1 \<le> li_index l"
    using a(2) assms(3) by (auto simp: local_wal_append_def Let_def split: if_splits)
  moreover have "committed_index_of x \<le> persisted_commit_index w1"
    using r assms(4) by (auto simp: commits_persisted_def)
  ultimately show ?thesis using assms(3) by (simp add: committed_index_of_def)
qed

text \<open>The choice of \<open>max_by_key\<close>: an element no other one beats, and that beats every later one.\<close>

lemma max_by_key_None: "max_by_key k xs = None \<longleftrightarrow> xs = []"
  by (cases xs rule: rev_cases) (auto simp: max_by_key_snoc max_by_key_def split: option.split)

lemma max_by_key_split:
  assumes "max_by_key k xs = Some b"
  shows "\<exists>us vs. xs = us @ b # vs \<and> (\<forall>x \<in> set us. k x \<le> k b) \<and> (\<forall>x \<in> set vs. k x < k b)"
  using assms
proof (induction xs arbitrary: b rule: rev_induct)
  case (snoc y xs)
  show ?case
  proof (cases "max_by_key k xs")
    case None
    then have "b = y" using snoc.prems by (simp add: max_by_key_snoc)
    moreover have "xs = []" using None by (simp add: max_by_key_None)
    ultimately show ?thesis by (intro exI [of _ "[]"]) simp
  next
    case (Some a)
    obtain us vs where a: "xs = us @ a # vs" "\<forall>x \<in> set us. k x \<le> k a" "\<forall>x \<in> set vs. k x < k a"
      using snoc.IH [OF Some] by blast
    show ?thesis
    proof (cases "k y < k a")
      case True
      then have "b = a" using snoc.prems Some by (auto simp: max_by_key_snoc)
      then show ?thesis using a True by (intro exI [of _ us] exI [of _ "vs @ [y]"]) auto
    next
      case False
      then have "b = y" using snoc.prems Some by (auto simp: max_by_key_snoc split: if_splits)
      then show ?thesis using a False by (intro exI [of _ xs] exI [of _ "[]"]) auto
    qed
  qed
qed (simp add: max_by_key_None [symmetric] max_by_key_def)

lemma filter_eq_split:
  assumes "filter P xs = us @ y # vs"
  shows "\<exists>as bs. xs = as @ y # bs \<and> filter P as = us \<and> filter P bs = vs"
  using assms
proof (induction xs arbitrary: us)
  case (Cons x xs)
  show ?case
  proof (cases "P x \<and> us = []")
    case True
    then show ?thesis using Cons.prems by (intro exI [of _ "[]"] exI [of _ xs]) simp
  next
    case False
    then have "filter P xs = (if P x then tl us else us) @ y # vs" "P x \<Longrightarrow> us = x # tl us"
      using Cons.prems by (auto simp: Cons_eq_append_conv split: if_splits)
    then obtain as bs where "xs = as @ y # bs" "filter P as = (if P x then tl us else us)" "filter P bs = vs"
      using Cons.IH by blast
    then show ?thesis using \<open>P x \<Longrightarrow> us = x # tl us\<close> by (intro exI [of _ "x # as"] exI [of _ bs]) auto
  qed
qed simp

lemma accepted_latest:
  assumes "append_all rs w0 = (Inr (), w)" "local_wal_records w0 = []"
    and "max_by_key committed_index_of (filter record_valid rs) = Some r"
  shows "\<exists>as bs. rs = as @ r # bs \<and> record_valid r
    \<and> (\<forall>x \<in> set as. record_valid x \<longrightarrow> committed_index_of x \<le> committed_index_of r)
    \<and> (\<forall>x \<in> set bs. record_valid x \<longrightarrow> hs_committed (wr_hard_state x) = None)"
proof -
  obtain us vs where uv: "filter record_valid rs = us @ r # vs"
      "\<forall>x \<in> set us. committed_index_of x \<le> committed_index_of r" "\<forall>x \<in> set vs. committed_index_of x < committed_index_of r"
    using max_by_key_split [OF assms(3)] by blast
  obtain as bs where ab: "rs = as @ r # bs" "filter record_valid as = us" "filter record_valid bs = vs"
    using filter_eq_split [OF uv(1)] by blast
  have "hs_committed (wr_hard_state x) = None" if x: "x \<in> set bs" "record_valid x" for x
  proof (rule ccontr)
    assume "hs_committed (wr_hard_state x) \<noteq> None"
    then obtain l where l: "hs_committed (wr_hard_state x) = Some l" by blast
    obtain b1 b2 where b: "bs = b1 @ x # b2" using x(1) by (meson split_list)
    have "append_all ((as @ r # b1) @ x # b2) w0 = (Inr (), w)" using assms(1) ab(1) b by simp
    from accepted_commits_grow [OF this assms(2) l] have "committed_index_of r \<le> committed_index_of x" by simp
    moreover have "x \<in> set vs" using x ab(3) by auto
    ultimately show False using uv(3) by auto
  qed
  moreover have "r \<in> set (filter record_valid rs)" unfolding uv(1) by simp
  then have "record_valid r" by simp
  ultimately show ?thesis using ab uv(2) by (intro exI [of _ as] exI [of _ bs]) auto
qed

text \<open>
  C19: What recovery restores. After any sequence of appends that the in-memory log accepts, recovery
  drops nothing, and it restores nothing only when no appended record is valid. Otherwise it restores a
  valid record that commits at least as much as every record before it, and every valid record
  appended after it carries no committed index. So a valid last record that carries one is restored.
\<close>

theorem local_wal_recovers_latest_commit:
  assumes "local_wal_new m = Inr w0" "append_all rs w0 = (Inr (), w)"
  shows "\<exists>report. local_wal_recover w = (Inr report, w) \<and> wo_surviving_records report = length rs
    \<and> wo_removed_records report = 0 \<and> \<not> wo_truncated_corrupt_tail report
    \<and> (case wo_recovered report of
         None \<Rightarrow> \<forall>r \<in> set rs. \<not> record_valid r
       | Some s \<Rightarrow> \<exists>as r bs. rs = as @ r # bs \<and> s = sealed_record r \<and> record_valid r
           \<and> (\<forall>x \<in> set as. record_valid x \<longrightarrow> committed_index_of x \<le> committed_index_of r)
           \<and> (\<forall>x \<in> set bs. record_valid x \<longrightarrow> hs_committed (wr_hard_state x) = None))"
proof -
  have w0: "local_wal_records w0 = []"
    using assms(1) by (auto simp: local_wal_new_def local_wal_records_def empty_segment_def split: if_splits)
  have w: "local_wal_records w = map sealed_record rs"
    using append_all_records [OF assms(2)] w0 by (simp add: commits_persisted_def)
  have kept: "rev (dropWhile (\<lambda>r. \<not> matrixraft_wal_checksum_valid r) (rev (local_wal_records w))) = local_wal_records w"
    by (cases "rev rs") (simp_all add: w flip: rev_map)
  have all: "takeWhile matrixraft_wal_checksum_valid (local_wal_records w) = local_wal_records w"
    by (auto simp: takeWhile_eq_all_conv w)
  let ?best = "max_by_key committed_index_of (filter record_valid rs)"
  have "filter record_valid (map sealed_record rs) = map sealed_record (filter record_valid rs)"
    by (simp add: filter_map comp_def)
  then have "matrixraft_recover_latest_wal_record (local_wal_records w)
      = ok_or (Storage ''no valid WAL record survived recovery'') (map_option sealed_record ?best)"
    unfolding matrixraft_recover_latest_wal_record_def all by (simp add: w max_by_key_map comp_def)
  then have rec: "(case matrixraft_recover_latest_wal_record (local_wal_records w) of Inl _ \<Rightarrow> None | Inr r \<Rightarrow> Some r)
      = map_option sealed_record ?best"
    by (cases ?best) simp_all
  obtain report where report: "local_wal_recover w = (Inr report, w)" "wo_surviving_records report = length rs"
      "wo_removed_records report = 0" "\<not> wo_truncated_corrupt_tail report" "wo_recovered report = map_option sealed_record ?best"
    unfolding local_wal_recover_def Let_def kept rec by (simp add: w)
  show ?thesis
  proof (cases ?best)
    case None
    then have "\<forall>r \<in> set rs. \<not> record_valid r" by (simp add: max_by_key_None filter_empty_conv)
    then show ?thesis using report None by simp
  next
    case (Some r)
    then show ?thesis using report accepted_latest [OF assms(2) w0 Some] by (intro exI [of _ report]) auto
  qed
qed

definition committed_record :: "log_index \<Rightarrow> wal_record" where
  "committed_record k = (sample_record (map (stored_entry 1) [1..<3]))\<lparr>
     wr_hard_state := \<lparr>hs_current_term = 1, hs_voted_for = Some 1, hs_committed = Some \<lparr>li_term = 1, li_index = k\<rparr>\<rparr>,
     wr_apply_snapshot_fence := \<lparr>af_applied_index = 0, af_commit_index = k, af_installed_snapshot_index = 0, af_first_retained_log_index = 1\<rparr>\<rparr>"

lemma committed_record_append:
  assumes "persisted_commit_index w \<le> k"
  shows "\<exists>w'. local_wal_append (committed_record k) w = (Inr (matrixraft_wal_checksum (committed_record k)), w')"
  using assms by (simp add: local_wal_append_def committed_record_def Let_def)

lemma plain_record_append:
  assumes "hs_committed (wr_hard_state r) = None"
  shows "\<exists>w'. local_wal_append r w = (Inr (matrixraft_wal_checksum r), w')"
  using assms by (simp add: local_wal_append_def Let_def)

text \<open>The appends of the witness: two committing records and one with entries only.\<close>

definition plain_record :: wal_record where
  "plain_record = sample_record (map (stored_entry 1) [1..<3])"

lemma sample_appends_accepted:
  "\<exists>w. append_all [committed_record 1, committed_record 2, plain_record] (projr (local_wal_new 1)) = (Inr (), w)"
proof -
  define w0 where "w0 = projr (local_wal_new 1)"
  have "persisted_commit_index w0 = 0" by (simp add: w0_def local_wal_new_def persisted_commit_index_def empty_segment_def List.map_filter_simps)
  then obtain w1 where a1: "local_wal_append (committed_record 1) w0 = (Inr (matrixraft_wal_checksum (committed_record 1)), w1)"
    using committed_record_append [of w0 1] by auto
  have "persisted_commit_index w1 = 1" using local_append_records [OF a1]
    by (simp add: w0_def persisted_of_records local_wal_records_def local_wal_new_def empty_segment_def List.map_filter_simps committed_record_def)
  then obtain w2 where a2: "local_wal_append (committed_record 2) w1 = (Inr (matrixraft_wal_checksum (committed_record 2)), w2)"
    using committed_record_append [of w1 2] by auto
  obtain w where a3: "local_wal_append plain_record w2 = (Inr (matrixraft_wal_checksum plain_record), w)"
    using plain_record_append [of plain_record w2] by (auto simp: plain_record_def sample_record_def)
  have "append_all [committed_record 1, committed_record 2, plain_record] w0 = (Inr (), w)"
    by (simp add: a1 [simplified] a2 a3)
  then show ?thesis unfolding w0_def by blast
qed

theorem local_wal_recovers_latest_commit_witness:
  "\<exists>w report. append_all [committed_record 1, committed_record 2, plain_record] (projr (local_wal_new 1)) = (Inr (), w)
     \<and> local_wal_recover w = (Inr report, w) \<and> wo_surviving_records report = 3
     \<and> wo_recovered report = Some (sealed_record (committed_record 2))"
proof -
  have new: "local_wal_new 1 = Inr (projr (local_wal_new 1))" by (simp add: local_wal_new_def)
  obtain w where all: "append_all [committed_record 1, committed_record 2, plain_record] (projr (local_wal_new 1)) = (Inr (), w)"
    using sample_appends_accepted by blast
  have v: "record_valid (committed_record 2)" "committed_index_of (committed_record 2) = 2" "committed_index_of plain_record = 0"
    by code_simp+
  have c: "hs_committed (wr_hard_state (committed_record 2)) \<noteq> None" by (simp add: committed_record_def)
  from local_wal_recovers_latest_commit [OF new all] all show ?thesis
    using v c by (fastforce simp: Cons_eq_append_conv split: option.splits)
qed

section \<open>Payload codec\<close>

lemma or_shift: "b < 2 ^ n \<Longrightarrow> push_bit n a OR b = a * 2 ^ n + (b :: nat)"
proof -
  assume b: "b < 2 ^ n"
  have "\<not> bit (push_bit n a) m \<or> \<not> bit b m" for m
  proof (cases "n \<le> m")
    case True
    then have "b < 2 ^ m" using b by (meson order_less_le_trans one_le_numeral power_increasing)
    then show ?thesis by (simp add: bit_iff_odd)
  next
    case False
    then show ?thesis by (simp add: bit_push_bit_iff)
  qed
  then have "push_bit n a + b = push_bit n a OR b" by (intro disjunctive_add) auto
  then show ?thesis by (simp add: push_bit_eq_mult)
qed

lemma triple_of_bytes: "b1 < 256 \<Longrightarrow> b2 < 256 \<Longrightarrow> triple_of b0 b1 b2 = b0 * 65536 + b1 * 256 + b2"
proof -
  assume b: "b1 < 256" "b2 < 256"
  have "push_bit 8 b1 OR b2 = b1 * 256 + b2" using or_shift [of b2 8 b1] b(2) by simp
  then show ?thesis using or_shift [of "b1 * 256 + b2" 16 b0] b by (simp add: triple_of_def)
qed

lemma alphabet_sextets: "map sextet ALPHABET = map Some [0..<64]" "CHR ''='' \<notin> set ALPHABET"
  by code_simp+

lemma letter_sextet: "v < 64 \<Longrightarrow> sextet (ALPHABET ! v) = Some v \<and> ALPHABET ! v \<noteq> CHR ''=''"
proof -
  assume v: "v < 64"
  have len: "length ALPHABET = 64" using arg_cong [OF alphabet_sextets(1), of length] by simp
  have "map sextet ALPHABET ! v = map Some [0..<64] ! v" by (simp only: alphabet_sextets(1))
  then have "sextet (ALPHABET ! v) = Some v" using v len by simp
  moreover have "ALPHABET ! v \<in> set ALPHABET" using v len by simp
  ultimately show ?thesis using alphabet_sextets(2) by metis
qed

lemma letter_value: "letter k t = ALPHABET ! (t div 2 ^ k mod 64)"
proof -
  have "drop_bit k t AND 63 = take_bit 6 (drop_bit k t)" by (simp add: take_bit_eq_mask mask_eq_exp_minus_1)
  then show ?thesis by (simp add: letter_def drop_bit_eq_div take_bit_eq_mod)
qed

lemma sextet_letter [simp]: "sextet (letter k t) = Some (t div 2 ^ k mod 64)" "letter k t \<noteq> CHR ''=''"
  by (simp_all add: letter_value letter_sextet)

lemma or_six: "v < 64 \<Longrightarrow> push_bit 6 x OR v = x * 64 + (v :: nat)"
  using or_shift [of v 6 x] by simp

lemma four_sextets:
  fixes t :: nat
  shows "t mod 16777216 = 64 * (t div 64 mod 262144) + t mod 64"
    "t div 64 mod 262144 = 64 * (t div 4096 mod 4096) + t div 64 mod 64"
    "t div 4096 mod 4096 = 64 * (t div 262144 mod 64) + t div 4096 mod 64"
  using mod_mult2_eq [of t 64 262144] mod_mult2_eq [of "t div 64" 64 4096] mod_mult2_eq [of "t div 4096" 64 64]
  by (simp_all add: div_mult2_eq [symmetric])

lemma decode_letters:
  "decode_quad is_last [letter 18 t, letter 12 t, letter 6 t, letter 0 t] 0 0 = Inr (t mod 16777216, 0)"
  "decode_quad True [letter 18 t, letter 12 t, letter 6 t, CHR ''=''] 0 0 = Inr (t div 64 mod 262144 * 64, Suc 0)"
  "decode_quad True [letter 18 t, letter 12 t, CHR ''='', CHR ''=''] 0 0 = Inr (t div 4096 mod 4096 * 4096, 2)"
  by (simp_all add: or_six) (simp_all add: push_bit_eq_mult four_sextets)

lemma bytes_of_triple:
  fixes t :: nat
  assumes t: "t = b0 * 65536 + b1 * 256 + b2" and b: "b0 < 256" "b1 < 256" "b2 < 256"
  shows "t div 65536 mod 256 = b0" "t div 256 mod 256 = b1" "t mod 256 = b2" "t < 16777216"
proof -
  have d: "t div 65536 = b0" "t div 256 = b0 * 256 + b1" using t b by (auto intro!: div_nat_eqI)
  have m: "t = b2 + 256 * (b0 * 256 + b1)" using t by simp
  show "t div 65536 mod 256 = b0" by (simp only: d mod_less b)
  show "t div 256 mod 256 = b1" unfolding d(2) using b(2) by simp
  show "t mod 256 = b2" unfolding m using b(3) by (simp only: mod_mult_self2 mod_less)
  show "t < 16777216" using t b by simp
qed

lemma quad_roundtrip:
  "b0 < 256 \<Longrightarrow> b1 < 256 \<Longrightarrow> b2 < 256 \<Longrightarrow> quad_bytes (triple_of b0 b1 b2 mod 16777216) 0 = [b0, b1, b2]"
  "b0 < 256 \<Longrightarrow> b1 < 256 \<Longrightarrow> quad_bytes (triple_of b0 b1 0 div 64 mod 262144 * 64) (Suc 0) = [b0, b1]"
  "b0 < 256 \<Longrightarrow> quad_bytes (triple_of b0 0 0 div 4096 mod 4096 * 4096) 2 = [b0]"
proof -
  have q: "quad_bytes t 0 = [b0, b1, b2]" "quad_bytes t (Suc 0) = [b0, b1]" "quad_bytes t 2 = [b0]"
    if "t = b0 * 65536 + b1 * 256 + b2" "b0 < 256" "b1 < 256" "b2 < 256" for t b0 b1 b2
    using bytes_of_triple [OF that] by (simp_all add: quad_bytes_def drop_bit_eq_div)
  show "quad_bytes (triple_of b0 b1 b2 mod 16777216) 0 = [b0, b1, b2]" if "b0 < 256" "b1 < 256" "b2 < 256"
    by (rule q) (use that bytes_of_triple(4) [OF refl that] in \<open>simp_all add: triple_of_bytes\<close>)
  show "quad_bytes (triple_of b0 b1 0 div 64 mod 262144 * 64) (Suc 0) = [b0, b1]" if "b0 < 256" "b1 < 256"
  proof (rule q(2) [where ?b2.0 = 0])
    have "triple_of b0 b1 0 = (b0 * 1024 + b1 * 4) * 64" using that by (simp add: triple_of_bytes)
    then show "triple_of b0 b1 0 div 64 mod 262144 * 64 = b0 * 65536 + b1 * 256 + 0" using that by simp
  qed (use that in simp_all)
  show "quad_bytes (triple_of b0 0 0 div 4096 mod 4096 * 4096) 2 = [b0]" if "b0 < 256"
  proof (rule q(3) [where ?b1.0 = 0 and ?b2.0 = 0])
    have "triple_of b0 0 0 = b0 * 16 * 4096" by (simp add: triple_of_bytes)
    then show "triple_of b0 0 0 div 4096 mod 4096 * 4096 = b0 * 65536 + 0 * 256 + 0" using that by simp
  qed (use that in simp_all)
qed

lemma encode_Nil_iff: "encode p = [] \<longleftrightarrow> p = []"
  by (cases p rule: encode.cases) (simp_all add: Let_def)

lemma decode_loop_encode: "\<forall>b \<in> set p. b < 256 \<Longrightarrow> decode_loop (encode p) = Inr p"
proof (induction p rule: encode.induct)
  case (4 b0 b1 b2 rest)
  then show ?case by (simp add: Let_def decode_letters quad_roundtrip encode_Nil_iff del: decode_quad.simps)
qed (simp_all add: Let_def decode_letters quad_roundtrip del: decode_quad.simps)

lemma length_encode: "length (encode p) = 4 * ((length p + 2) div 3)"
proof (induction p rule: encode.induct)
  case (4 b0 b1 b2 rest)
  then show ?case by (simp add: Let_def) presburger
qed (simp_all add: Let_def)

text \<open>
  C35: The payload codec of stored entries round-trips: the text of a payload is four letters for every
  started group of three bytes, and decoding it gives the payload back.
\<close>

theorem payload_codec_roundtrip:
  assumes "\<forall>b \<in> set p. b < 256"
  shows "decode_text (encode p) = Inr p \<and> length (encode p) = 4 * ((length p + 2) div 3)"
  using decode_loop_encode [OF assms] by (simp add: decode_text_def length_encode)

theorem payload_codec_roundtrip_witness: "decode_text (encode [102, 111]) = Inr [102, 111] \<and> encode [102, 111] = ''Zm8=''"
proof -
  have "encode [102, 111] = ''Zm8=''" by code_simp
  then show ?thesis using payload_codec_roundtrip [of "[102, 111]"] by simp
qed

end
