(* ===== verification/MR_Dispatch.thy ===== *)
theory MR_Dispatch
  imports MR_Group_Change MR_Wal
begin

text \<open>
  The message interface of the group object (\<^verbatim>\<open>facade/cluster_runtime.rs\<close>, \<^verbatim>\<open>facade/api_messages.rs\<close>,
  \<^verbatim>\<open>facade/membership_executor.rs\<close>): receiving a snapshot in chunks, durable records and their
  restoration, compaction behind a storage fence, the membership executor, and \<open>step\<close>, which hands
  every message and admin command to its handler. The protobuf encoder of a checkpoint payload
  is a third-party package and an argument.
\<close>

section \<open>Receiving a snapshot in chunks\<close>

definition snapshot_refusal :: "node \<Rightarrow> u64 \<Rightarrow> string \<Rightarrow> raft_cluster \<Rightarrow> install_snapshot_response" where
  "snapshot_refusal n next_offset reason c =
     \<lparr>is_term = max (current_term_of n) (rc_current_term c), is_accepted = False, is_next_offset = next_offset,
      is_committed_index = 0, is_reason = reason, is_throttled = False\<rparr>"

definition snapshot_acceptance :: "raft_term \<Rightarrow> u64 \<Rightarrow> log_index \<Rightarrow> string \<Rightarrow> raft_cluster \<Rightarrow> install_snapshot_response" where
  "snapshot_acceptance request_term next_offset committed reason c =
     \<lparr>is_term = max (rc_current_term c) request_term, is_accepted = True, is_next_offset = next_offset,
      is_committed_index = committed, is_reason = reason, is_throttled = False\<rparr>"

definition reject_snapshot_before_observe ::
  "node_id \<Rightarrow> install_snapshot_request \<Rightarrow> u64 \<Rightarrow> raft_cluster \<Rightarrow> install_snapshot_response option result" where
  "reject_snapshot_before_observe target q next_offset c = (case cluster_node c target of
     None \<Rightarrow> Inl (NodeNotFound target)
   | Some n \<Rightarrow>
      (if iq_term q < rc_current_term c then Inr (Some (snapshot_refusal n next_offset ''stale_term'' c))
       else case cluster_node c (iq_leader_id q) of
         Some leader \<Rightarrow>
           (if can_be_leader (nd_replica_role leader)
            then (if nd_healthy leader then Inr None else Inr (Some (snapshot_refusal n next_offset ''leader_unavailable'' c)))
            else Inr (Some (snapshot_refusal n next_offset ''leader_not_member'' c)))
       | None \<Rightarrow> Inr (Some (snapshot_refusal n next_offset ''leader_not_member'' c))))"

definition observe_snapshot_leader :: "install_snapshot_request \<Rightarrow> raft_cluster \<Rightarrow> raft_cluster" where
  "observe_snapshot_leader q c =
     (if iq_term q < rc_current_term c then c
      else
       (let c1 = (if rc_current_term c < iq_term q
                  then clear_reorder_queues (c\<lparr>rc_last_index_before_current_term := rc_last_log_index c, rc_current_term := iq_term q\<rparr>)
                  else c);
            c2 = (if rc_leader_id c1 = Some (iq_leader_id q) then c1
                  else (let c3 = (case active_leader_transfer c1 of
                                    None \<Rightarrow> c1
                                  | Some t \<Rightarrow>
                                     (if lt_transferee_id t = iq_leader_id q
                                      then snd (complete_leader_transfer ''transferee_became_leader'' c1)
                                      else snd (abort_leader_transfer ''snapshot_leader_changed'' c1)))
                        in invalidate_follower_lease (reset_leader_lease_epoch
                             (clear_reorder_queues (c3\<lparr>rc_leader_id := Some (iq_leader_id q)\<rparr>)))))
        in modify_nodes (\<lambda>n. n\<lparr>nd_hard_state := (nd_hard_state n)\<lparr>hs_current_term := max (current_term_of n) (iq_term q)\<rparr>,
                               nd_raft_role := role_under Leader (iq_leader_id q) n\<rparr>) c2))"

definition stale_snapshot_chunk_response ::
  "node_id \<Rightarrow> install_snapshot_request \<Rightarrow> u64 \<Rightarrow> raft_cluster \<Rightarrow> (install_snapshot_response option, raft_cluster) outcome" where
  "stale_snapshot_chunk_response target q next_offset c = (case cluster_node c target of
     None \<Rightarrow> (Inl (NodeNotFound target), c)
   | Some n \<Rightarrow>
      (let i = li_index (sm_last_log_id (sc_meta (iq_chunk q)));
           stale = (case nd_rejected_apply_index n of Some required \<Rightarrow> i < required | None \<Rightarrow> i \<le> nd_commit_index n)
       in if \<not> stale then (Inr None, c)
          else (Inr (Some (snapshot_acceptance (iq_term q) next_offset (nd_commit_index n) ''stale_snapshot_ignored'' c)),
                c\<lparr>rc_snapshot_installers := bt_remove target (rc_snapshot_installers c)\<rparr>)))"

definition complete_fence :: "log_index \<Rightarrow> apply_snapshot_fence" where
  "complete_fence i = \<lparr>af_applied_index = i, af_commit_index = i, af_installed_snapshot_index = i,
     af_first_retained_log_index = sat_add i 1\<rparr>"

text \<open>The installer a chunk goes to: the current one, a fresh one for a first chunk, none for a later chunk.\<close>

definition installer_for :: "node_id \<Rightarrow> snapshot_chunk \<Rightarrow> raft_cluster \<Rightarrow> snapshot_install_state option" where
  "installer_for target chunk c = (case bt_get (rc_snapshot_installers c) target of
     Some s \<Rightarrow> Some (if sc_offset chunk = 0 \<and> si_next_offset s \<noteq> 0 then install_state_new (sc_meta chunk) else s)
   | None \<Rightarrow> (if sc_offset chunk \<noteq> 0 then None else Some (install_state_new (sc_meta chunk))))"

definition finish_install :: "node_id \<Rightarrow> install_snapshot_request \<Rightarrow> u64 \<Rightarrow> snapshot_install_state \<Rightarrow> raft_cluster
    \<Rightarrow> (install_snapshot_response, raft_cluster) outcome" where
  "finish_install target q next_offset s c = (case install_finish (rc_group_id c) s of
     Inl e \<Rightarrow> (Inl e, c)
   | Inr snapshot \<Rightarrow>
      (let i = li_index (sm_last_log_id (rs_meta snapshot))
       in and_then (install_or_queue_completed_snapshot target snapshot (complete_fence i) c) (\<lambda>installed c1.
            (Inr (if installed then snapshot_acceptance (iq_term q) next_offset i ''snapshot_installed'' c1
                  else snapshot_acceptance (iq_term q) next_offset 0 ''snapshot_pending_apply'' c1), c1))))"

definition receive_chunk_with :: "node_id \<Rightarrow> install_snapshot_request \<Rightarrow> u64 \<Rightarrow> snapshot_install_state option \<Rightarrow> raft_cluster
    \<Rightarrow> (install_snapshot_response, raft_cluster) outcome" where
  "receive_chunk_with target q next_offset installer c = (case installer of
     None \<Rightarrow> (Inl (InvalidRequest (''snapshot chunk offset '' @ show_nat (sc_offset (iq_chunk q)) @ '' arrived before offset 0'')), c)
   | Some s \<Rightarrow> (case install_chunk (iq_chunk q) s of (r, s1) \<Rightarrow>
      (let c1 = c\<lparr>rc_snapshot_installers := bt_insert target s1 (rc_snapshot_installers c)\<rparr>
       in case r of
            Inl e \<Rightarrow> (Inl e, c1)
          | Inr _ \<Rightarrow>
             (if \<not> si_complete s1 then (Inr (snapshot_acceptance (iq_term q) next_offset 0 ''snapshot_chunk_accepted'' c1), c1)
              else finish_install target q next_offset s1
                     (c1\<lparr>rc_snapshot_installers := bt_remove target (rc_snapshot_installers c1)\<rparr>)))))"

definition receive_chunk :: "node_id \<Rightarrow> install_snapshot_request \<Rightarrow> u64 \<Rightarrow> raft_cluster \<Rightarrow> (install_snapshot_response, raft_cluster) outcome" where
  "receive_chunk target q next_offset c =
     (let chunk = iq_chunk q
      in case bt_get (rc_snapshot_installers c) target of
           Some s \<Rightarrow>
             (if sc_offset chunk = 0 \<and> si_meta s \<noteq> sc_meta chunk
              then (Inr (snapshot_acceptance (iq_term q) (si_next_offset s) 0 ''snapshot_install_ignored_while_receiving'' c), c)
              else receive_chunk_with target q next_offset (installer_for target chunk c) c)
         | None \<Rightarrow> receive_chunk_with target q next_offset (installer_for target chunk c) c)"

text \<open>What both entry points do before a chunk is stored.\<close>

definition before_chunk :: "node_id \<Rightarrow> install_snapshot_request \<Rightarrow> u64 \<Rightarrow> raft_cluster \<Rightarrow> (install_snapshot_response option, raft_cluster) outcome" where
  "before_chunk target q next_offset c = (case reject_snapshot_before_observe target q next_offset c of
     Inl e \<Rightarrow> (Inl e, c)
   | Inr (Some r) \<Rightarrow> (Inr (Some r), c)
   | Inr None \<Rightarrow> stale_snapshot_chunk_response target q next_offset (observe_snapshot_leader q c))"

definition install_snapshot_chunk_to ::
  "node_id \<Rightarrow> install_snapshot_request \<Rightarrow> raft_cluster \<Rightarrow> (install_snapshot_response, raft_cluster) outcome" where
  "install_snapshot_chunk_to target q c =
     (if iq_group_id q \<noteq> rc_group_id c then (Inl (InvalidRequest ''snapshot install group id mismatch''), c)
      else
       (let next_offset = sat_add (sc_offset (iq_chunk q)) (length (sc_data (iq_chunk q)))
        in and_then (before_chunk target q next_offset c) (\<lambda>answer c1. case answer of
             Some r \<Rightarrow> (Inr r, c1)
           | None \<Rightarrow> (case cluster_node c1 target of
               None \<Rightarrow> (Inl (NodeNotFound target), c1)
             | Some n \<Rightarrow>
                (if li_index (sm_last_log_id (sc_meta (iq_chunk q))) \<le> snapshot_index n
                 then (Inr (snapshot_acceptance (iq_term q) next_offset (snapshot_index n) ''stale_snapshot_ignored'' c1),
                       c1\<lparr>rc_snapshot_installers := bt_remove target (rc_snapshot_installers c1)\<rparr>)
                 else receive_chunk target q next_offset c1)))))"

definition install_lifecycle_snapshot :: "node_id \<Rightarrow> raft_term \<Rightarrow> u64 \<Rightarrow> raft_snapshot \<Rightarrow> raft_cluster
    \<Rightarrow> (install_snapshot_response, raft_cluster) outcome" where
  "install_lifecycle_snapshot target request_term next_offset snapshot c =
     (let i = li_index (sm_last_log_id (rs_meta snapshot))
      in and_then (install_snapshot_to target snapshot (complete_fence i) c) (\<lambda>_ c1.
           (Inr (snapshot_acceptance request_term next_offset i ''snapshot_installed'' c1), c1)))"

definition install_snapshot_lifecycle_request_to :: "node_id \<Rightarrow> install_snapshot_request \<Rightarrow> snapshot_lifecycle \<Rightarrow> raft_cluster
    \<Rightarrow> install_snapshot_response result \<times> snapshot_lifecycle \<times> raft_cluster" where
  "install_snapshot_lifecycle_request_to target q l c =
     (if iq_group_id q \<noteq> rc_group_id c then (Inl (InvalidRequest ''snapshot lifecycle group id mismatch''), l, c)
      else
       (let next_offset = sat_add (sc_offset (iq_chunk q)) (length (sc_data (iq_chunk q)))
        in case before_chunk target q next_offset c of
             (Inl e, c1) \<Rightarrow> (Inl e, l, c1)
           | (Inr (Some r), c1) \<Rightarrow> (Inr r, l, c1)
           | (Inr None, c1) \<Rightarrow> (case cluster_node c1 target of
               None \<Rightarrow> (Inl (NodeNotFound target), l, c1)
             | Some n \<Rightarrow> (case install_request q l of
                 (Inl e, l1) \<Rightarrow> (Inl e, l1, c1)
               | (Inr None, l1) \<Rightarrow> (Inr (snapshot_acceptance (iq_term q) next_offset 0 ''snapshot_chunk_accepted'' c1), l1, c1)
               | (Inr (Some snapshot), l1) \<Rightarrow>
                  (if li_index (sm_last_log_id (rs_meta snapshot)) \<le> snapshot_index n
                   then (Inr (snapshot_acceptance (iq_term q) next_offset (snapshot_index n) ''stale_snapshot_ignored'' c1), l1, c1)
                   else (case install_lifecycle_snapshot target (iq_term q) next_offset snapshot c1 of
                           (r, c2) \<Rightarrow> (r, l1, c2)))))))"

section \<open>Checkpoints and durable records\<close>

definition checkpoint_snapshot :: "(log_entry list \<Rightarrow> payload) \<Rightarrow> node_id \<Rightarrow> string \<Rightarrow> raft_cluster \<Rightarrow> raft_snapshot result" where
  "checkpoint_snapshot encode_log i snapshot_id c = (case cluster_node c i of
     None \<Rightarrow> Inl (NodeNotFound i)
   | Some n \<Rightarrow>
      (let payload = encode_log (nd_log n)
       in Inr \<lparr>rs_group_id = rc_group_id c,
            rs_meta = \<lparr>sm_snapshot_id = snapshot_id,
              sm_last_log_id = \<lparr>li_term = current_term_of n, li_index = max (nd_commit_index n) (match_index n)\<rparr>,
              sm_membership = bt_keys (rc_nodes c), sm_members = snapshot_members c, sm_payload_bytes = length payload\<rparr>,
            rs_payload = payload\<rparr>))"

definition wal_record_shell :: "node_id \<Rightarrow> node \<Rightarrow> raft_cluster \<Rightarrow> wal_record" where
  "wal_record_shell i n c =
     \<lparr>wr_group_id = rc_group_id c, wr_node_id = i, wr_hard_state = nd_hard_state n, wr_membership = cluster_membership c,
      wr_entries = [], wr_entries_are_delta = False, wr_installed_snapshot = nd_installed_snapshot n,
      wr_apply_snapshot_fence = \<lparr>af_applied_index = nd_applied_index n, af_commit_index = nd_commit_index n,
        af_installed_snapshot_index = snapshot_index n,
        af_first_retained_log_index = (if 0 < snapshot_index n then sat_add (snapshot_index n) 1
          else case nd_log n of [] \<Rightarrow> 0 | e # _ \<Rightarrow> idx e)\<rparr>,
      wr_checksum = []\<rparr>"

definition wal_record_for :: "node_id \<Rightarrow> raft_cluster \<Rightarrow> wal_record result" where
  "wal_record_for i c = (case cluster_node c i of
     None \<Rightarrow> Inl (NodeNotFound i)
   | Some n \<Rightarrow>
      (let r = (wal_record_shell i n c)\<lparr>wr_entries := nd_log n\<rparr>
       in Inr (r\<lparr>wr_checksum := matrixraft_wal_checksum r\<rparr>)))"

definition covered_prefix :: "coverage \<Rightarrow> node \<Rightarrow> nat option" where
  "covered_prefix covered n = (case covered of
     None \<Rightarrow> None
   | Some (first_index, last_index, last_term) \<Rightarrow> (case nd_log n of
       [] \<Rightarrow> None
     | e # _ \<Rightarrow>
        (if first_index < idx e then None
         else case log_position n last_index of
           None \<Rightarrow> None
         | Some p \<Rightarrow> (if trm (nd_log n ! p) \<noteq> last_term then None else Some (p + 1)))))"

definition wal_record_for_coverage :: "node_id \<Rightarrow> coverage \<Rightarrow> raft_cluster \<Rightarrow> wal_record result" where
  "wal_record_for_coverage i covered c = (case cluster_node c i of
     None \<Rightarrow> Inl (NodeNotFound i)
   | Some n \<Rightarrow>
      (let r = (case covered_prefix covered n of
                  Some from \<Rightarrow> (wal_record_shell i n c)\<lparr>wr_entries := drop from (nd_log n), wr_entries_are_delta := True\<rparr>
                | None \<Rightarrow> (wal_record_shell i n c)\<lparr>wr_entries := nd_log n\<rparr>)
       in Inr (r\<lparr>wr_checksum := matrixraft_wal_checksum r\<rparr>)))"

text \<open>The replica as a record describes it.\<close>

definition restore_node :: "wal_record \<Rightarrow> node \<Rightarrow> node" where
  "restore_node r n =
     (let f = wr_apply_snapshot_fence r;
          n1 = (set_log (wr_entries r) (n\<lparr>nd_hard_state := wr_hard_state r\<rparr>))\<lparr>nd_installed_snapshot := wr_installed_snapshot r,
                 nd_commit_index := af_commit_index f, nd_applied_index := af_applied_index f,
                 nd_safety_applied_index := af_applied_index f\<rparr>
      in if nd_replica_role n1 = WitnessRole
         then acknowledge_witness_index (max (max (max (committed_index_of r) (nd_commit_index n1)) (snapshot_index n1))
                (last_retained_index n1)) n1
         else n1)"

definition largest_index :: "wal_record \<Rightarrow> log_index option" where
  "largest_index r = find (\<lambda>i. i = u64_max)
     ((if wr_entries r = [] then [] else [idx (last (wr_entries r))])
      @ (case wr_installed_snapshot r of Some s \<Rightarrow> [li_index (sm_last_log_id s)] | None \<Rightarrow> []))"

definition restore_wal_record :: "wal_record \<Rightarrow> raft_cluster \<Rightarrow> (unit, raft_cluster) outcome" where
  "restore_wal_record r c =
     (if wr_group_id r \<noteq> rc_group_id c then (Inl (InvalidRequest ''WAL record group id mismatch''), c)
      else case matrixraft_validate_log_continues_snapshot r of
        Inl e \<Rightarrow> (Inl e, c)
      | Inr _ \<Rightarrow> (case largest_index r of
          Some i \<Rightarrow> (Inl (InvalidRequest (''WAL record carries index '' @ show_nat i
                      @ '', the largest representable index, so no entry could ever follow it'')), c)
        | None \<Rightarrow>
           (let c1 = restore_membership_from_record (wr_node_id r) (wr_membership r) c
            in case cluster_node c1 (wr_node_id r) of
                 None \<Rightarrow> (Inl (NodeNotFound (wr_node_id r)), c1)
               | Some n \<Rightarrow>
                  (let n1 = restore_node r n; c2 = modify_node (wr_node_id r) (\<lambda>_. n1) c1;
                       last_index = max (rc_last_log_index c2) (match_index n1);
                       c3 = c2\<lparr>rc_last_log_index := last_index, rc_current_term := max (rc_current_term c2) (current_term_of n1),
                              rc_last_index_before_current_term := last_index\<rparr>
                   in (Inr (), refresh_replication_pipelines (refresh_cluster_indexes c3))))))"

section \<open>Compaction behind a storage fence\<close>

fun show_error :: "raft_error \<Rightarrow> string" where
  "show_error (Config m) = ''configuration error: '' @ m"
| "show_error (NodeNotFound i) = ''node '' @ show_nat i @ '' not found''"
| "show_error NoLeader = ''no leader is available''"
| "show_error (NotLeader i) = ''node '' @ show_nat i @ '' is not the leader''"
| "show_error (InvalidRequest m) = ''invalid request: '' @ m"
| "show_error (Transport m) = ''transport error: '' @ m"
| "show_error (Storage m) = ''storage error: '' @ m"

record wal_compaction_report =
  wc_requested_log_index :: log_index
  wc_released_segments :: u64
  wc_retained_range :: log_retained_range
  wc_fence_valid :: bool
  wc_blocker :: "string option"

definition cluster_retained_range :: "raft_cluster \<Rightarrow> log_retained_range" where
  "cluster_retained_range c =
     (let logs = filter (\<lambda>es. es \<noteq> []) (map nd_log (bt_values (rc_nodes c)))
      in \<lparr>lr_first_log_index = min_or_zero (map (\<lambda>es. idx (hd es)) logs),
          lr_last_log_index = (if logs = [] then rc_last_log_index c else max_or_zero (map (\<lambda>es. idx (last es)) logs)),
          lr_first_segment_id = 0, lr_last_segment_id = 0,
          lr_record_count = sum_list (map (\<lambda>n. length (nd_log n)) (bt_values (rc_nodes c)))\<rparr>)"

definition compact_logs_with_storage_fence ::
  "log_index \<Rightarrow> storage_apply_fence \<Rightarrow> raft_cluster \<Rightarrow> (wal_compaction_report, raft_cluster) outcome" where
  "compact_logs_with_storage_fence i fence c =
     (let report = (\<lambda>released valid blocker c. \<lparr>wc_requested_log_index = i, wc_released_segments = released,
             wc_retained_range = cluster_retained_range c, wc_fence_valid = valid, wc_blocker = blocker\<rparr>)
      in case matrixraft_validate_storage_apply_fence fence of
           Inl e \<Rightarrow> (Inr (report 0 False (Some (show_error e)) c), c)
         | Inr _ \<Rightarrow>
            (if sf_durable_applied_index fence < i \<or> sf_storage_flushed_index fence < i
             then (Inr (report 0 False (Some ''compaction fence is behind requested log index'') c), c)
             else (case compact_logs_through i c of (removed, c1) \<Rightarrow> (Inr (report removed True None c1), c1))))"

section \<open>Membership executor\<close>

record membership_execution_report =
  mx_operation :: membership_operation
  mx_before :: membership
  mx_after :: membership
  mx_leader_before :: "node_id option"
  mx_leader_after :: "node_id option"
  mx_success :: bool
  mx_reason :: string
  mx_validation_passed :: bool
  mx_blockers :: "string list"
  mx_rolled_back :: bool
  mx_joint_consensus :: "joint_membership option"
  mx_joint_consensus_commit :: "joint_commit_evidence option"

definition is_member :: "membership \<Rightarrow> node_id \<Rightarrow> bool" where
  "is_member m i \<longleftrightarrow> i \<in> set (mb_voters m) \<or> i \<in> set (mb_learners m) \<or> i \<in> set (mb_witnesses m)"

definition validate_peer_absent :: "membership \<Rightarrow> node_id \<Rightarrow> string list" where
  "validate_peer_absent m i = (if is_member m i then [''node_'' @ show_nat i @ ''_already_member''] else [])"

fun executor_validate :: "raft_cluster \<Rightarrow> membership_operation \<Rightarrow> string list" where
  "executor_validate c (AddNode p) =
     (let m = cluster_membership c
      in if pr_role p = VoterRole \<and> pr_node_id p \<in> set (mb_learners m) then [] else validate_peer_absent m (pr_node_id p))"
| "executor_validate c (AddVoter p) =
     (let m = cluster_membership c
      in if pr_node_id p \<in> set (mb_learners m) then [] else validate_peer_absent m (pr_node_id p))"
| "executor_validate c (AddLearner p) = validate_peer_absent (cluster_membership c) (pr_node_id p)"
| "executor_validate c (AddWitness p) = validate_peer_absent (cluster_membership c) (pr_node_id p)"
| "executor_validate c (Promote i) =
     (if i \<in> set (mb_learners (cluster_membership c)) then [] else [''node_'' @ show_nat i @ ''_is_not_learner''])"
| "executor_validate c (Remove i) =
     (let m = cluster_membership c
      in (if is_member m i then [] else [''node_'' @ show_nat i @ ''_not_member''])
         @ (if i \<in> set (mb_voters m) \<and> length (mb_voters m) \<le> 1 then [''cannot_remove_last_voter''] else [])
         @ (if rc_leader_id c = Some i \<and> closest_follower c = None
            then [''cannot_remove_current_leader_without_transfer''] else []))"
| "executor_validate c (TransferLeader i) = (case cluster_node c i of
     None \<Rightarrow> [''node_'' @ show_nat i @ ''_not_found'']
   | Some n \<Rightarrow>
      (if \<not> can_be_leader (nd_replica_role n) then [''node_'' @ show_nat i @ ''_cannot_be_leader'']
       else if match_index n < rc_commit_index c then [''node_'' @ show_nat i @ ''_is_lagging''] else []))"

definition cluster_catchup_report :: "node_id \<Rightarrow> raft_cluster \<Rightarrow> learner_catch_up_report result" where
  "cluster_catchup_report i c = (case cluster_node c i of
     None \<Rightarrow> Inl (NodeNotFound i)
   | Some n \<Rightarrow> Inr (catchup_report (cluster_membership c) i (match_index n) (rc_commit_index c)))"

definition cannot_promote :: "node_id \<Rightarrow> string \<Rightarrow> raft_error" where
  "cannot_promote i reason = InvalidRequest (''node '' @ show_nat i @ '' cannot be promoted: '' @ reason)"

definition execute_promote :: "node_id \<Rightarrow> raft_cluster \<Rightarrow> (unit, raft_cluster) outcome" where
  "execute_promote i c = and_then (learner_catch_up_loop i c) (\<lambda>r c1.
     if \<not> cu_caught_up r then (Inl (cannot_promote i (cu_reason r)), c1)
     else case cluster_catchup_report i c1 of
       Inl e \<Rightarrow> (Inl e, c1)
     | Inr t \<Rightarrow> (if lc_promotable t then promote_peer i c1 else (Inl (cannot_promote i (lc_reason t)), c1)))"

fun execute_operation :: "membership_operation \<Rightarrow> raft_cluster \<Rightarrow> (unit, raft_cluster) outcome" where
  "execute_operation (AddNode p) c = and_then (apply_committed_membership_operation (AddNode p) c) (\<lambda>_ c1. (Inr (), c1))"
| "execute_operation (AddVoter p) c =
     and_then (apply_committed_membership_operation (AddVoter (p\<lparr>pr_role := VoterRole\<rparr>)) c) (\<lambda>_ c1. (Inr (), c1))"
| "execute_operation (AddLearner p) c = cluster_add_learner p c"
| "execute_operation (AddWitness p) c = cluster_add_witness p c"
| "execute_operation (Promote i) c = execute_promote i c"
| "execute_operation (Remove i) c = cluster_remove_peer i c"
| "execute_operation (TransferLeader i) c = transfer_leader i c"

definition membership_joint_if_voters_changed :: "membership \<Rightarrow> membership \<Rightarrow> joint_membership option" where
  "membership_joint_if_voters_changed m m' =
     (if mb_voters m \<noteq> mb_voters m' then Some \<lparr>jm_old_voters = mb_voters m, jm_new_voters = mb_voters m'\<rparr> else None)"

definition joint_acknowledgements :: "membership \<Rightarrow> membership \<Rightarrow> node_id list" where
  "joint_acknowledgements m m' = fold set_insert (mb_voters m @ mb_voters m') []"

text \<open>\<^verbatim>\<open>blockers.join("; ")\<close>\<close>

fun join_blockers :: "string list \<Rightarrow> string" where
  "join_blockers [] = []"
| "join_blockers [b] = b"
| "join_blockers (b # bs) = b @ ''; '' @ join_blockers bs"

text \<open>The executor keeps the reports of its calls, failed ones included.\<close>

definition execute_inner :: "membership_operation \<Rightarrow> bool \<Rightarrow> membership_execution_report list \<Rightarrow> raft_cluster
    \<Rightarrow> membership_execution_report result \<times> membership_execution_report list \<times> raft_cluster" where
  "execute_inner operation rollback_on_failure reports c =
     (let m = cluster_membership c; blockers = executor_validate c operation; passed = (blockers = []);
          (r, c1) = (if passed then execute_operation operation c else (Inl (InvalidRequest (join_blockers blockers)), c));
          success = is_ok r; rolled_back = (\<not> success \<and> passed \<and> rollback_on_failure);
          c2 = (if rolled_back then c else c1);
          m' = cluster_membership c2; joint = membership_joint_if_voters_changed m m';
          report = \<lparr>mx_operation = operation, mx_before = m, mx_after = m', mx_leader_before = rc_leader_id c,
            mx_leader_after = rc_leader_id c2, mx_success = success,
            mx_reason = (case r of Inr _ \<Rightarrow> ''membership_operation_applied''
                         | Inl e \<Rightarrow> show_error e @ (if rolled_back then ''; rolled_back'' else [])),
            mx_validation_passed = passed, mx_blockers = blockers, mx_rolled_back = rolled_back,
            mx_joint_consensus = joint,
            mx_joint_consensus_commit = (if success then map_option (\<lambda>j. commit_evidence j (joint_acknowledgements m m')) joint else None)\<rparr>
      in (case r of Inl e \<Rightarrow> Inl e | Inr _ \<Rightarrow> Inr report, reports @ [report], c2))"

definition execute :: "membership_operation \<Rightarrow> membership_execution_report list \<Rightarrow> raft_cluster
    \<Rightarrow> membership_execution_report result \<times> membership_execution_report list \<times> raft_cluster" where
  "execute operation reports c = execute_inner operation False reports c"

fun execute_all :: "membership_operation list \<Rightarrow> membership_execution_report list \<Rightarrow> raft_cluster
    \<Rightarrow> membership_execution_report list result \<times> membership_execution_report list \<times> raft_cluster" where
  "execute_all [] reports c = (Inr [], reports, c)"
| "execute_all (operation # rest) reports c = (case execute operation reports c of
     (Inl e, reports1, c1) \<Rightarrow> (Inl e, reports1, c1)
   | (Inr r, reports1, c1) \<Rightarrow> (case execute_all rest reports1 c1 of
       (Inl e, reports2, c2) \<Rightarrow> (Inl e, reports2, c2)
     | (Inr rs, reports2, c2) \<Rightarrow> (Inr (r # rs), reports2, c2)))"

definition mark_rolled_back :: "membership_execution_report \<Rightarrow> membership_execution_report" where
  "mark_rolled_back r =
     (if mx_success r then r
      else r\<lparr>mx_rolled_back := True,
             mx_reason := (if contains ''rolled_back'' (mx_reason r) then mx_reason r else mx_reason r @ ''; rolled_back'')\<rparr>)"

fun rollback_loop :: "raft_cluster \<Rightarrow> membership_operation list \<Rightarrow> membership_execution_report list \<Rightarrow> raft_cluster
    \<Rightarrow> membership_execution_report list result \<times> membership_execution_report list \<times> raft_cluster" where
  "rollback_loop workflow_before [] reports c = (Inr [], reports, c)"
| "rollback_loop workflow_before (operation # rest) reports c = (case execute_inner operation True reports c of
     (Inl e, reports1, c1) \<Rightarrow>
       (Inl e, if reports1 = [] then [] else butlast reports1 @ [mark_rolled_back (last reports1)], workflow_before)
   | (Inr r, reports1, c1) \<Rightarrow> (case rollback_loop workflow_before rest reports1 c1 of
       (Inl e, reports2, c2) \<Rightarrow> (Inl e, reports2, c2)
     | (Inr rs, reports2, c2) \<Rightarrow> (Inr (r # rs), reports2, c2)))"

definition execute_all_with_rollback :: "membership_operation list \<Rightarrow> membership_execution_report list \<Rightarrow> raft_cluster
    \<Rightarrow> membership_execution_report list result \<times> membership_execution_report list \<times> raft_cluster" where
  "execute_all_with_rollback operations reports c = rollback_loop c operations reports c"

section \<open>Messages\<close>

datatype admin_command =
    CmdCampaign node_id bool
  | CmdTransferLeader node_id
  | CmdCompleteLeaderTransfer
  | CmdAbortLeaderTransfer string
  | CmdFireFatalEvent node_id string
  | CmdStepDown "node_id option"
  | CmdResign string
  | CmdTriggerSnapshot
  | CmdSnapshotReady string bool
  | CmdSnapshotApplied string
  | CmdBeginSnapshotSend node_id string log_index u64
  | CmdRecordSnapshotChunkSent node_id u64
  | CmdAcknowledgeSnapshotChunk node_id
  | CmdRetrySnapshotChunk node_id
  | CmdCancelSnapshotSend node_id
  | CmdBeginSnapshotInstall node_id string log_index u64
  | CmdReceiveSnapshotChunk node_id u64 bool
  | CmdRollbackSnapshotInstall node_id
  | CmdApplyResult node_id log_index bool
  | CmdApplyTaskInflight node_id log_index
  | CmdStabledResult "log_index option" "log_index option" log_index
  | CmdReplicated node_id bool
  | CmdCompactLogsThrough log_index
  | CmdCompactLogsWithStorageFence log_index storage_apply_fence
  | CmdCheckpointSnapshot node_id string
  | CmdWitnessQuorum "node_id list"
  | CmdPartitionPeer node_id
  | CmdHealPeer node_id
  | CmdReceiveOutOfOrderAppend node_id log_entry
  | CmdExpirePeerReorderQueue node_id
  | CmdSetNodeHealthy node_id bool
  | CmdSetLeaderLeaseValid bool
  | CmdReceiveLeaderLeaseConfirmation node_id u64 "u64 option"
  | CmdTickLeaderLease u64
  | CmdReceiveFollowerLease u64
  | CmdTickFollowerLease u64
  | CmdProhibitsElection bool
  | CmdIgnoreWitness bool
  | CmdReleaseMemory

datatype message =
    MsgAdmin admin_command
  | MsgPropose payload propose_options
  | MsgMembership membership_operation
  | MsgAutoPromoteLearner node_id
  | MsgCatchUpPeer node_id
  | MsgPreVote node_id
  | MsgAppendEntries node_id append_entries_request
  | MsgAppendEntriesResponse node_id node_id append_entries_response
  | MsgVote node_id vote_request
  | MsgVoteResponse node_id "node_id option" vote_response bool
  | MsgInstallSnapshot node_id install_snapshot_request
  | MsgInstallSnapshotResponse node_id node_id install_snapshot_response
  | MsgNetworkError node_id
  | MsgSnapshotFinish node_id bool log_index
  | MsgSnapshotProgress node_id bool u64 u64
  | MsgReadIndex read_index_request
  | MsgTimeoutNow node_id node_id

datatype step_result =
    ResHandled
  | ResProposed log_id
  | ResMembership membership_execution_report
  | ResAutoPromoteLearner learner_auto_promote_report
  | ResCatchUpPeer learner_catch_up_loop_report
  | ResPreVote vote_response
  | ResSnapshotTriggered snapshot_metadata
  | ResReleasedMemory bool
  | ResCompactedLogs u64
  | ResFencedCompaction wal_compaction_report
  | ResCheckpointedSnapshot raft_snapshot
  | ResLeaderTransferCompleted bool
  | ResLeaderTransferAborted bool
  | ResFatalEvent "node_id option"
  | ResLeaderResigned bool
  | ResLeaderLeaseConfirmed bool
  | ResLeaderLeaseExpired bool
  | ResFollowerLeaseReceived bool
  | ResFollowerLeaseExpired bool
  | ResStepDown "node_id option"
  | ResWitnessQuorum witness_quorum_summary
  | ResAppendEntries append_entries_response
  | ResVote vote_response
  | ResInstallSnapshot install_snapshot_response
  | ResReadIndex read_index_response
  | ResTimeoutNow timeout_now_response

definition set_prohibits_election :: "bool \<Rightarrow> raft_cluster \<Rightarrow> raft_cluster" where
  "set_prohibits_election v c = c\<lparr>rc_prohibits_election := v\<rparr>"

definition receive_leader_lease_confirmation_with_duration :: "node_id \<Rightarrow> u64 \<Rightarrow> u64 \<Rightarrow> raft_cluster \<Rightarrow> bool \<times> raft_cluster" where
  "receive_leader_lease_confirmation_with_duration i confirmation_epoch duration_ms c =
     receive_leader_lease_confirmation_inner i confirmation_epoch duration_ms True c"

text \<open>\<^verbatim>\<open>.map(f)\<close> of a call that may fail, of one that cannot, and of one that only reads.\<close>

definition answers :: "('a \<Rightarrow> step_result) \<Rightarrow> ('a, raft_cluster) outcome \<Rightarrow> (step_result, raft_cluster) outcome" where
  "answers f r = and_then r (\<lambda>v c. (Inr (f v), c))"

definition handled :: "('a, raft_cluster) outcome \<Rightarrow> (step_result, raft_cluster) outcome" where
  "handled r = answers (\<lambda>_. ResHandled) r"

definition returns :: "('a \<Rightarrow> step_result) \<Rightarrow> 'a \<times> raft_cluster \<Rightarrow> (step_result, raft_cluster) outcome" where
  "returns f r = (Inr (f (fst r)), snd r)"

definition reads :: "('a \<Rightarrow> step_result) \<Rightarrow> 'a result \<Rightarrow> raft_cluster \<Rightarrow> (step_result, raft_cluster) outcome" where
  "reads f r c = answers f (r, c)"

fun step_admin :: "(log_entry list \<Rightarrow> payload) \<Rightarrow> admin_command \<Rightarrow> raft_cluster \<Rightarrow> (step_result, raft_cluster) outcome" where
  "step_admin enc (CmdCampaign i forced) c = handled (campaign i forced c)"
| "step_admin enc (CmdTransferLeader i) c = handled (transfer_leader i c)"
| "step_admin enc CmdCompleteLeaderTransfer c = answers ResLeaderTransferCompleted (try_complete_leader_transfer c)"
| "step_admin enc (CmdAbortLeaderTransfer reason) c = returns ResLeaderTransferAborted (abort_leader_transfer reason c)"
| "step_admin enc (CmdFireFatalEvent i _) c = answers ResFatalEvent (apply_fatal_event i c)"
| "step_admin enc (CmdStepDown transferee) c = answers ResStepDown (step_down transferee c)"
| "step_admin enc (CmdResign _) c = answers ResLeaderResigned (resign_leader c)"
| "step_admin enc CmdTriggerSnapshot c = answers ResSnapshotTriggered (trigger_snapshot c)"
| "step_admin enc (CmdSnapshotReady snapshot_id success) c = handled (handle_snapshot_ready snapshot_id success c)"
| "step_admin enc (CmdSnapshotApplied snapshot_id) c = handled (complete_snapshot_trigger snapshot_id c)"
| "step_admin enc (CmdBeginSnapshotSend i snapshot_id k chunks) c = handled (begin_snapshot_send_to i snapshot_id k chunks c)"
| "step_admin enc (CmdRecordSnapshotChunkSent i bytes) c = handled (record_snapshot_chunk_sent_to i bytes c)"
| "step_admin enc (CmdAcknowledgeSnapshotChunk i) c = handled (acknowledge_snapshot_chunk_to i c)"
| "step_admin enc (CmdRetrySnapshotChunk i) c = handled (retry_snapshot_chunk_to i c)"
| "step_admin enc (CmdCancelSnapshotSend i) c = handled (cancel_snapshot_send_to i c)"
| "step_admin enc (CmdBeginSnapshotInstall i snapshot_id k chunks) c = handled (begin_snapshot_install_from i snapshot_id k chunks c)"
| "step_admin enc (CmdReceiveSnapshotChunk i bytes last_chunk) c = handled (receive_snapshot_chunk_from i bytes last_chunk c)"
| "step_admin enc (CmdRollbackSnapshotInstall i) c = handled (rollback_snapshot_install_from i c)"
| "step_admin enc (CmdApplyResult i applied rejected) c = handled (submit_apply_result i applied rejected c)"
| "step_admin enc (CmdApplyTaskInflight i applied) c = handled (mark_apply_task_inflight i applied c)"
| "step_admin enc (CmdStabledResult first_index last_index stabled) c = handled (submit_stabled_result first_index last_index stabled c)"
| "step_admin enc (CmdReplicated i success) c = handled (record_replication_task_result_for i success c)"
| "step_admin enc (CmdCompactLogsThrough i) c = returns ResCompactedLogs (compact_logs_through i c)"
| "step_admin enc (CmdCompactLogsWithStorageFence i fence) c = answers ResFencedCompaction (compact_logs_with_storage_fence i fence c)"
| "step_admin enc (CmdCheckpointSnapshot i snapshot_id) c = reads ResCheckpointedSnapshot (checkpoint_snapshot enc i snapshot_id c) c"
| "step_admin enc (CmdWitnessQuorum acks) c = returns ResWitnessQuorum (witness_quorum_report acks c)"
| "step_admin enc (CmdPartitionPeer i) c = handled (partition_peer i c)"
| "step_admin enc (CmdHealPeer i) c = answers ResCatchUpPeer (heal_peer i c)"
| "step_admin enc (CmdReceiveOutOfOrderAppend i e) c = handled (receive_out_of_order_append_for i e c)"
| "step_admin enc (CmdExpirePeerReorderQueue i) c = answers ResCompactedLogs (expire_peer_reorder_queue i c)"
| "step_admin enc (CmdSetNodeHealthy i healthy) c = handled (set_node_healthy i healthy c)"
| "step_admin enc (CmdSetLeaderLeaseValid valid) c = (Inr ResHandled, set_leader_lease_valid valid c)"
| "step_admin enc (CmdReceiveLeaderLeaseConfirmation i epoch duration) c =
     returns ResLeaderLeaseConfirmed (case duration of
         Some d \<Rightarrow> receive_leader_lease_confirmation_with_duration i epoch d c
       | None \<Rightarrow> receive_leader_lease_confirmation i epoch c)"
| "step_admin enc (CmdTickLeaderLease elapsed_ms) c = returns ResLeaderLeaseExpired (tick_leader_lease elapsed_ms c)"
| "step_admin enc (CmdReceiveFollowerLease epoch) c = returns ResFollowerLeaseReceived (receive_follower_lease_item epoch c)"
| "step_admin enc (CmdTickFollowerLease elapsed_ms) c = returns ResFollowerLeaseExpired (tick_follower_lease elapsed_ms c)"
| "step_admin enc (CmdProhibitsElection prohibits) c = (Inr ResHandled, set_prohibits_election prohibits c)"
| "step_admin enc (CmdIgnoreWitness ignore) c = (Inr ResHandled, set_ignore_witness ignore c)"
| "step_admin enc CmdReleaseMemory c = answers ResReleasedMemory (cluster_release_memory c)"

fun step :: "(log_entry list \<Rightarrow> payload) \<Rightarrow> message \<Rightarrow> raft_cluster \<Rightarrow> (step_result, raft_cluster) outcome" where
  "step enc (MsgAdmin command) c = step_admin enc command c"
| "step enc (MsgPropose payload opts) c = answers ResProposed (propose_with_options payload opts c)"
| "step enc (MsgMembership operation) c = (case execute operation [] c of (r, _, c1) \<Rightarrow> answers ResMembership (r, c1))"
| "step enc (MsgAutoPromoteLearner i) c = answers ResAutoPromoteLearner (auto_promote_learner i c)"
| "step enc (MsgCatchUpPeer i) c = answers ResCatchUpPeer (catch_up_peer i c)"
| "step enc (MsgPreVote i) c = reads ResPreVote (pre_vote i c) c"
| "step enc (MsgAppendEntries target q) c = answers ResAppendEntries (append_entries_to target q c)"
| "step enc (MsgAppendEntriesResponse local_id i r) c = handled (handle_append_entries_response local_id i r c)"
| "step enc (MsgVote target q) c = answers ResVote (vote_to target q c)"
| "step enc (MsgVoteResponse local_id from r is_pre_vote) c = (case from of
     Some i \<Rightarrow> handled (handle_vote_response_from local_id i r is_pre_vote c)
   | None \<Rightarrow> handled (handle_vote_response local_id r is_pre_vote c))"
| "step enc (MsgInstallSnapshot target q) c = answers ResInstallSnapshot (install_snapshot_chunk_to target q c)"
| "step enc (MsgInstallSnapshotResponse local_id i r) c = handled (handle_install_snapshot_response local_id i r c)"
| "step enc (MsgNetworkError i) c = handled (record_network_error_for i c)"
| "step enc (MsgSnapshotFinish i accepted committed) c = handled (handle_snapshot_finish_from i accepted committed c)"
| "step enc (MsgSnapshotProgress i receiving elapsed_ms timeout_ms) c =
     handled (update_snapshot_progress_from i receiving elapsed_ms timeout_ms c)"
| "step enc (MsgReadIndex q) c = reads ResReadIndex (read_index q c) c"
| "step enc (MsgTimeoutNow from target) c = answers ResTimeoutNow (timeout_now from target c)"

fun step_batch :: "(log_entry list \<Rightarrow> payload) \<Rightarrow> message list \<Rightarrow> raft_cluster \<Rightarrow> (step_result list, raft_cluster) outcome" where
  "step_batch enc [] c = (Inr [], c)"
| "step_batch enc (m # ms) c = and_then (step enc m c) (\<lambda>r c1. and_then (step_batch enc ms c1) (\<lambda>rs c2. (Inr (r # rs), c2)))"

end
