(* ===== verification/MR_Durable_Safety.thy ===== *)
theory MR_Durable_Safety
  imports MR_Dispatch MR_Wal_Safety MR_Replay_Safety
begin

text \<open>
  The durable state of a replica: a record written for a replica and restored into a group gives
  back its vote, log, snapshot and cursors, and the record the group cuts to the entries not yet
  covered is the one the storage would cut from the full record.
\<close>

section \<open>The replica a record restores\<close>

lemma restore_node_simps [simp]:
  "nd_log (restore_node r n) = wr_entries r" "nd_hard_state (restore_node r n) = wr_hard_state r"
  "nd_installed_snapshot (restore_node r n) = wr_installed_snapshot r"
  "nd_commit_index (restore_node r n) = af_commit_index (wr_apply_snapshot_fence r)"
  "nd_applied_index (restore_node r n) = af_applied_index (wr_apply_snapshot_fence r)"
  "nd_safety_applied_index (restore_node r n) = af_applied_index (wr_apply_snapshot_fence r)"
  "nd_replica_role (restore_node r n) = nd_replica_role n"
  "nd_retained_log_bytes (restore_node r n) = payload_bytes (wr_entries r)"
  by (simp_all add: restore_node_def set_log_def acknowledge_witness_index_def Let_def)

lemma restore_node_indexes [simp]:
  "snapshot_index (restore_node r n) = (case wr_installed_snapshot r of None \<Rightarrow> 0 | Some s \<Rightarrow> li_index (sm_last_log_id s))"
  "last_retained_index (restore_node r n) = (if wr_entries r = [] then 0 else idx (last (wr_entries r)))"
  by (simp_all add: snapshot_index_def last_retained_index_def)

lemma restore_node_witness:
  assumes "nd_replica_role n = WitnessRole"
  shows "af_commit_index (wr_apply_snapshot_fence r) \<le> nd_witness_ack_index (restore_node r n)"
    "last_retained_index (restore_node r n) \<le> nd_witness_ack_index (restore_node r n)"
  using assms unfolding restore_node_indexes
  by (simp_all add: restore_node_def set_log_def acknowledge_witness_index_def Let_def last_retained_index_def le_max_iff_disj)

lemma restore_node_inv:
  assumes "node_inv n" "nd_replica_role n \<noteq> WitnessRole" "wr_entries r = nd_log n" "wr_installed_snapshot r = nd_installed_snapshot n"
    "af_commit_index (wr_apply_snapshot_fence r) = nd_commit_index n" "af_applied_index (wr_apply_snapshot_fence r) = nd_applied_index n"
  shows "node_inv (restore_node r m)"
proof -
  have s: "snapshot_index (restore_node r m) = snapshot_index n" using assms(4) by (simp add: snapshot_index_def)
  have "commit_held (restore_node r m)"
    using assms restore_node_witness(1) [of m r] s by (auto simp: commit_held_def node_inv_def)
  then show ?thesis
    using assms restore_node_witness(2) [of m r] unfolding node_inv_def s by auto
qed

section \<open>The group a record is restored into\<close>

lemma pipelines_frame [simp]:
  "rc_nodes (entry_pipeline i p c) = rc_nodes c" "rc_nodes (modify_pipeline i f c) = rc_nodes c"
  "rc_current_term (entry_pipeline i p c) = rc_current_term c" "rc_current_term (modify_pipeline i f c) = rc_current_term c"
  by (simp_all add: entry_pipeline_def modify_pipeline_def)

lemma refresh_replication_pipelines_frame [simp]:
  "rc_nodes (refresh_replication_pipelines c) = rc_nodes c"
  "rc_current_term (refresh_replication_pipelines c) = rc_current_term c"
proof -
  let ?F = "\<lambda>k l. fold (\<lambda>(i, n). entry_pipeline i (pipeline_new i (sat_add (match_index n) k) l))"
  have "rc_nodes (?F k l ns d) = rc_nodes d \<and> rc_current_term (?F k l ns d) = rc_current_term d" for k l ns d
    by (induction ns arbitrary: d) auto
  then show "rc_nodes (refresh_replication_pipelines c) = rc_nodes c"
      "rc_current_term (refresh_replication_pipelines c) = rc_current_term c"
    by (simp_all add: refresh_replication_pipelines_def Let_def split: option.split)
qed

lemma forget_node_nodes: "rc_nodes (forget_node reason i c) = bt_remove i (rc_nodes c)"
  by (simp add: forget_node_def Let_def drop_peer_state_def remove_election_response_from_def abort_leader_transfer_def
      complete_leader_transfer_def split: option.split)

lemma reset_removed_nodes: "i \<notin> set js \<Longrightarrow> bt_get (rc_nodes (fold reset_removed_node js c)) i = bt_get (rc_nodes c) i"
proof (induction js arbitrary: c)
  case (Cons j js)
  have "rc_nodes (reset_removed_node j c) = bt_remove j (rc_nodes c)"
    by (simp add: reset_removed_node_def Let_def forget_node_nodes invalidate_leader_lease_def)
  then show ?case using Cons by simp
qed simp

lemma refresh_commit_index_keys: "bt_keys (rc_nodes (refresh_commit_index c)) = bt_keys (rc_nodes c)"
  by (simp add: refresh_commit_index_def modify_nodes_def Let_def split: option.split)

lemma bt_get_keys: "bt_get m i \<noteq> None \<longleftrightarrow> i \<in> set (bt_keys m)"
  by (simp add: bt_get_def bt_keys_def map_of_eq_None_iff)

lemma keys_bt_insert [simp]: "set (bt_keys (bt_insert k v m)) = insert k (set (bt_keys m))"
  by (simp add: bt_keys_def fst_set_bt_insert)

lemma fold_keys_mono:
  assumes "\<And>x ns. set (bt_keys ns) \<subseteq> set (bt_keys (f x ns))"
  shows "set (bt_keys ns) \<subseteq> set (bt_keys (fold f xs ns))"
  using assms by (induction xs arbitrary: ns) (auto, blast)

lemma restore_membership_keeps:
  assumes "cluster_node c i \<noteq> None"
  shows "cluster_node (restore_membership_from_record i m c) i \<noteq> None"
proof -
  have member: "set (bt_keys ns) \<subseteq> set (bt_keys (fold reset_member ps ns))" for ps ns
    by (rule fold_keys_mono) (auto simp: reset_member_def)
  have default: "set (bt_keys ns) \<subseteq> set (bt_keys (fold (\<lambda>i. or_insert i (node_new i VoterRole False)) js ns))" for js ns
    by (rule fold_keys_mono) (auto simp: or_insert_def)
  have "cluster_node (reset_membership_from_snapshot i ids ps c) i \<noteq> None" for ids ps
  proof -
    define js where "js = fold set_insert (ids @ map pr_node_id ps) []"
    define c1 where "c1 = fold reset_removed_node (filter (\<lambda>j. j \<notin> set (set_insert i js)) (bt_keys (rc_nodes c))) c"
    define ns where "ns = fold (\<lambda>i. or_insert i (node_new i VoterRole False)) (set_insert i js) (fold reset_member ps (rc_nodes c1))"
    define c2 where "c2 = refresh_replication_pipelines (refresh_commit_index (reset_leader_lease_epoch (c1\<lparr>rc_nodes := ns\<rparr>)))"
    have "i \<in> set (set_insert i js)" by (simp add: set_insert_def set_insort_key)
    then have "i \<in> set (bt_keys (rc_nodes c1))"
      using assms reset_removed_nodes [of i _ c] unfolding c1_def bt_get_keys [symmetric] by simp
    then have "i \<in> set (bt_keys ns)" using member default unfolding ns_def by blast
    then have "cluster_node c2 i \<noteq> None"
      unfolding bt_get_keys c2_def by (simp add: refresh_commit_index_keys reset_leader_lease_epoch_def)
    moreover have "reset_membership_from_snapshot i ids ps c = (case rc_leader_id c2 of None \<Rightarrow> c2
        | Some l \<Rightarrow> modify_nodes (\<lambda>n. n\<lparr>nd_raft_role := role_under Leader l n\<rparr>) c2)"
      using assms unfolding reset_membership_from_snapshot_def Let_def c2_def ns_def c1_def js_def
      by (simp add: bt_contains_key_def)
    ultimately show ?thesis by (auto simp: modify_nodes_def split: option.split)
  qed
  then show ?thesis using assms by (simp add: restore_membership_from_record_def Let_def)
qed

section \<open>Records of a group\<close>

lemma wal_record_for_Inr:
  assumes "wal_record_for i c = Inr r"
  obtains n where "cluster_node c i = Some n"
    "r = (wal_record_shell i n c)\<lparr>wr_entries := nd_log n, wr_checksum := matrixraft_wal_checksum ((wal_record_shell i n c)\<lparr>wr_entries := nd_log n\<rparr>)\<rparr>"
  using assms by (auto simp: wal_record_for_def Let_def split: option.splits)

lemma wal_record_for_fields:
  assumes "wal_record_for i c = Inr r" "cluster_node c i = Some n"
  shows "wr_group_id r = rc_group_id c" "wr_node_id r = i" "wr_entries r = nd_log n" "wr_hard_state r = nd_hard_state n"
    "wr_installed_snapshot r = nd_installed_snapshot n" "\<not> wr_entries_are_delta r"
    "af_commit_index (wr_apply_snapshot_fence r) = nd_commit_index n"
    "af_applied_index (wr_apply_snapshot_fence r) = nd_applied_index n"
  using assms by (auto elim!: wal_record_for_Inr simp: wal_record_shell_def)

text \<open>What a log must satisfy for its record to be restored: it continues the snapshot, and an entry can still follow it.\<close>

definition restorable :: "node \<Rightarrow> bool" where
  "restorable n \<longleftrightarrow> last_retained_index n < u64_max \<and> snapshot_index n < u64_max
     \<and> (nd_installed_snapshot n \<noteq> None \<and> nd_log n \<noteq> [] \<longrightarrow> idx (hd (nd_log n)) \<le> snapshot_index n + 1)"

lemma restorable_accepted:
  assumes "restorable n" "wr_entries r = nd_log n" "wr_installed_snapshot r = nd_installed_snapshot n"
  shows "matrixraft_validate_log_continues_snapshot r = Inr ()" "largest_index r = None"
proof -
  show "matrixraft_validate_log_continues_snapshot r = Inr ()"
    using assms by (auto simp: restorable_def matrixraft_validate_log_continues_snapshot_def snapshot_index_def
        sat_add_def Let_def split: option.splits list.splits)
  show "largest_index r = None"
    using assms by (cases "nd_log n = []"; cases "nd_installed_snapshot n")
      (auto simp: restorable_def largest_index_def last_retained_index_def snapshot_index_def)
qed

lemma covered_prefix_delta_base:
  assumes "log_sorted (nd_log n)"
  shows "covered_prefix (Some (i, j, t)) n = matrixraft_wal_delta_base (nd_log n) i j t"
proof -
  have "log_position n j = (case binary_search_by (\<lambda>x. cmp_nat (idx x) j) (nd_log n) of Inr p \<Rightarrow> Some p | Inl _ \<Rightarrow> None)"
  proof (cases "binary_search_by (\<lambda>x. cmp_nat (idx x) j) (nd_log n)")
    case (Inl k)
    then have "log_position n j \<noteq> Some p" for p
      using binary_search_index [OF assms [unfolded log_sorted_def], of j p] log_position_Some [OF assms, of j p] by auto
    then show ?thesis using Inl by auto
  next
    case (Inr p)
    then show ?thesis
      using binary_search_index [OF assms [unfolded log_sorted_def], of j p] log_position_Some [OF assms, of j p] by auto
  qed
  then show ?thesis
    by (auto simp: covered_prefix_def matrixraft_wal_delta_base_def split: list.split sum.split)
qed

section \<open>Properties\<close>

text \<open>
  C36: A restart loses nothing that was recorded. The record written for a replica that is not a
  witness, whose log continues its snapshot and whose indexes leave room for one more entry, can
  be restored into any group of the same id that knows the replica, and the replica is then back with the term and vote, log, snapshot, commit index and applied
  index it had; it answers the same term at every index, its invariant holds again, and the group
  is in its term at least.
\<close>

theorem wal_record_restores_replica:
  assumes n: "cluster_node c i = Some n" "node_inv n" "nd_replica_role n \<noteq> WitnessRole" "restorable n"
    and r: "wal_record_for i c = Inr r" and d: "cluster_node d i \<noteq> None" "rc_group_id d = rc_group_id c"
  shows "\<exists>d' m. restore_wal_record r d = (Inr (), d') \<and> cluster_node d' i = Some m \<and> node_inv m
    \<and> nd_hard_state m = nd_hard_state n \<and> nd_log m = nd_log n \<and> nd_installed_snapshot m = nd_installed_snapshot n
    \<and> nd_commit_index m = nd_commit_index n \<and> nd_applied_index m = nd_applied_index n
    \<and> (\<forall>j. log_term_at m j = log_term_at n j) \<and> current_term_of n \<le> rc_current_term d'"
proof -
  note f = wal_record_for_fields [OF r n(1)]
  note ok = restorable_accepted [OF n(4) f(3,5)]
  obtain m0 where m0: "cluster_node (restore_membership_from_record i (wr_membership r) d) i = Some m0"
    using restore_membership_keeps [OF d(1)] by fast
  define m where "m = restore_node r m0"
  define d' where "d' = snd (restore_wal_record r d)"
  have run: "restore_wal_record r d = (Inr (), d')" "cluster_node d' i = Some m" "current_term_of m \<le> rc_current_term d'"
    using ok m0 d(2) f(1,2) by (simp_all add: d'_def restore_wal_record_def Let_def m_def refresh_cluster_indexes_def)
  moreover have "node_inv m" unfolding m_def by (rule restore_node_inv [OF n(2,3) f(3,5,7,8)])
  moreover have "nd_hard_state m = nd_hard_state n" "nd_log m = nd_log n" "nd_installed_snapshot m = nd_installed_snapshot n"
      "nd_commit_index m = nd_commit_index n" "nd_applied_index m = nd_applied_index n"
    by (simp_all add: m_def f)
  ultimately show ?thesis using log_term_at_view [of m n] by auto
qed

text \<open>
  C37: The group and the storage cut the same delta. The record the group builds for a replica
  from what the active segment covers, without copying the covered entries, is the one the storage
  would cut from the full record of that replica, checksum included.
\<close>

theorem coverage_record_is_delta:
  assumes n: "cluster_node c i = Some n" "node_inv n" and r: "wal_record_for i c = Inr r"
  shows "wal_record_for_coverage i covered c = Inr (delta_record covered r)"
proof -
  have "log_sorted (nd_log n)"
    using n(2) contiguous_from_sorted by (cases "nd_log n = []") (auto simp: node_inv_def log_sorted_def [of "[]"])
  note base = covered_prefix_delta_base [OF this]
  let ?w = "wal_record_shell i n c"
  have rr: "r = ?w\<lparr>wr_entries := nd_log n, wr_checksum := matrixraft_wal_checksum (?w\<lparr>wr_entries := nd_log n\<rparr>)\<rparr>"
    using r n(1) by (auto elim: wal_record_for_Inr)
  have whole: "whole_record (?w\<lparr>wr_entries := es\<rparr>) =
      ?w\<lparr>wr_entries := es, wr_checksum := matrixraft_wal_checksum (?w\<lparr>wr_entries := es\<rparr>)\<rparr>" for es
    by (simp add: whole_record_def wal_record_shell_def Let_def)
  have ignored: "matrixraft_wal_checksum (?w\<lparr>wr_checksum := v, wr_entries := es, wr_entries_are_delta := b\<rparr>)
      = matrixraft_wal_checksum (?w\<lparr>wr_entries := es, wr_entries_are_delta := b\<rparr>)" for v es b
    by (simp add: matrixraft_wal_checksum_def wal_checksum_def mixed_values_def)
  show ?thesis
  proof (cases covered)
    case None
    then show ?thesis using n(1) by (simp add: wal_record_for_coverage_def covered_prefix_def delta_record_def rr whole Let_def)
  next
    case (Some f)
    obtain a b t where "covered = Some (a, b, t)" using Some by (cases f) auto
    then show ?thesis using n(1) base [of a b t]
      by (simp add: wal_record_for_coverage_def delta_record_def rr whole ignored Let_def split: option.split)
  qed
qed

text \<open>The record of a replica with two entries, one of them committed, restored into a new group.\<close>

definition written_cluster :: raft_cluster where
  "written_cluster = deliver 3 sample_request sample_cluster"

lemma written_cluster_replica:
  obtains n where "cluster_node written_cluster 3 = Some n" "node_inv n" "nd_replica_role n \<noteq> WitnessRole" "restorable n"
    "nd_commit_index n = 1" "length (nd_log n) = 2"
proof -
  have "map_option (\<lambda>n. (nd_replica_role n, nd_installed_snapshot n, last_retained_index n, nd_commit_index n, length (nd_log n)))
      (cluster_node written_cluster 3) = Some (VoterRole, None, 2, 1, 2)"
    unfolding written_cluster_def by code_simp
  then obtain n where n: "cluster_node written_cluster 3 = Some n" "nd_replica_role n = VoterRole" "nd_installed_snapshot n = None"
      "last_retained_index n = 2" "nd_commit_index n = 1" "length (nd_log n) = 2"
    by auto
  have "all_log_safe sample_cluster written_cluster"
    unfolding written_cluster_def deliver_def append_entries_to_def by (rule append_handler_log_safe [OF sample_replay_ok])
  then have "node_inv n" using all_log_safe_target_node [OF _ sample_cluster_node node_inv_new] n(1) by (metis option.inject)
  moreover have "restorable n" using n by (simp add: restorable_def snapshot_index_def u64_max_def)
  ultimately show thesis using that n by simp
qed

theorem wal_record_restores_replica_witness:
  "\<exists>r d' m. wal_record_for 3 written_cluster = Inr r \<and> restore_wal_record r sample_cluster = (Inr (), d')
     \<and> cluster_node d' 3 = Some m \<and> length (nd_log m) = 2 \<and> nd_commit_index m = 1"
proof -
  obtain n where n: "cluster_node written_cluster 3 = Some n" "node_inv n" "nd_replica_role n \<noteq> WitnessRole" "restorable n"
      "nd_commit_index n = 1" "length (nd_log n) = 2"
    by (rule written_cluster_replica)
  obtain r where r: "wal_record_for 3 written_cluster = Inr r" using n(1) by (simp add: wal_record_for_def Let_def)
  have "rc_group_id sample_cluster = rc_group_id written_cluster" unfolding written_cluster_def by code_simp
  with wal_record_restores_replica [OF n(1-4) r, of sample_cluster] sample_cluster_node n(5,6) r show ?thesis by auto
qed

theorem coverage_record_is_delta_witness:
  "\<exists>r. wal_record_for 3 written_cluster = Inr r
     \<and> wal_record_for_coverage 3 (Some (1, 1, 1)) written_cluster = Inr (delta_record (Some (1, 1, 1)) r)
     \<and> length (wr_entries (delta_record (Some (1, 1, 1)) r)) = 1"
proof -
  obtain n where n: "cluster_node written_cluster 3 = Some n" "node_inv n" by (rule written_cluster_replica)
  obtain r where r: "wal_record_for 3 written_cluster = Inr r" using n(1) by (simp add: wal_record_for_def Let_def)
  have "map_option (\<lambda>n. (map idx (nd_log n), map trm (nd_log n))) (cluster_node written_cluster 3) = Some ([1, 2], [1, 1])"
    unfolding written_cluster_def by code_simp
  then have "map idx (wr_entries r) = [1, 2]" "map trm (wr_entries r) = [1, 1]"
    using n(1) wal_record_for_fields(3) [OF r n(1)] by auto
  then obtain a b where "wr_entries r = [a, b]" "idx a = 1" "idx b = 2" "trm a = 1" "trm b = 1" by (auto simp: map_eq_Cons_conv)
  then have "length (wr_entries (delta_record (Some (1, 1, 1)) r)) = 1"
    by (simp add: delta_record_def matrixraft_wal_delta_base_def binary_search_by_def bs_loop.simps cmp_nat_def Let_def)
  then show ?thesis using r coverage_record_is_delta [OF n r, of "Some (1, 1, 1)"] by blast
qed

end
