(* ===== verification/MR_Dispatch_Safety.thy ===== *)
theory MR_Dispatch_Safety
  imports MR_Group_Steps MR_Dispatch
begin

text \<open>
  The group stays well-formed whatever it is fed: the step relation has one rule for the message
  interface and one for every other operation that changes the group, and every group reached from
  a new one satisfies \<open>group_ok\<close>. The theory also shows that a rolled-back membership workflow leaves
  nothing behind, and that a workflow that succeeds is the one that runs without rollback.
\<close>

section \<open>Snapshot chunks and records\<close>

lemma group_ok_observe_snapshot [simp]:
  "group_ok c \<Longrightarrow> cluster_node c (iq_leader_id q) \<noteq> None \<Longrightarrow> group_ok (observe_snapshot_leader q c)"
  unfolding observe_snapshot_leader_def Let_def
  by (auto simp: clear_reorder_queues_def abort_leader_transfer_def complete_leader_transfer_def split: option.split)

lemma group_ok_stale_chunk [simp]: "group_ok (snd (stale_snapshot_chunk_response t q k c)) = group_ok c"
  by (simp add: stale_snapshot_chunk_response_def Let_def split: option.split)

lemma reject_None_leader: "reject_snapshot_before_observe t q k c = Inr None \<Longrightarrow> cluster_node c (iq_leader_id q) \<noteq> None"
  by (auto simp: reject_snapshot_before_observe_def split: option.splits if_splits)

lemma group_ok_before_chunk [simp]: "group_ok c \<Longrightarrow> group_ok (snd (before_chunk t q k c))"
  by (auto simp: before_chunk_def dest: reject_None_leader split: sum.split option.split)

lemma group_ok_finish_install [simp]: "group_ok c \<Longrightarrow> group_ok (snd (finish_install t q k s c))"
  unfolding finish_install_def Let_def by (intro group_ok_flow; simp)

lemma group_ok_receive_chunk_with [simp]: "group_ok c \<Longrightarrow> group_ok (snd (receive_chunk_with t q k s c))"
  unfolding receive_chunk_with_def Let_def by (intro group_ok_flow; simp)

lemma group_ok_receive_chunk [simp]: "group_ok c \<Longrightarrow> group_ok (snd (receive_chunk t q k c))"
  unfolding receive_chunk_def Let_def by (intro group_ok_flow; simp)

lemma group_ok_install_chunk [simp]: "group_ok c \<Longrightarrow> group_ok (snd (install_snapshot_chunk_to t q c))"
  unfolding install_snapshot_chunk_to_def Let_def by (intro group_ok_flow; simp)

lemma group_ok_install_lifecycle [simp]:
  assumes "group_ok c" shows "group_ok (snd (snd (install_snapshot_lifecycle_request_to t q l c)))"
proof -
  define k where "k = sat_add (sc_offset (iq_chunk q)) (length (sc_data (iq_chunk q)))"
  obtain r c1 where b: "before_chunk t q k c = (r, c1)" by fastforce
  then have c1: "group_ok c1" using group_ok_before_chunk [OF assms, of t q k] by simp
  have "group_ok (snd (install_lifecycle_snapshot t m k s c1))" for m s
    unfolding install_lifecycle_snapshot_def Let_def using c1 by (intro group_ok_flow; simp)
  then show ?thesis using assms c1 b
    by (auto simp: install_snapshot_lifecycle_request_to_def Let_def k_def [symmetric] case_prod_unfold
        split: sum.split option.split prod.split)
qed

lemma nd_id_restore [simp]: "nd_id (restore_node r n) = nd_id n"
  by (simp add: restore_node_def acknowledge_witness_index_def set_log_def Let_def)

lemma group_ok_restore_record [simp]: "group_ok c \<Longrightarrow> group_ok (snd (restore_wal_record r c))"
  unfolding restore_wal_record_def Let_def
  by (intro group_ok_flow; simp add: group_ok_set_node)

lemma group_ok_fenced [simp]: "group_ok (snd (compact_logs_with_storage_fence i f c)) = group_ok c"
  by (simp add: compact_logs_with_storage_fence_def Let_def case_prod_unfold split: sum.split)

section \<open>Membership executor\<close>

lemma group_ok_execute_operation [simp]: "group_ok c \<Longrightarrow> group_ok (snd (execute_operation operation c))"
proof (cases operation)
  case (Promote i)
  assume "group_ok c"
  then have "group_ok (snd (execute_promote i c))"
    unfolding execute_promote_def by (intro group_ok_flow; simp)
  then show ?thesis using Promote by simp
qed (simp_all del: apply_committed_membership_operation.simps group_ok_and_then_iff add: group_ok_and_then)

lemma execute_inner_cases:
  "snd (snd (execute_inner operation rb reports c)) = c \<or> snd (snd (execute_inner operation rb reports c)) = snd (execute_operation operation c)"
  by (simp add: execute_inner_def Let_def case_prod_unfold)

lemma group_ok_execute_inner [simp]: "group_ok c \<Longrightarrow> group_ok (snd (snd (execute_inner operation rb reports c)))"
  using execute_inner_cases [of operation rb reports c] by auto

lemma group_ok_execute [simp]: "group_ok c \<Longrightarrow> group_ok (snd (snd (execute operation reports c)))"
  by (simp add: execute_def)

lemma group_ok_execute_all [simp]: "group_ok c \<Longrightarrow> group_ok (snd (snd (execute_all operations reports c)))"
proof (induction operations arbitrary: reports c)
  case (Cons operation rest)
  obtain r rs1 c1 where e: "execute operation reports c = (r, rs1, c1)" by (metis prod_cases3)
  with group_ok_execute [OF Cons.prems, of operation reports] have "group_ok c1" by simp
  then have "group_ok (snd (snd (execute_all rest rs1 c1)))" by (rule Cons.IH)
  with \<open>group_ok c1\<close> show ?case by (simp add: e case_prod_unfold snd_case_sum split: sum.split)
qed simp

lemma group_ok_rollback_loop: "group_ok b \<Longrightarrow> group_ok c \<Longrightarrow> group_ok (snd (snd (rollback_loop b operations reports c)))"
proof (induction operations arbitrary: reports c)
  case (Cons operation rest)
  obtain r rs1 c1 where e: "execute_inner operation True reports c = (r, rs1, c1)" by (metis prod_cases3)
  with group_ok_execute_inner [OF Cons.prems(2), of operation True reports] have "group_ok c1" by simp
  then have "group_ok (snd (snd (rollback_loop b rest rs1 c1)))" by (rule Cons.IH [OF Cons.prems(1)])
  with Cons.prems(1) show ?case by (simp add: e case_prod_unfold snd_case_sum split: sum.split)
qed simp

section \<open>The message interface\<close>

lemma group_ok_answers [simp]: "group_ok (snd (answers f r)) = group_ok (snd r)" "group_ok (snd (handled r)) = group_ok (snd r)"
  by (simp_all add: answers_def handled_def split: sum.split)

lemma group_ok_returns [simp]: "group_ok (snd (returns g p)) = group_ok (snd p)" "group_ok (snd (reads h x c)) = group_ok c"
  by (simp_all add: returns_def reads_def)

lemma group_ok_small [simp]:
  "group_ok (set_prohibits_election b c) = group_ok c"
  "group_ok c \<Longrightarrow> group_ok (snd (receive_leader_lease_confirmation_with_duration i e d c))"
  "group_ok c \<Longrightarrow> group_ok (snd (receive_leader_lease_confirmation i e c))"
  by (simp_all add: set_prohibits_election_def receive_leader_lease_confirmation_with_duration_def
      receive_leader_lease_confirmation_def)

lemma group_ok_step_admin [simp]: "group_ok c \<Longrightarrow> group_ok (snd (step_admin enc command c))"
  by (cases command) (simp_all split: option.split)

lemma group_ok_step [simp]: "group_ok c \<Longrightarrow> group_ok (snd (step enc m c))"
  by (cases m) (simp_all add: case_prod_unfold split: option.split)

lemma group_ok_step_batch [simp]: "group_ok c \<Longrightarrow> group_ok (snd (step_batch enc ms c))"
proof (induction ms arbitrary: c)
  case (Cons m ms)
  then show ?case unfolding step_batch.simps
    by (intro group_ok_and_then) (simp_all del: group_ok_and_then_iff)
qed simp


section \<open>Every reachable group is well-formed\<close>

inductive group_step :: "(log_entry list \<Rightarrow> payload) \<Rightarrow> raft_cluster \<Rightarrow> raft_cluster \<Rightarrow> bool" for enc where
  message: "group_step enc c (snd (step enc m c))"
| batch: "group_step enc c (snd (step_batch enc ms c))"
| start: "group_step enc c (snd (cluster_start c))"
| stop: "group_step enc c (snd (cluster_stop c))"
| liveness: "group_step enc c (snd (tick_peer_liveness ms c))"
| reorder_tick: "group_step enc c (snd (tick_reorder_queues us c))"
| heartbeat: "group_step enc c (snd (broadcast_heartbeat c))"
| wake: "group_step enc c (snd (broadcast_commit_index_to_old_paused_peers c))"
| follower_lease: "group_step enc c (set_follower_lease_valid v c)"
| renew: "group_step enc c (snd (renew_leader_lease_from_live_quorum c))"
| expire: "group_step enc c (expire_leader_lease c)"
| witness_policy: "group_step enc c (snd (refresh_witness_commit_quorum_policy c))"
| lost_quorum: "group_step enc c (snd (step_down_leader_if_lost_quorum c))"
| begin_change: "group_step enc c (snd (begin_pending_membership_change k c))"
| save_change: "group_step enc c (snd (begin_saving_membership_change k c))"
| stable_change: "group_step enc c (mark_membership_change_stabled k c)"
| apply_change: "group_step enc c (mark_membership_change_applied k c)"
| floor_change: "group_step enc c (mark_snapshot_membership_floor_applied k c)"
| cut_change: "group_step enc c (reset_pending_membership_change_after_truncation k k' c)"
| inflight: "group_step enc c (snd (mark_apply_task_inflight_with_fence i k durable c))"
| propose_change: "group_step enc c (snd (propose_membership_change p c))"
| append_change: "group_step enc c (snd (append_entries_with_membership_change_indexes_to i q changes c))"
| begin_transfer: "group_step enc c (snd (begin_leader_transfer i c))"
| transfer: "group_step enc c (snd (transfer_leader_outcome i c))"
| transfer_tick: "group_step enc c (snd (tick_leader_transfer c))"
| add: "group_step enc c (snd (add_peer new_peer c))"
| promote: "group_step enc c (snd (promote_peer i c))"
| remove: "group_step enc c (snd (cluster_remove_peer i c))"
| committed: "group_step enc c (snd (apply_committed_membership_operation operation c))"
| catch_up: "group_step enc c (snd (learner_catch_up_loop i c))"
| workflow: "group_step enc c (snd (snd (execute_all operations reports c)))"
| rollback_workflow: "group_step enc c (snd (snd (execute_all_with_rollback operations reports c)))"
| install: "group_step enc c (snd (install_snapshot_to i s f c))"
| install_tail: "group_step enc c (snd (install_snapshot_with_tail_to i s f es c))"
| install_lifecycle: "group_step enc c (snd (snd (install_snapshot_lifecycle_request_to i iq l c)))"
| trigger_tick: "group_step enc c (snd (tick_snapshot_trigger c))"
| restore: "group_step enc c (snd (restore_wal_record r c))"

lemma group_ok_group_step: "group_step enc c c' \<Longrightarrow> group_ok c \<Longrightarrow> group_ok c'"
  by (erule group_step.cases; hypsubst; simp add: execute_all_with_rollback_def group_ok_rollback_loop)

lemma insert_peers_wf:
  "insert_peers ps ns = Inr ns' \<Longrightarrow> bt_invar ns \<and> (\<forall>i. id_of ns i = None \<or> id_of ns i = Some i)
     \<Longrightarrow> bt_invar ns' \<and> (\<forall>i. id_of ns' i = None \<or> id_of ns' i = Some i)"
proof (induction ps arbitrary: ns)
  case (Cons p ps)
  let ?ns = "bt_insert (pr_node_id p) (node_new (pr_node_id p) (pr_role p) (pr_auto_promote p)) ns"
  have "insert_peers ps ?ns = Inr ns'" using Cons.prems(1) by (simp split: if_splits)
  moreover have "bt_invar ?ns \<and> (\<forall>i. id_of ?ns i = None \<or> id_of ?ns i = Some i)"
    using Cons.prems(2) by (auto simp: id_of_insert node_new_def)
  ultimately show ?case by (rule Cons.IH)
qed simp

lemma group_ok_new:
  assumes "cluster_new g cfg peers = Inr c" shows "group_ok c"
proof -
  obtain ns where ns: "insert_peers peers [] = Inr ns" "rc_nodes c = ns"
    "rc_peer_pipelines c = map (\<lambda>i. (i, pipeline_new i 1 (config_pipeline_limits cfg))) (bt_keys ns)"
    and rest: "rc_leader_id c = None" "rc_vote_responses c = []" "rc_pre_vote_responses c = []" "rc_leader_transfer c = None"
    using assms by (auto simp: cluster_new_def Let_def split: sum.splits if_splits)
  have wf: "bt_invar ns \<and> (\<forall>i. id_of ns i = None \<or> id_of ns i = Some i)"
    by (rule insert_peers_wf [OF ns(1)]) (simp add: id_of_def bt_get_def)
  have keys: "map fst (rc_peer_pipelines c) = map fst ns" by (simp add: ns(3) bt_keys_def comp_def)
  have "bt_contains_key (rc_peer_pipelines c) i \<longleftrightarrow> id_of ns i \<noteq> None" for i
    unfolding contains_keys keys id_of_None by (auto simp: bt_get_def map_of_eq_None_iff)
  moreover have "bt_invar (rc_peer_pipelines c)" using wf keys by (simp add: bt_invar_def)
  ultimately show ?thesis using wf ns(2) rest by (simp add: group_ok_def group_wf_def)
qed

text \<open>
  C7: Every group reached from a new one by any sequence of messages, ticks, membership changes, snapshot
  installations and restored records is well-formed: nodes and pipelines are ordered maps, every node
  is stored under its own id, exactly the members have a pipeline, and the leader, the counted voters
  and pre-voters and the target of an active leader transfer are members.
\<close>

theorem group_reachable_ok:
  assumes "cluster_new g cfg peers = Inr c0" "(group_step enc)\<^sup>*\<^sup>* c0 c"
  shows "group_ok c"
  using assms(2) by (induction rule: rtranclp_induct) (auto intro: group_ok_new [OF assms(1)] group_ok_group_step)

text \<open>A group of three voters that elects a leader, gains a learner and loses its leader.\<close>

definition trio :: raft_cluster where
  "trio = projr (cluster_new 1 default_config (map (\<lambda>i. sample_peer i VoterRole) [1, 2, 3]))"

definition running_trio :: raft_cluster where
  "running_trio = snd (cluster_start trio)"

lemma trio_new: "cluster_new 1 default_config (map (\<lambda>i. sample_peer i VoterRole) [1, 2, 3]) = Inr trio"
proof -
  have "is_ok (cluster_new 1 default_config (map (\<lambda>i. sample_peer i VoterRole) [1, 2, 3]))" by code_simp
  then show ?thesis by (auto simp: trio_def is_ok_def split: sum.splits)
qed

theorem group_reachable_ok_witness:
  "rc_leader_id running_trio = Some 1
   \<and> group_ok (snd (cluster_remove_peer 1 (snd (add_peer (sample_peer 4 LearnerRole) running_trio))))"
proof -
  have "(group_step (\<lambda>_. []))\<^sup>*\<^sup>* trio (snd (cluster_remove_peer 1 (snd (add_peer (sample_peer 4 LearnerRole) running_trio))))"
    unfolding running_trio_def
    by (meson group_step.start group_step.add group_step.remove rtranclp.rtrancl_into_rtrancl rtranclp.rtrancl_refl)
  from group_reachable_ok [OF trio_new this] show ?thesis by (rule conjI [rotated]) code_simp
qed

section \<open>Membership workflows\<close>

lemma execute_inner_ok:
  assumes "fst (execute_inner operation True reports c) = Inr r"
  shows "execute operation reports c = execute_inner operation True reports c"
proof -
  obtain x c1 where e: "(if executor_validate c operation = [] then execute_operation operation c
      else (Inl (InvalidRequest (join_blockers (executor_validate c operation))), c)) = (x, c1)" by fastforce
  then obtain u where "x = Inr u" using assms by (auto simp: execute_inner_def Let_def split: sum.splits)
  with e show ?thesis by (simp add: execute_def execute_inner_def)
qed

lemma rollback_loop_result:
  "rollback_loop b operations reports c = (r, reports', c') \<Longrightarrow>
     (case r of Inl _ \<Rightarrow> c' = b | Inr _ \<Rightarrow> execute_all operations reports c = (r, reports', c'))"
proof (induction operations arbitrary: reports c r reports' c')
  case (Cons operation rest)
  obtain x rs1 c1 where e: "execute_inner operation True reports c = (x, rs1, c1)" by (metis prod_cases3)
  obtain y rs2 c2 where l: "rollback_loop b rest rs1 c1 = (y, rs2, c2)" by (metis prod_cases3)
  have "execute operation reports c = (x, rs1, c1)" if "x = Inr z" for z
    using execute_inner_ok [of operation reports c z] e that by simp
  then show ?case using Cons.prems Cons.IH [OF l] e l by (auto split: sum.splits)
qed simp

text \<open>
  C13: A membership workflow run with rollback is all or nothing: when one of its operations fails the
  group is exactly what it was before the first one, and when it succeeds the group, the reports and the
  history are those of the same workflow run without rollback.
\<close>

theorem workflow_rollback_atomic:
  assumes "execute_all_with_rollback operations reports c = (r, reports', c')"
  shows "case r of Inl _ \<Rightarrow> c' = c | Inr _ \<Rightarrow> execute_all operations reports c = (r, reports', c')"
  using rollback_loop_result [of c operations reports c] assms by (simp add: execute_all_with_rollback_def)

definition failing_workflow :: "membership_operation list" where
  "failing_workflow = [AddLearner (sample_peer 4 LearnerRole), Remove 9]"

theorem workflow_rollback_atomic_witness:
  "snd (snd (execute_all_with_rollback failing_workflow [] running_trio)) = running_trio
   \<and> map mx_success (fst (snd (execute_all_with_rollback failing_workflow [] running_trio))) = [True, False]"
proof -
  obtain r rs c where w: "execute_all_with_rollback failing_workflow [] running_trio = (r, rs, c)" by (metis prod_cases3)
  have "\<not> is_ok (fst (execute_all_with_rollback failing_workflow [] running_trio))"
    "map mx_success (fst (snd (execute_all_with_rollback failing_workflow [] running_trio))) = [True, False]" by code_simp+
  with workflow_rollback_atomic [OF w] w show ?thesis by (simp add: is_ok_def split: sum.splits)
qed

end
