(* ===== verification/MR_Commit_Safety.thy ===== *)
theory MR_Commit_Safety
  imports MR_Replication MR_Election_Safety
begin

text \<open>
  How the group commits and who may lead it. The commit index moves only to the greatest index a commit
  quorum holds, and only when the leader's entry there is of the current term; both ways the source
  computes that index meet the contract \<open>quorum_selection\<close>. An answer to a vote request makes a leader
  only with the grants of a quorum. A delayed grant, however, is counted although its term is over, and
  can replace the leader of a term.
\<close>

section \<open>The commit quorum\<close>

lemma commit_quorum_size_pos [simp]: "0 < commit_quorum_size c"
  by (simp add: commit_quorum_size_def Let_def)

lemma commit_by_counting: "commit_quorum_match_index_by_counting q c = repeated_counting q (commit_candidates c)"
  by (simp add: commit_quorum_match_index_by_counting_def repeated_counting_def Let_def)

text \<open>Small and large groups select the same index.\<close>

lemma commit_selection: "commit_quorum_match_index c = order_statistic (commit_quorum_size c) (commit_candidates c)"
  by (simp add: commit_quorum_match_index_def commit_by_counting selections_agree order_statistic_def Let_def)

lemma commit_selection_held:
  assumes "commit_quorum_match_index c = Some k"
  shows "commit_quorum_size c \<le> holders k (commit_candidates c)"
    "commit_quorum_size c \<le> holders w (commit_candidates c) \<Longrightarrow> w \<le> k"
  using order.select_held [OF commit_quorum_size_pos] order.select_greatest [OF commit_quorum_size_pos] assms
  unfolding commit_selection by blast+

lemma refresh_indexes_nodes [simp]: "rc_nodes (refresh_cluster_indexes c) = rc_nodes c"
  by (simp add: refresh_cluster_indexes_def Let_def)

text \<open>
  C2: Refreshing the commit index either leaves the group alone, or finds the greatest index that a commit
  quorum of the counted replicas holds, at which the leader's entry is of the current term, and moves
  exactly the healthy replicas towards it and towards what the group had committed before.
\<close>

theorem commit_only_by_quorum:
  "refresh_commit_index c = c \<or>
   (\<exists>k l leader. commit_quorum_match_index c = Some k \<and> rc_leader_id c = Some l \<and> cluster_node c l = Some leader
      \<and> log_term_at leader k = Some (rc_current_term c)
      \<and> commit_quorum_size c \<le> holders k (commit_candidates c)
      \<and> (\<forall>w. commit_quorum_size c \<le> holders w (commit_candidates c) \<longrightarrow> w \<le> k)
      \<and> (\<forall>i. cluster_node (refresh_commit_index c) i =
           map_option (\<lambda>n. if nd_healthy n then advance_commit (max (rc_commit_index c) k) n else n) (cluster_node c i)))"
proof (cases "refresh_commit_index c = c")
  case False
  then obtain k l leader where k: "commit_quorum_match_index c = Some k" "rc_leader_id c = Some l" "cluster_node c l = Some leader"
    "log_term_at leader k = Some (rc_current_term c)"
    by (auto simp: refresh_commit_index_def split: option.splits if_splits)
  then have "cluster_node (refresh_commit_index c) i =
      map_option (\<lambda>n. if nd_healthy n then advance_commit (max (rc_commit_index c) k) n else n) (cluster_node c i)" for i
    by (simp add: refresh_commit_index_def modify_nodes_def Let_def)
  with k commit_selection_held [OF k(1)] show ?thesis by blast
qed simp

definition live_cluster :: raft_cluster where
  "live_cluster = snd (cluster_start sample_cluster)"

text \<open>The entry after the first reached two of the three replicas.\<close>

definition next_entry :: log_entry where
  "next_entry = \<lparr>le_log_id = \<lparr>li_term = 1, li_index = 2\<rparr>, le_payload = [7], le_is_command = True\<rparr>"

definition replicated_cluster :: raft_cluster where
  "replicated_cluster = modify_node 1 (append_entry next_entry) (modify_node 2 (append_entry next_entry) live_cluster)"

theorem commit_only_by_quorum_witness:
  "commit_quorum_size replicated_cluster = 2
   \<and> (\<exists>k. commit_quorum_match_index replicated_cluster = Some k \<and> 2 \<le> holders k (commit_candidates replicated_cluster))
   \<and> rc_commit_index replicated_cluster = 0 \<and> rc_commit_index (refresh_commit_index replicated_cluster) = 2"
proof -
  have q: "commit_quorum_size replicated_cluster = 2" by code_simp
  have r: "rc_commit_index replicated_cluster = 0 \<and> rc_commit_index (refresh_commit_index replicated_cluster) = 2" by code_simp
  then have "refresh_commit_index replicated_cluster \<noteq> replicated_cluster" by (metis zero_neq_numeral)
  with commit_only_by_quorum [of replicated_cluster] q r show ?thesis by auto
qed

section \<open>Delayed grants\<close>

definition delayed_grant :: vote_response where
  "delayed_grant = \<lparr>vr_term = 0, vr_vote_granted = True, vr_reason = ''granted''\<rparr>"

definition elected_cluster :: raft_cluster where
  "elected_cluster = snd (campaign 1 True sample_cluster)"

section \<open>Winning an election\<close>

text \<open>The answers that count: those of the term of the group. A replica counts itself unless it recorded otherwise.\<close>

definition recorded_votes :: "raft_cluster \<Rightarrow> bool btree" where
  "recorded_votes c = (if rc_election_responses_term c = rc_current_term c then rc_vote_responses c else [])"

definition has_granted :: "node_id \<Rightarrow> node_id \<Rightarrow> bool \<Rightarrow> bool btree \<Rightarrow> node_id \<Rightarrow> bool" where
  "has_granted k i granted votes j =
     (if j = i then granted else bt_get votes j = Some True \<or> (j = k \<and> bt_get votes k = None))"

lemma granted_ids_count:
  assumes "bt_invar votes"
  shows "j \<in> set (granted_ids (count_response k i granted votes)) \<longleftrightarrow> has_granted k i granted votes j"
proof -
  let ?m = "or_insert k True votes"
  have inv: "bt_invar ?m" using assms by (simp add: or_insert_def)
  have "j \<in> set (granted_ids m) \<longleftrightarrow> bt_get m j = Some True" if "bt_invar m" for m :: "bool btree"
    unfolding granted_ids_def bt_get_def map_of_eq_Some_iff [OF bt_invar_distinct [OF that]] by force
  moreover have "bt_get ?m j = (if j = k \<and> bt_get votes k = None then Some True else bt_get votes j)"
    using assms by (auto simp: or_insert_def bt_contains_key_def)
  ultimately show ?thesis using inv by (auto simp: count_response_def has_granted_def)
qed

lemma discard_responses:
  "rc_vote_responses (discard_election_responses_from_an_earlier_term c) = recorded_votes c"
  "rc_nodes (discard_election_responses_from_an_earlier_term c) = rc_nodes c"
  "cluster_membership (discard_election_responses_from_an_earlier_term c) = cluster_membership c"
  "rc_ignore_witness (discard_election_responses_from_an_earlier_term c) = rc_ignore_witness c"
  "rc_leader_id (discard_election_responses_from_an_earlier_term c) = rc_leader_id c"
  by (simp_all add: discard_election_responses_from_an_earlier_term_def recorded_votes_def clear_election_responses_def
      cluster_membership_def role_ids_def)

text \<open>
  C38: A replica becomes leader through an answer to its vote request only when that answer is not
  of a later term and the members that count towards a quorum and have granted it their vote in
  the recorded term, this answer included, are at least a quorum of the group; it is then a
  healthy replica that may lead.
\<close>

theorem leader_elected_by_quorum:
  assumes "rc_leader_id (snd (handle_vote_response_from k i r False c)) = Some k" "rc_leader_id c \<noteq> Some k"
    and "bt_invar (rc_vote_responses c)"
  shows "quorum_size_with_witness_policy (cluster_membership c) (rc_ignore_witness c)
      \<le> length (filter (has_granted k i (vr_vote_granted r) (recorded_votes c))
                 (quorum_members (cluster_membership c) (rc_ignore_witness c)))
    \<and> vr_term r \<le> rc_current_term c
    \<and> (\<exists>n. cluster_node c k = Some n \<and> can_be_leader (nd_replica_role n) \<and> nd_healthy n)"
proof -
  let ?votes = "count_response k i (vr_vote_granted r) (recorded_votes c)"
  define c2 where "c2 = (discard_election_responses_from_an_earlier_term c)\<lparr>rc_vote_responses := ?votes\<rparr>"
  have frame: "cluster_membership c2 = cluster_membership c" "rc_ignore_witness c2 = rc_ignore_witness c"
      "rc_nodes c2 = rc_nodes c" "rc_leader_id c2 = rc_leader_id c" "rc_vote_responses c2 = ?votes"
    using discard_responses [of c] by (simp_all add: c2_def cluster_membership_def role_ids_def)
  have tm: "vr_term r \<le> rc_current_term c"
    using assms(1,2) by (auto simp: handle_vote_response_from_def handle_vote_response_inner_def clear_election_responses_def
        step_down_to_def modify_nodes_def split: if_splits sum.splits)
  then have rec: "rc_leader_id (snd (record_vote_response k i (vr_vote_granted r) False c)) = Some k"
    using assms(1,2) by (simp add: handle_vote_response_from_def handle_vote_response_inner_def split: if_splits)
  have lost: "rc_leader_id (clear_election_responses (invalidate_leader_lease (invalidate_follower_lease (d\<lparr>rc_leader_id := None\<rparr>)))) = None" for d
    by (simp add: clear_election_responses_def invalidate_leader_lease_def invalidate_follower_lease_def)
  have q: "quorum_reached_with_witness_policy (cluster_membership c) (granted_ids ?votes) (rc_ignore_witness c)"
    and lead: "rc_leader_id (snd (become_leader_current_term k c2)) = Some k"
    using rec assms(2) by (simp_all add: record_vote_response_def Let_def discard_responses frame lost flip: c2_def
        split: option.splits if_splits)
  have "\<exists>n. cluster_node c k = Some n \<and> can_be_leader (nd_replica_role n) \<and> nd_healthy n"
    using lead assms(2) frame(3,4) by (auto simp: become_leader_current_term_def split: option.splits if_splits)
  moreover have "bt_invar (recorded_votes c)" using assms(3) by (simp add: recorded_votes_def)
  ultimately show ?thesis
    using q tm granted_ids_count [of "recorded_votes c"]
    by (simp add: quorum_reached_with_witness_policy_def Let_def)
qed

definition standing_cluster :: raft_cluster where
  "standing_cluster = snd (start_vote_after_pre_vote_quorum 1 sample_cluster)"

definition prompt_grant :: vote_response where
  "prompt_grant = \<lparr>vr_term = 1, vr_vote_granted = True, vr_reason = ''vote_granted''\<rparr>"

theorem leader_elected_by_quorum_witness:
  "rc_leader_id (snd (handle_vote_response_from 1 2 prompt_grant False standing_cluster)) = Some 1
   \<and> 2 \<le> length (filter (has_granted 1 2 True (recorded_votes standing_cluster)) [1, 2, 3])"
proof -
  have h: "rc_leader_id (snd (handle_vote_response_from 1 2 prompt_grant False standing_cluster)) = Some 1"
    "rc_leader_id standing_cluster \<noteq> Some 1" by code_simp+
  have "rc_vote_responses standing_cluster = [(1, True)]"
    "quorum_members (cluster_membership standing_cluster) (rc_ignore_witness standing_cluster) = [1, 2, 3]"
    "quorum_size_with_witness_policy (cluster_membership standing_cluster) (rc_ignore_witness standing_cluster) = 2"
    "vr_vote_granted prompt_grant = True" by code_simp+
  with leader_elected_by_quorum [OF h] h(1) show ?thesis by (simp add: bt_invar_def)
qed

text \<open>
  A grant of an earlier term is counted in the current one, for a replica that is not even a candidate:
  in a group of three that replica 1 leads in term 1, a delayed grant of term 0 from replica 3 makes replica 2
  the leader of term 1.
\<close>

lemma delayed_grant_replaces_leader:
  "rc_leader_id elected_cluster = Some 1 \<and> rc_current_term elected_cluster = 1
   \<and> map_option nd_raft_role (cluster_node elected_cluster 2) = Some Follower
   \<and> rc_leader_id (snd (handle_vote_response_from 2 3 delayed_grant False elected_cluster)) = Some 2
   \<and> rc_current_term (snd (handle_vote_response_from 2 3 delayed_grant False elected_cluster)) = 1"
  by code_simp

end
