(* ===== verification/Spec2Isabelle.thy ===== *)
theory Spec2Isabelle
  imports MR_Node_Safety MR_Log_Buffer MR_Quorum_Select MR_Lease MR_Rate_Limit MR_Unique_Id
    MR_Checksum MR_Messages MR_Pipeline_Safety MR_Election_History MR_Group_Safety
    MR_Group_Steps MR_Snapshot_Safety MR_Wal_Safety MR_Durable_Safety MR_Dispatch_Safety MR_Commit_Safety
begin

text \<open>
  \<^bold>\<open>MatrixRaft: a verification library.\<close>

  The program is a Raft implementation. A group is modelled in one object
  (\<^verbatim>\<open>RaftCluster\<close>, \<^verbatim>\<open>facade/cluster_runtime.rs\<close>) that owns its replicas (\<^verbatim>\<open>Node\<close>); around it
  are memberships, a log buffer, leases, replication pipelines, storage, read safety and
  admission control.

  \<^bold>\<open>How the parts meet.\<close> A group holds an ordered map of replicas, one pipeline for each of them, its
  membership, its leases and the state of an election, of a leader transfer and of snapshots. Messages
  and commands reach it through \<^verbatim>\<open>step\<close>, which calls one handler each; a handler reads and
  changes replicas and pipelines and returns a result. Durable records are cut from a replica
  and restored into one. All of this is sequential code on one value, so the model is state passing:
  a fallible mutating method is a function to an outcome, the result paired with the state it leaves,
  and an early return keeps the changes made before it, as in the source.

  \<^bold>\<open>Conventions.\<close> A \<^verbatim>\<open>u64\<close> is a natural number and each overflow rule of the source is written out
  (saturating, wrapping, checked); checksums and identifiers, which are defined by their bits, are machine
  words. A \<^verbatim>\<open>BTreeMap\<close> is an association list with increasing keys. Strings are character lists and
  payloads lists of byte values. Errors are the constructors of \<^verbatim>\<open>enum RaftError\<close> with their texts.

  \<^bold>\<open>Foundations.\<close>
  \<^item> \<open>MR_Prelude\<close>: the arithmetic, the errors, results and outcomes.
  \<^item> \<open>MR_BTree_Map\<close>: the ordered map, behind the locale \<open>ordered_map\<close>.
  \<^item> \<open>MR_Search\<close>: the slice searches of the standard library, with their halving loop.
  \<^item> \<open>MR_Config\<close>: \<^verbatim>\<open>config.rs\<close>. \<open>MR_Messages\<close>: append and vote messages of \<^verbatim>\<open>facade/api_messages.rs\<close>.

  \<^bold>\<open>Components.\<close>
  \<^item> \<open>MR_Membership\<close> (\<^verbatim>\<open>facade/membership_core.rs\<close>, \<^verbatim>\<open>membership.rs\<close>): roles, memberships, joint
    memberships, promotion of learners. Quorums before and after one change meet; the contract is the
    locale \<open>quorum_system\<close>.
  \<^item> \<open>MR_Node\<close>, \<open>MR_Node_Safety\<close> (\<^verbatim>\<open>struct Node\<close>, \<^verbatim>\<open>facade/cluster_runtime.rs\<close>): one replica. Its
    invariant, the contract \<open>safe_log_op\<close> of its log operations, and over any sequence of them: the commit
    index never moves back and no committed entry is replaced.
  \<^item> \<open>MR_Log_Buffer\<close> (\<^verbatim>\<open>log_buffer.rs\<close>): the invariant under any sequence of calls, refinement of an
    abstract log, flush protocol, memory release.
  \<^item> \<open>MR_Quorum_Select\<close>, \<open>MR_Lease\<close> (\<^verbatim>\<open>lease.rs\<close>): both ways to select the value a quorum holds meet
    \<open>quorum_selection\<close>; across terms and membership changes, a leader in lease is backed by followers in
    lease, a majority of those who voted when its lease end was selected.
  \<^item> \<open>MR_Rate_Limit\<close> (\<^verbatim>\<open>rate_limit.rs\<close>), \<open>MR_Unique_Id\<close> (\<^verbatim>\<open>unique_id.rs\<close>), \<open>MR_Checksum\<close>
    (\<^verbatim>\<open>checksum.rs\<close>): quota conservation, distinct identifiers, streaming equals one shot.
  \<^item> \<open>MR_Pipeline\<close>, \<open>MR_Pipeline_Safety\<close> (\<^verbatim>\<open>pipeline.rs\<close>): exact counters, queues inside their
    limits with the last batch in flight as the one overshoot, order of flushes, the reorder queue.
  \<^item> \<open>MR_Snapshot\<close>, \<open>MR_Snapshot_Safety\<close> (\<^verbatim>\<open>facade/snapshot_runtime.rs\<close>): chunks, sender and receiver; a
    transfer under any limiter rebuilds the snapshot.
  \<^item> \<open>MR_Wal\<close>, \<open>MR_Wal_Safety\<close> (\<^verbatim>\<open>wal.rs\<close>, \<^verbatim>\<open>facade/wal_runtime.rs\<close>, \<^verbatim>\<open>storage.rs\<close>): records,
    checksums, delta records and their folding, recovery (which record is restored), the in-memory log, the
    payload codec.

  \<^bold>\<open>The group object\<close> (\<^verbatim>\<open>facade/cluster_runtime.rs\<close>).
  \<^item> \<open>MR_Cluster\<close>: the state, commit index, leases, liveness, the fences of membership and apply.
  \<^item> \<open>MR_Election\<close>, \<open>MR_Election_Safety\<close>, \<open>MR_Election_History\<close>: campaigns, pre-votes and votes; who can be
    granted a vote, that a pre-vote disturbs nobody, and that a replica grants one candidate a term over every
    history of messages.
  \<^item> \<open>MR_Append\<close>, \<open>MR_Append_Safety\<close>, \<open>MR_Replay_Safety\<close>: the append handler, its cache of early requests,
    read index; what each kind of success means (acknowledged entries match a request that is taken),
    committed entries stay, the replay ends.
  \<^item> \<open>MR_Replication\<close>, \<open>MR_Commit_Safety\<close>: proposals, responses, heartbeats, catch-up, compaction, leader
    transfer; the commit index moves only to what a commit quorum holds in the current term, and an answer
    makes a leader only with the grants of a quorum.
  \<^item> \<open>MR_Group_Change\<close>: adding, promoting, removing peers, snapshot installation, apply results.
  \<^item> \<open>MR_Dispatch\<close>: \<^verbatim>\<open>step\<close>, \<^verbatim>\<open>step_admin\<close> and \<^verbatim>\<open>step_batch\<close> with every message and command, the chunk
    receiver, writing and restoring durable records, and \<^verbatim>\<open>facade/membership_executor.rs\<close>.
  \<^item> \<open>MR_Durable_Safety\<close>: a record written for a replica and restored gives the replica back, and the delta the
    group cuts is the one the storage cuts.
  \<^item> \<open>MR_Group_Safety\<close>, \<open>MR_Group_Steps\<close>, \<open>MR_Dispatch_Safety\<close>: the well-formedness \<open>group_ok\<close> and its
    preservation by every operation, hence for every reachable group; rolled-back workflows are atomic.

  \<^bold>\<open>Loops.\<close> Loops over lists are structural. The others have termination proofs: the conflict scan
  descends to the commit index, the halving search shrinks its range, the drain of the reorder queue
  and the replay of early appends remove one element a turn, cutting a snapshot moves the offset by a
  positive chunk size. The replay takes a bound, the number of cached requests, and is proved to
  satisfy the recursion of the source, so the bound is never what ends it.

  \<^bold>\<open>Defects.\<close> Some lemmas evaluate a run on which the code breaks a guarantee: a delayed grant replaces a
  leader, a vote lowers a term, a heartbeat commits a divergent entry, a truncation forgets a membership
  change, a split chunk cannot be sent again. They are stated as what the code does.

  \<^bold>\<open>Parameters.\<close> The protobuf encoder of a log, which a checkpoint calls, is a function argument; so is the limiter of a
  snapshot transfer in the transfer theorem.

  \<^bold>\<open>Not modelled.\<close> Threads, channels, timers, sockets and files: drivers, schedulers, mailboxes, transports,
  the applier, snapshot pools, the persistent snapshot store and the segment files of the log
  (\<^verbatim>\<open>wal_binary.rs\<close>, the file half of \<^verbatim>\<open>facade/wal_runtime.rs\<close>), \<^verbatim>\<open>rpc_binary.rs\<close>, and the durable peer
  wrappers. Reports, metrics, readiness and evidence records only read the state or aggregate counters and are left out,
  as are serde forms, the state machine and storage traits, the compatibility layer and the examples.
\<close>

end
